(* ===== verification/Prelude.thy ===== *)
theory Prelude
  imports Complex_Main "HOL-Library.Word" "HOL-Library.Multiset"
begin

text \<open>
  Shared vocabulary of the OpenRef development.

  A Python operation that can raise is a function into \<open>'a result\<close>: \<open>Inl e\<close> is the
  exception that leaves it, \<open>Inr x\<close> the value it returns; \<open>bind\<close> is the sequencing of two
  statements, the second of which runs only when the first did not raise.  Exceptions carry
  the message the source gives them wherever it is a literal of the source.  Bytes are 8-bit
  words, a \<^verbatim>\<open>bytes\<close> object is a list of them, and the fixed-width little-endian and big-endian
  encodings of \<^verbatim>\<open>struct\<close> and \<^verbatim>\<open>int.to_bytes\<close> are \<open>le_bytes\<close>, \<open>be_bytes\<close> and their inverses.
\<close>

named_theorems res_simps \<open>evaluation of results and of their sequencing\<close>
named_theorems byte_simps \<open>lengths and round trips of byte encodings\<close>

section \<open>Exceptions and results\<close>

datatype py_error =
    ValueError string
  | KeyError string
  | IndexError
  | TypeError
  | AttributeError
  | ZeroDivisionError
  | OverflowError
  | StructError
  | AssertionError string
  | InvalidTag
  | ArgumentTypeError string

type_synonym 'a result = "py_error + 'a"

definition bind :: "'a result \<Rightarrow> ('a \<Rightarrow> 'b result) \<Rightarrow> 'b result" where
  "bind r k = case_sum Inl k r"

definition require :: "bool \<Rightarrow> py_error \<Rightarrow> unit result" where
  "require c e = (if c then Inr () else Inl e)"

lemma bind_raised [simp, res_simps]: "bind (Inl e) k = Inl e"
  by (simp add: bind_def)

lemma bind_returned [simp, res_simps]: "bind (Inr x) k = k x"
  by (simp add: bind_def)

lemma bind_eq_Inr [res_simps]: "bind m f = Inr y \<longleftrightarrow> (\<exists>x. m = Inr x \<and> f x = Inr y)"
  by (cases m) auto

lemma bind_eq_Inl [res_simps]:
  "bind m f = Inl e \<longleftrightarrow> m = Inl e \<or> (\<exists>x. m = Inr x \<and> f x = Inl e)"
  by (cases m) auto

lemma bind_InrE [elim]:
  assumes "bind m f = Inr y"
  obtains x where "m = Inr x" and "f x = Inr y"
  using assms by (auto simp: res_simps)

lemma require_eq_Inr [simp, res_simps]: "require c e = Inr u \<longleftrightarrow> c"
  by (simp add: require_def)

lemma require_eq_Inl [simp, res_simps]: "require c e = Inl e' \<longleftrightarrow> \<not> c \<and> e' = e"
  by (auto simp: require_def)

lemma bind_require [res_simps]: "bind (require c e) f = (if c then f () else Inl e)"
  by (simp add: require_def)

lemma bind_assoc: "bind (bind m f) g = bind m (\<lambda>x. bind (f x) g)"
  by (cases m) auto

definition of_option :: "py_error \<Rightarrow> 'a option \<Rightarrow> 'a result" where
  "of_option e = case_option (Inl e) Inr"

lemma of_option_simps [simp, res_simps]:
  "of_option e None = Inl e" "of_option e (Some x) = Inr x"
  by (simp_all add: of_option_def)

lemma of_option_eq_Inr [res_simps]: "of_option e m = Inr x \<longleftrightarrow> m = Some x"
  by (cases m) auto

text \<open>A \<^verbatim>\<open>for\<close> loop or comprehension whose body may raise: left to right, stopping at the
  first exception.\<close>

fun map_res :: "('a \<Rightarrow> 'b result) \<Rightarrow> 'a list \<Rightarrow> 'b list result" where
  "map_res f [] = Inr []"
| "map_res f (x # xs) = bind (f x) (\<lambda>y. bind (map_res f xs) (\<lambda>ys. Inr (y # ys)))"

fun fold_res :: "('a \<Rightarrow> 's \<Rightarrow> 's result) \<Rightarrow> 'a list \<Rightarrow> 's \<Rightarrow> 's result" where
  "fold_res f [] s = Inr s"
| "fold_res f (x # xs) s = bind (f x s) (fold_res f xs)"

lemma map_res_length: "map_res f xs = Inr ys \<Longrightarrow> length ys = length xs"
  by (induction xs arbitrary: ys) (auto simp: res_simps)

lemma map_res_defined: "(\<And>x. x \<in> set xs \<Longrightarrow> \<exists>y. f x = Inr y) \<Longrightarrow> \<exists>ys. map_res f xs = Inr ys"
  by (induction xs) fastforce+

lemma map_res_total: "(\<And>x. x \<in> set xs \<Longrightarrow> f x = Inr (g x)) \<Longrightarrow> map_res f xs = Inr (map g xs)"
  by (induction xs) auto

lemma fold_res_invariant:
  assumes "fold_res f xs s = Inr s'" and "P s"
    and "\<And>x t t'. x \<in> set xs \<Longrightarrow> P t \<Longrightarrow> f x t = Inr t' \<Longrightarrow> P t'"
  shows "P s'"
  using assms
proof (induction xs arbitrary: s)
  case (Cons x xs)
  then obtain t where "f x s = Inr t" "fold_res f xs t = Inr s'"
    by (auto simp: res_simps)
  then show ?case using Cons.prems(2,3) Cons.IH[of t] by auto
qed simp

lemma fold_res_append: "fold_res f (xs @ ys) s = bind (fold_res f xs s) (fold_res f ys)"
proof (induction xs arbitrary: s)
  case (Cons x xs)
  then have "fold_res f (xs @ ys) = (\<lambda>t. bind (fold_res f xs t) (fold_res f ys))" by blast
  then show ?case by (simp add: bind_assoc)
qed simp

section \<open>Sequences and dictionaries\<close>

text \<open>A \<^verbatim>\<open>dict\<close> keeps insertion order; assigning to a present key keeps its place.\<close>

fun dict_set :: "'k \<Rightarrow> 'v \<Rightarrow> ('k \<times> 'v) list \<Rightarrow> ('k \<times> 'v) list" where
  "dict_set k v [] = [(k, v)]"
| "dict_set k v ((k', v') # d) = (if k' = k then (k, v) # d else (k', v') # dict_set k v d)"

lemma map_of_dict_set [simp]: "map_of (dict_set k v d) = (map_of d)(k \<mapsto> v)"
  by (induction d) auto

lemma dict_set_keys_list:
  "map fst (dict_set k v d) =
     (if k \<in> set (map fst d) then map fst d else map fst d @ [k])"
proof (induction d)
  case (Cons p d)
  then show ?case by (cases p) (auto simp del: set_map simp: list.set_map(1)[symmetric])
qed simp

lemma dict_set_keys: "set (map fst (dict_set k v d)) = insert k (set (map fst d))"
  unfolding dict_set_keys_list by auto

lemma dict_set_vals: "p \<in> set (dict_set k v d) \<Longrightarrow> p = (k, v) \<or> p \<in> set d"
  by (induction d) (auto split: if_splits)

lemma distinct_dict_set: "distinct (map fst d) \<Longrightarrow> distinct (map fst (dict_set k v d))"
  by (simp add: dict_set_keys_list)

lemma sum_list_update_add:
  fixes f :: "'a \<Rightarrow> 'b :: comm_monoid_add"
  shows "i < length xs \<Longrightarrow> sum_list (map f (xs[i := x])) + f (xs ! i) = sum_list (map f xs) + f x"
proof (induction xs arbitrary: i)
  case (Cons y ys)
  then show ?case
  proof (cases i)
    case (Suc j)
    then have "sum_list (map f (ys[j := x])) + f (ys ! j) = sum_list (map f ys) + f x"
      using Cons by simp
    with Suc show ?thesis by (simp add: add.assoc)
  qed (simp add: ac_simps)
qed simp

section \<open>Fixed-width integers in bytes\<close>

type_synonym byte = "8 word"

definition byte_of :: "int \<Rightarrow> byte" where
  "byte_of x = word_of_int x"

fun le_bytes :: "nat \<Rightarrow> int \<Rightarrow> byte list" where
  "le_bytes 0 x = []"
| "le_bytes (Suc n) x = byte_of (x mod 256) # le_bytes n (x div 256)"

fun le_int :: "byte list \<Rightarrow> int" where
  "le_int [] = 0"
| "le_int (b # bs) = uint b + 256 * le_int bs"

definition be_bytes :: "nat \<Rightarrow> int \<Rightarrow> byte list" where
  "be_bytes n x = rev (le_bytes n x)"

definition be_int :: "byte list \<Rightarrow> int" where
  "be_int bs = le_int (rev bs)"

lemma uint_byte_of [byte_simps]: "uint (byte_of x) = x mod 256"
  by (simp add: byte_of_def uint_word_of_int)

lemma byte_of_uint [byte_simps]: "byte_of (uint b) = b"
  by (simp add: byte_of_def)

lemma uint_byte_bounds: "0 \<le> uint (b :: byte) \<and> uint b < 256"
  using uint_bounded[of b] by simp

lemma length_le_bytes [simp, byte_simps]: "length (le_bytes n x) = n"
  by (induction n arbitrary: x) auto

lemma length_be_bytes [simp, byte_simps]: "length (be_bytes n x) = n"
  by (simp add: be_bytes_def)

lemma le_int_le_bytes [byte_simps]: "le_int (le_bytes n x) = x mod 256 ^ n"
proof (induction n arbitrary: x)
  case (Suc n)
  have "x mod 256 + 256 * (x div 256 mod 256 ^ n) = x mod (256 * 256 ^ n :: int)"
    by (simp add: zmod_zmult2_eq)
  with Suc show ?case by (simp add: uint_byte_of)
qed simp

lemma le_int_bounds: "0 \<le> le_int bs \<and> le_int bs < 256 ^ length bs"
proof (induction bs)
  case (Cons b bs)
  have "0 \<le> uint b" "uint b \<le> 255" using uint_byte_bounds[of b] by auto
  with Cons show ?case by auto
qed simp

lemma le_bytes_le_int [byte_simps]: "length bs = n \<Longrightarrow> le_bytes n (le_int bs) = bs"
proof (induction bs arbitrary: n)
  case (Cons b bs)
  have b: "0 \<le> uint b" "uint b < 256" using uint_byte_bounds[of b] by auto
  then have "(uint b + 256 * le_int bs) mod 256 = uint b"
    "(uint b + 256 * le_int bs) div 256 = le_int bs"
    by auto
  with Cons show ?case by (auto simp: byte_of_uint)
qed simp

lemma be_int_be_bytes [byte_simps]: "be_int (be_bytes n x) = x mod 256 ^ n"
  by (simp add: be_int_def be_bytes_def le_int_le_bytes)

lemma be_int_bounds: "0 \<le> be_int bs \<and> be_int bs < 256 ^ length bs"
  using le_int_bounds[of "rev bs"] by (simp add: be_int_def)

lemma be_bytes_be_int [byte_simps]: "length bs = n \<Longrightarrow> be_bytes n (be_int bs) = bs"
  by (simp add: be_int_def be_bytes_def le_bytes_le_int)

text \<open>\<^verbatim>\<open>struct.pack\<close> of one unsigned field of \<open>n\<close> bytes: a value that does not fit raises.\<close>

definition pack_uint :: "nat \<Rightarrow> int \<Rightarrow> byte list result" where
  "pack_uint n x = (if 0 \<le> x \<and> x < 256 ^ n then Inr (le_bytes n x) else Inl StructError)"

fun pack_fields :: "(nat \<times> int) list \<Rightarrow> byte list result" where
  "pack_fields [] = Inr []"
| "pack_fields ((n, x) # fs) =
     bind (pack_uint n x) (\<lambda>bs. bind (pack_fields fs) (\<lambda>rest. Inr (bs @ rest)))"

fun unpack_fields :: "nat list \<Rightarrow> byte list \<Rightarrow> int list" where
  "unpack_fields [] bs = []"
| "unpack_fields (n # ns) bs = le_int (take n bs) # unpack_fields ns (drop n bs)"

definition fields_fit :: "(nat \<times> int) list \<Rightarrow> bool" where
  "fields_fit fs \<longleftrightarrow> (\<forall>(n, x) \<in> set fs. 0 \<le> x \<and> x < 256 ^ n)"

fun field_bytes :: "(nat \<times> int) list \<Rightarrow> byte list" where
  "field_bytes [] = []"
| "field_bytes ((n, x) # fs) = le_bytes n x @ field_bytes fs"

lemma pack_fields_fit: "fields_fit fs \<Longrightarrow> pack_fields fs = Inr (field_bytes fs)"
  by (induction fs rule: pack_fields.induct) (auto simp: fields_fit_def pack_uint_def)

lemma length_field_bytes [simp, byte_simps]:
  "length (field_bytes fs) = sum_list (map fst fs)"
  by (induction fs rule: field_bytes.induct) auto

lemma unpack_field_bytes:
  "fields_fit fs \<Longrightarrow> unpack_fields (map fst fs) (field_bytes fs @ rest) = map snd fs"
  by (induction fs rule: field_bytes.induct) (auto simp: fields_fit_def le_int_le_bytes)

lemma field_bytes_unpack:
  "sum_list ns \<le> length bs \<Longrightarrow>
   field_bytes (zip ns (unpack_fields ns bs)) = take (sum_list ns) bs"
proof (induction ns arbitrary: bs)
  case (Cons n ns)
  then have "n \<le> length bs" "sum_list ns \<le> length (drop n bs)" by auto
  with Cons.IH[of "drop n bs"] show ?case
    by (simp add: le_bytes_le_int take_add)
qed simp

lemma length_unpack_fields [simp]: "length (unpack_fields ns bs) = length ns"
  by (induction ns arbitrary: bs) auto

end
