(* ===== verification/Engine.thy ===== *)
theory Engine
  imports Prelude "HOL-Library.Product_Lexorder"
begin

text \<open>
  \<^verbatim>\<open>simulator/src/openref_sim/events.py\<close> and \<^verbatim>\<open>engine.py\<close>: the discrete-event engine.  A
  \<open>simulation\<close> is an extensible record: the components that share the Python \<^verbatim>\<open>Simulation\<close> object
  extend it with their own fields, so that \<open>schedule\<close> and \<open>record_event\<close> act on every state that
  holds a simulation.  A callback is a value of a type \<open>'cb\<close> (the closure's code and what it
  captured), and \<open>exec\<close> runs it.

  \<^verbatim>\<open>heapq\<close> is used through \<^verbatim>\<open>heappush\<close> and \<^verbatim>\<open>heappop\<close> only.  Events are compared by
  \<^verbatim>\<open>(time_us, order)\<close>, so what \<^verbatim>\<open>heappop\<close> returns does not depend on the layout of the heap; the
  queue is kept as the list in pop order.
\<close>

section \<open>Events\<close>

record 'cb scheduled_event =
  se_time_us :: int
  se_order :: nat
  se_callback :: 'cb
  se_description :: string

datatype detail = DInt int | DStr string | DNone

record trace_event =
  te_time_us :: int
  te_event :: string
  te_node_id :: "int option"
  te_packet_id :: "int option"
  te_details :: "(string \<times> detail) list"

record 'cb simulation =
  now_us :: int
  events :: "'cb scheduled_event list"
  next_order :: nat
  trace :: "trace_event list"

definition new_simulation :: "'cb simulation" where
  "new_simulation = \<lparr>now_us = 0, events = [], next_order = 0, trace = []\<rparr>"

definition se_key :: "('cb, 'x) scheduled_event_scheme \<Rightarrow> int \<times> nat" where
  "se_key e = (se_time_us e, se_order e)"

section \<open>The event queue\<close>

fun heappush :: "'cb scheduled_event \<Rightarrow> 'cb scheduled_event list \<Rightarrow> 'cb scheduled_event list" where
  "heappush e [] = [e]"
| "heappush e (x # xs) = (if se_key e < se_key x then e # x # xs else x # heappush e xs)"

fun heappop :: "'cb scheduled_event list \<Rightarrow> ('cb scheduled_event \<times> 'cb scheduled_event list) option" where
  "heappop [] = None"
| "heappop (x # xs) = Some (x, xs)"

definition heap_ok :: "'cb scheduled_event list \<Rightarrow> bool" where
  "heap_ok q = sorted_wrt (\<lambda>a b. se_key a \<le> se_key b) q"

text \<open>What the engine relies on: the pop takes a least event, and pushing it back restores the
  queue's contents (the engine does so when it has looked past the end of its run).\<close>

locale event_queue =
  fixes push :: "'e \<Rightarrow> 'q \<Rightarrow> 'q" and pop :: "'q \<Rightarrow> ('e \<times> 'q) option"
    and key :: "'e \<Rightarrow> 'k :: linorder" and inv :: "'q \<Rightarrow> bool" and contents :: "'q \<Rightarrow> 'e multiset"
  assumes push_inv: "inv q \<Longrightarrow> inv (push e q)"
    and push_contents: "contents (push e q) = add_mset e (contents q)"
    and pop_None: "pop q = None \<longleftrightarrow> contents q = {#}"
    and pop_inv: "inv q \<Longrightarrow> pop q = Some (e, q') \<Longrightarrow> inv q'"
    and pop_contents: "pop q = Some (e, q') \<Longrightarrow> contents q = add_mset e (contents q')"
    and pop_min: "inv q \<Longrightarrow> pop q = Some (e, q') \<Longrightarrow> d \<in># contents q' \<Longrightarrow> key e \<le> key d"
begin

lemma peek_contents: "pop q = Some (e, q') \<Longrightarrow> contents (push e q') = contents q"
  by (simp add: push_contents pop_contents)

lemma pop_nonempty: "e \<in># contents q \<Longrightarrow> \<exists>d q'. pop q = Some (d, q')"
  using pop_None[of q] by (cases "pop q") auto

lemma pop_least: "inv q \<Longrightarrow> pop q = Some (e, q') \<Longrightarrow> d \<in># contents q \<Longrightarrow> key e \<le> key d"
  using pop_min[of q e q' d] by (auto simp: pop_contents)

lemma pop_size: "pop q = Some (e, q') \<Longrightarrow> size (contents q') < size (contents q)"
  by (simp add: pop_contents)

end

lemma heappush_contents: "mset (heappush e q) = add_mset e (mset q)"
  by (induction q) auto

lemma set_heappush: "set (heappush e q) = insert e (set q)"
  using heappush_contents[of e q] by (metis set_mset_add_mset_insert set_mset_mset)

lemma heappush_ok: "heap_ok q \<Longrightarrow> heap_ok (heappush e q)"
  by (induction q) (auto simp: heap_ok_def set_heappush)

interpretation hq: event_queue heappush heappop se_key heap_ok mset
proof
  fix q :: "'a scheduled_event list" and e q' d
  show "heap_ok q \<Longrightarrow> heap_ok (heappush e q)" by (rule heappush_ok)
  show "mset (heappush e q) = add_mset e (mset q)" by (rule heappush_contents)
  show "heappop q = None \<longleftrightarrow> mset q = {#}" by (cases q) auto
  show "heap_ok q \<Longrightarrow> heappop q = Some (e, q') \<Longrightarrow> heap_ok q'"
    by (cases q) (auto simp: heap_ok_def)
  show "heappop q = Some (e, q') \<Longrightarrow> mset q = add_mset e (mset q')"
    by (cases q) auto
  show "heap_ok q \<Longrightarrow> heappop q = Some (e, q') \<Longrightarrow> d \<in># mset q' \<Longrightarrow> se_key e \<le> se_key d"
    by (cases q) (auto simp: heap_ok_def)
qed

section \<open>The engine's operations\<close>

definition schedule_at ::
  "int \<Rightarrow> 'cb \<Rightarrow> string \<Rightarrow> ('cb, 'm) simulation_scheme \<Rightarrow> ('cb, 'm) simulation_scheme result" where
  "schedule_at time_us cb description s =
     (if time_us < now_us s then Inl (ValueError ''Cannot schedule an event in the past'')
      else Inr (s\<lparr>events := heappush \<lparr>se_time_us = time_us, se_order = next_order s,
                     se_callback = cb, se_description = description\<rparr> (events s),
                  next_order := next_order s + 1\<rparr>))"

definition schedule ::
  "int \<Rightarrow> 'cb \<Rightarrow> string \<Rightarrow> ('cb, 'm) simulation_scheme \<Rightarrow> ('cb, 'm) simulation_scheme result" where
  "schedule delay_us cb description s =
     (if delay_us < 0 then Inl (ValueError ''delay_us must be nonnegative'')
      else schedule_at (now_us s + delay_us) cb description s)"

definition record_event ::
  "string \<Rightarrow> int option \<Rightarrow> int option \<Rightarrow> (string \<times> detail) list
   \<Rightarrow> ('cb, 'm) simulation_scheme \<Rightarrow> ('cb, 'm) simulation_scheme" where
  "record_event event node_id packet_id details s =
     s\<lparr>trace := trace s @ [\<lparr>te_time_us = now_us s, te_event = event, te_node_id = node_id,
        te_packet_id = packet_id, te_details = details\<rparr>]\<rparr>"

text \<open>The loop of \<^verbatim>\<open>run\<close>.  It need not end (a callback may schedule itself at the current time
  forever), so a run that does not return is \<open>None\<close>.\<close>

partial_function (option) run_loop ::
  "('cb \<Rightarrow> ('cb, 'm) simulation_scheme \<Rightarrow> ('cb, 'm) simulation_scheme result) \<Rightarrow> int
   \<Rightarrow> ('cb, 'm) simulation_scheme \<Rightarrow> ('cb, 'm) simulation_scheme result option" where
  "run_loop exec until_us s =
     (case heappop (events s) of
        None \<Rightarrow> Some (Inr s)
      | Some (event, rest) \<Rightarrow>
          if until_us < se_time_us event
          then Some (Inr (s\<lparr>events := heappush event rest\<rparr>))
          else (case exec (se_callback event) (s\<lparr>events := rest, now_us := se_time_us event\<rparr>) of
                  Inl e \<Rightarrow> Some (Inl e)
                | Inr s' \<Rightarrow> run_loop exec until_us s'))"

declare run_loop.simps [code]

definition run ::
  "('cb \<Rightarrow> ('cb, 'm) simulation_scheme \<Rightarrow> ('cb, 'm) simulation_scheme result) \<Rightarrow> int
   \<Rightarrow> ('cb, 'm) simulation_scheme \<Rightarrow> ('cb, 'm) simulation_scheme result option" where
  "run exec until_us s =
     (if until_us < now_us s
      then Some (Inl (ValueError ''until_us cannot move simulation backwards''))
      else map_option (\<lambda>r. bind r (\<lambda>s'. Inr (s'\<lparr>now_us := until_us\<rparr>))) (run_loop exec until_us s))"

section \<open>The engine's invariant\<close>

definition sim_inv :: "('cb, 'm) simulation_scheme \<Rightarrow> bool" where
  "sim_inv s \<longleftrightarrow>
     heap_ok (events s) \<and>
     (\<forall>e \<in> set (events s). now_us s \<le> se_time_us e \<and> se_order e < next_order s) \<and>
     distinct (map se_order (events s)) \<and>
     sorted (map te_time_us (trace s)) \<and> (\<forall>t \<in> set (trace s). te_time_us t \<le> now_us s)"

text \<open>\<open>sim_step_ok s s'\<close>: a state change a callback may make while the clock stands still.  Events are
  only added, none in the past, with fresh orders, and the trace is only extended.\<close>

definition sim_step_ok :: "('cb, 'm) simulation_scheme \<Rightarrow> ('cb, 'm) simulation_scheme \<Rightarrow> bool" where
  "sim_step_ok s s' \<longleftrightarrow>
     now_us s' = now_us s \<and> next_order s \<le> next_order s' \<and>
     (sim_inv s \<longrightarrow> sim_inv s') \<and> mset (events s) \<subseteq># mset (events s') \<and>
     (\<exists>t. trace s' = trace s @ t)"

lemma sim_inv_new: "sim_inv new_simulation"
  by (simp add: sim_inv_def new_simulation_def heap_ok_def)

lemma sim_step_ok_refl [simp]: "sim_step_ok s s"
  by (simp add: sim_step_ok_def)

lemma sim_step_ok_trans: "sim_step_ok a b \<Longrightarrow> sim_step_ok b c \<Longrightarrow> sim_step_ok a c"
  unfolding sim_step_ok_def
  by (metis append_assoc order_trans subset_mset.order_trans)

lemma sim_inv_eqI:
  assumes "sim_inv s" "now_us s' = now_us s" "events s' = events s" "next_order s' = next_order s"
    "trace s' = trace s"
  shows "sim_inv s'"
  using assms by (simp add: sim_inv_def)

lemma sim_step_ok_eqI:
  assumes "now_us s' = now_us s" "events s' = events s" "next_order s' = next_order s"
    "trace s' = trace s"
  shows "sim_step_ok s s'"
  using assms by (simp add: sim_step_ok_def sim_inv_def)

lemma distinct_orders_heappush:
  "distinct (map se_order (heappush e q)) \<longleftrightarrow>
   distinct (map se_order q) \<and> se_order e \<notin> set (map se_order q)"
proof -
  have "mset (map se_order (heappush e q)) = mset (se_order e # map se_order q)"
    by (simp add: heappush_contents)
  then have "distinct (map se_order (heappush e q)) = distinct (se_order e # map se_order q)"
    by (rule mset_eq_imp_distinct_iff)
  then show ?thesis by auto
qed

lemma schedule_at_Inr:
  assumes "schedule_at t cb d s = Inr s'"
  shows "now_us s \<le> t" and "s' = s\<lparr>events := heappush \<lparr>se_time_us = t, se_order = next_order s,
      se_callback = cb, se_description = d\<rparr> (events s), next_order := next_order s + 1\<rparr>"
  using assms by (auto simp: schedule_at_def split: if_splits)

lemma schedule_at_step: 
  assumes "schedule_at t cb d s = Inr s'"
  shows "sim_step_ok s s'"
proof -
  note s' = schedule_at_Inr[OF assms]
  have "sim_inv s \<Longrightarrow> sim_inv s'"
    using s'(1) by (auto simp: s'(2) sim_inv_def heappush_ok set_heappush distinct_orders_heappush
        less_Suc_eq dest: less_imp_neq)
  then show ?thesis by (auto simp: sim_step_ok_def s'(2) heappush_contents)
qed

lemma schedule_Inr:
  assumes "schedule d cb txt s = Inr s'"
  shows "0 \<le> d" and "schedule_at (now_us s + d) cb txt s = Inr s'"
  using assms by (auto simp: schedule_def split: if_splits)

lemma schedule_step: "schedule d cb txt s = Inr s' \<Longrightarrow> sim_step_ok s s'"
  by (rule schedule_at_step[OF schedule_Inr(2)])

lemma record_event_step: "sim_step_ok s (record_event ev n p d s)"
  by (auto simp: sim_step_ok_def sim_inv_def record_event_def sorted_append)

section \<open>What a run does, for any callbacks that keep to the scheduling interface\<close>

text \<open>\<open>engine_client\<close> is the contract between the engine and its callbacks: a callback changes the
  engine's state through \<open>schedule\<close> and \<open>record_event\<close> only.\<close>

definition after_pop :: "'cb scheduled_event \<Rightarrow> 'cb scheduled_event list
   \<Rightarrow> ('cb, 'm) simulation_scheme \<Rightarrow> ('cb, 'm) simulation_scheme" where
  "after_pop e rest s = s\<lparr>events := rest, now_us := se_time_us e\<rparr>"

definition run_ok :: "int \<Rightarrow> ('cb, 'm) simulation_scheme \<Rightarrow> ('cb, 'm) simulation_scheme \<Rightarrow> bool" where
  "run_ok until_us s s' \<longleftrightarrow>
     sim_inv s' \<and> now_us s \<le> now_us s' \<and> (now_us s \<le> until_us \<longrightarrow> now_us s' \<le> until_us) \<and>
     (\<exists>t. trace s' = trace s @ t) \<and> (\<forall>e \<in> set (events s'). until_us < se_time_us e)"

lemma heappop_Some: "heappop q = Some (e, rest) \<longleftrightarrow> q = e # rest"
  by (cases q) auto

lemma heappop_None: "heappop q = None \<longleftrightarrow> q = []"
  by (cases q) auto

lemma heappush_least: "heap_ok (e # rest) \<Longrightarrow> distinct (map se_order (e # rest)) \<Longrightarrow> heappush e rest = e # rest"
proof (cases rest)
  case (Cons x xs)
  moreover assume "heap_ok (e # rest)" "distinct (map se_order (e # rest))"
  ultimately have "se_key e \<le> se_key x" "se_order e \<noteq> se_order x" by (auto simp: heap_ok_def)
  then have "se_key e < se_key x" by (auto simp: se_key_def)
  with Cons show ?thesis by simp
qed simp

lemma after_pop_inv:
  assumes "sim_inv s" "heappop (events s) = Some (e, rest)"
  shows "sim_inv (after_pop e rest s)" and "now_us s \<le> se_time_us e"
    and "now_us (after_pop e rest s) = se_time_us e"
  using assms by (auto simp: sim_inv_def after_pop_def heappop_Some heap_ok_def se_key_def)

locale engine_client =
  fixes exec :: "'cb \<Rightarrow> ('cb, 'm) simulation_scheme \<Rightarrow> ('cb, 'm) simulation_scheme result"
  assumes exec_step: "exec cb s = Inr s' \<Longrightarrow> sim_step_ok s s'"
begin

lemma run_loop_rule:
  assumes run: "run_loop exec until_us s = Some (Inr s')"
    and base: "P s" and inv: "sim_inv s"
    and step: "\<And>e rest t t'. P t \<Longrightarrow> sim_inv t \<Longrightarrow> heappop (events t) = Some (e, rest)
       \<Longrightarrow> se_time_us e \<le> until_us \<Longrightarrow> exec (se_callback e) (after_pop e rest t) = Inr t' \<Longrightarrow> P t'"
  shows "P s' \<and> run_ok until_us s s'"
proof -
  have "\<And>r. run_loop exec until_us s = Some r \<Longrightarrow>
      (\<forall>s'. r = Inr s' \<longrightarrow> P s \<longrightarrow> sim_inv s \<longrightarrow> P s' \<and> run_ok until_us s s')"
  proof (rule run_loop.raw_induct[where P = "\<lambda>ex u s r. ex = exec \<longrightarrow> u = until_us \<longrightarrow>
       (\<forall>s'. r = Inr s' \<longrightarrow> P s \<longrightarrow> sim_inv s \<longrightarrow> P s' \<and> run_ok until_us s s')",
       THEN mp, THEN mp, OF _ _ refl refl])
    fix rl ex u s r
    assume IH: "\<And>ex u s r. rl ex u s = Some r \<Longrightarrow> ex = exec \<longrightarrow> u = until_us \<longrightarrow>
        (\<forall>s'. r = Inr s' \<longrightarrow> P s \<longrightarrow> sim_inv s \<longrightarrow> P s' \<and> run_ok until_us s s')"
      and eq: "(case heappop (events s) of None \<Rightarrow> Some (Inr s)
      | Some (event, rest) \<Rightarrow>
          if u < se_time_us event then Some (Inr (s\<lparr>events := heappush event rest\<rparr>))
          else (case ex (se_callback event) (s\<lparr>events := rest, now_us := se_time_us event\<rparr>) of
                  Inl e \<Rightarrow> Some (Inl e) | Inr s' \<Rightarrow> rl ex u s')) = Some r"
    show "ex = exec \<longrightarrow> u = until_us \<longrightarrow>
        (\<forall>s'. r = Inr s' \<longrightarrow> P s \<longrightarrow> sim_inv s \<longrightarrow> P s' \<and> run_ok until_us s s')"
    proof (intro impI allI)
      fix s' assume ex: "ex = exec" and u: "u = until_us" and r: "r = Inr s'" and P: "P s" and I: "sim_inv s"
      show "P s' \<and> run_ok until_us s s'"
      proof (cases "heappop (events s)")
        case None
        then have "s' = s" "events s = []" using eq r by (auto simp: heappop_None)
        then show ?thesis using P I by (simp add: run_ok_def)
      next
        case (Some p)
        then obtain e rest where pop: "heappop (events s) = Some (e, rest)" by (cases p) auto
        show ?thesis
        proof (cases "until_us < se_time_us e")
          case True
          have "s' = s" using eq r pop True u heappush_least[of e rest] I
            by (auto simp: sim_inv_def heappop_Some)
          moreover have "\<forall>e' \<in> set (events s). until_us < se_time_us e'"
            using True pop I by (auto simp: sim_inv_def heappop_Some heap_ok_def se_key_def)
          ultimately show ?thesis using P I by (simp add: run_ok_def)
        next
          case False
          obtain t where t: "exec (se_callback e) (after_pop e rest s) = Inr t" and rl: "rl exec until_us t = Some r"
            using eq r pop False u ex by (auto simp: after_pop_def split: sum.splits)
          note ap = after_pop_inv[OF I pop]
          have st: "sim_step_ok (after_pop e rest s) t" using t by (rule exec_step)
          then have It: "sim_inv t" using ap by (simp add: sim_step_ok_def)
          have Pt: "P t" using step[OF P I pop _ t] False by simp
          from IH[OF rl] have "P s' \<and> run_ok until_us t s'" using r Pt It by blast
          moreover have "run_ok until_us s s'" if "run_ok until_us t s'"
            using that st ap False by (auto simp: run_ok_def sim_step_ok_def after_pop_def)
          ultimately show ?thesis by blast
        qed
      qed
    qed
  qed
  with run base inv show ?thesis by blast
qed

lemma run_rule:
  assumes run: "run exec until_us s = Some (Inr s')"
    and base: "P s" and inv: "sim_inv s"
    and step: "\<And>e rest t t'. P t \<Longrightarrow> sim_inv t \<Longrightarrow> heappop (events t) = Some (e, rest)
       \<Longrightarrow> se_time_us e \<le> until_us \<Longrightarrow> exec (se_callback e) (after_pop e rest t) = Inr t' \<Longrightarrow> P t'"
    and clock: "\<And>t. P t \<Longrightarrow> P (t\<lparr>now_us := until_us\<rparr>)"
  shows "P s' \<and> sim_inv s' \<and> now_us s' = until_us \<and> (\<exists>t. trace s' = trace s @ t) \<and>
         (\<forall>e \<in> set (events s'). until_us < se_time_us e)"
proof -
  from run obtain t where u: "now_us s \<le> until_us" and t: "run_loop exec until_us s = Some (Inr t)"
    and s': "s' = t\<lparr>now_us := until_us\<rparr>"
    by (auto simp: run_def bind_eq_Inr split: if_splits)
  have *: "P t \<and> run_ok until_us s t" using t base inv step by (rule run_loop_rule)
  then show ?thesis using u clock[of t]
    by (auto simp: s' run_ok_def sim_inv_def)
qed

text \<open>A run ends when every callback that succeeds makes some natural measure of the state smaller,
  and it raises nothing when no callback does.\<close>

lemma run_loop_defined:
  fixes W :: "('cb, 'm) simulation_scheme \<Rightarrow> nat"
  assumes base: "P s" and inv: "sim_inv s"
    and step: "\<And>e rest t t'. P t \<Longrightarrow> sim_inv t \<Longrightarrow> heappop (events t) = Some (e, rest) \<Longrightarrow> se_time_us e \<le> until_us \<Longrightarrow>
       exec (se_callback e) (after_pop e rest t) = Inr t' \<Longrightarrow> P t' \<and> W t' < W t"
  shows "run_loop exec until_us s \<noteq> None"
  using base inv
proof (induction "W s" arbitrary: s rule: less_induct)
  case less
  show ?case
  proof (cases "heappop (events s)")
    case None
    then show ?thesis by (subst run_loop.simps) simp
  next
    case (Some p)
    then obtain e rest where pop: "heappop (events s) = Some (e, rest)" by (cases p) auto
    consider "until_us < se_time_us e"
      | err where "se_time_us e \<le> until_us" "exec (se_callback e) (after_pop e rest s) = Inl err"
      | t where "se_time_us e \<le> until_us" "exec (se_callback e) (after_pop e rest s) = Inr t"
      by (metis not_le_imp_less sum.exhaust)
    then show ?thesis
    proof cases
      case 3
      have "sim_inv t"
        using exec_step[OF 3(2)] after_pop_inv[OF less.prems(2) pop] by (simp add: sim_step_ok_def)
      then have "run_loop exec until_us t \<noteq> None"
        using less.hyps step[OF less.prems pop 3] by blast
      then show ?thesis using 3 pop by (subst run_loop.simps) (simp add: after_pop_def)
    qed (subst run_loop.simps, simp add: pop after_pop_def)+
  qed
qed

lemma run_loop_no_error:
  assumes base: "P s" and inv: "sim_inv s"
    and step: "\<And>e rest t. P t \<Longrightarrow> sim_inv t \<Longrightarrow> heappop (events t) = Some (e, rest) \<Longrightarrow> se_time_us e \<le> until_us \<Longrightarrow>
       \<exists>t'. exec (se_callback e) (after_pop e rest t) = Inr t' \<and> P t'"
  shows "run_loop exec until_us s \<noteq> Some (Inl err)"
proof -
  have "\<And>r. run_loop exec until_us s = Some r \<Longrightarrow> P s \<longrightarrow> sim_inv s \<longrightarrow> r \<noteq> Inl err"
  proof (rule run_loop.raw_induct[where P = "\<lambda>ex u s r. ex = exec \<longrightarrow> u = until_us \<longrightarrow>
       (P s \<longrightarrow> sim_inv s \<longrightarrow> r \<noteq> Inl err)", THEN mp, THEN mp, OF _ _ refl refl])
    fix rl ex u s r
    assume IH: "\<And>ex u s r. rl ex u s = Some r \<Longrightarrow> ex = exec \<longrightarrow> u = until_us \<longrightarrow> (P s \<longrightarrow> sim_inv s \<longrightarrow> r \<noteq> Inl err)"
      and eq: "(case heappop (events s) of None \<Rightarrow> Some (Inr s)
      | Some (event, rest) \<Rightarrow>
          if u < se_time_us event then Some (Inr (s\<lparr>events := heappush event rest\<rparr>))
          else (case ex (se_callback event) (s\<lparr>events := rest, now_us := se_time_us event\<rparr>) of
                  Inl e \<Rightarrow> Some (Inl e) | Inr s' \<Rightarrow> rl ex u s')) = Some r"
    show "ex = exec \<longrightarrow> u = until_us \<longrightarrow> (P s \<longrightarrow> sim_inv s \<longrightarrow> r \<noteq> Inl err)"
    proof (intro impI)
      assume ex: "ex = exec" and u: "u = until_us" and P: "P s" and I: "sim_inv s"
      show "r \<noteq> Inl err"
      proof (cases "heappop (events s)")
        case (Some p)
        then obtain e rest where pop: "heappop (events s) = Some (e, rest)" by (cases p) auto
        show ?thesis
        proof (cases "until_us < se_time_us e")
          case False
          then obtain t where t: "exec (se_callback e) (after_pop e rest s) = Inr t" "P t"
            using step[OF P I pop] by auto
          then have "rl exec until_us t = Some r" using eq pop False u ex by (simp add: after_pop_def)
          moreover have "sim_inv t" using exec_step[OF t(1)] after_pop_inv[OF I pop] by (simp add: sim_step_ok_def)
          ultimately show ?thesis using IH t(2) by blast
        qed (use eq pop u in auto)
      qed (use eq in auto)
    qed
  qed
  then show ?thesis using base inv by blast
qed

end

end
