(* ===== verification/Wire_Packet.thy ===== *)
theory Wire_Packet
  imports Prelude
begin

text \<open>
  \<^verbatim>\<open>simulator/src/openref_sim/packet.py\<close>: the version 1 wire header and its codec, the packet
  record the simulator moves around, and the airtime of a packet.
\<close>

section \<open>Constants and data\<close>

definition OPENREF_MAGIC :: int where "OPENREF_MAGIC = 0x4F52"
definition OPENREF_PACKET_VERSION :: int where "OPENREF_PACKET_VERSION = 1"
definition OPENREF_HEADER_BYTES :: nat where "OPENREF_HEADER_BYTES = 18"
definition OPENREF_MAX_PAYLOAD_BYTES :: int where "OPENREF_MAX_PAYLOAD_BYTES = 255"
definition HEADER_FIELDS :: "nat list" where "HEADER_FIELDS = [2, 1, 1, 1, 1, 2, 8, 2]"

lemmas packet_consts = OPENREF_MAGIC_def OPENREF_PACKET_VERSION_def OPENREF_HEADER_BYTES_def
  OPENREF_MAX_PAYLOAD_BYTES_def HEADER_FIELDS_def

datatype packet_kind = VOICE | HEARTBEAT

fun packet_kind_value :: "packet_kind \<Rightarrow> string" where
  "packet_kind_value VOICE = ''voice''"
| "packet_kind_value HEARTBEAT = ''heartbeat''"

datatype wire_packet_kind = WPing | WAudioFrame | WHeartbeat | WControl

fun wire_kind_value :: "wire_packet_kind \<Rightarrow> int" where
  "wire_kind_value WPing = 1"
| "wire_kind_value WAudioFrame = 2"
| "wire_kind_value WHeartbeat = 3"
| "wire_kind_value WControl = 4"

definition wire_kind_of :: "int \<Rightarrow> wire_packet_kind result" where
  "wire_kind_of v =
     (if v = 1 then Inr WPing else if v = 2 then Inr WAudioFrame
      else if v = 3 then Inr WHeartbeat else if v = 4 then Inr WControl
      else Inl (ValueError ''unknown OpenRef packet kind''))"

record wire_header =
  wh_kind :: wire_packet_kind
  wh_source_id :: int
  wh_destination_id :: int
  wh_sequence :: int
  wh_tx_timestamp_us :: int
  wh_payload_length :: int

record packet =
  packet_id :: int
  source_id :: int
  pk_sequence :: int
  created_at_us :: int
  payload_bytes :: int
  kind :: packet_kind

section \<open>Operations\<close>

definition validate_header :: "wire_header \<Rightarrow> unit result" where
  "validate_header h =
     (if \<not> (1 \<le> wh_source_id h \<and> wh_source_id h \<le> 254)
      then Inl (ValueError ''source_id must identify a node from 1 through 254'')
      else if \<not> (0 \<le> wh_destination_id h \<and> wh_destination_id h \<le> 254)
      then Inl (ValueError ''destination_id must be broadcast (0) or a node ID'')
      else if \<not> (0 \<le> wh_sequence h \<and> wh_sequence h \<le> 0xFFFF)
      then Inl (ValueError ''sequence must fit in 16 bits'')
      else if \<not> (0 \<le> wh_tx_timestamp_us h \<and> wh_tx_timestamp_us h \<le> 0xFFFFFFFFFFFFFFFF)
      then Inl (ValueError ''tx_timestamp_us must fit in 64 bits'')
      else if \<not> (0 \<le> wh_payload_length h \<and> wh_payload_length h \<le> OPENREF_MAX_PAYLOAD_BYTES)
      then Inl (ValueError ''payload_length exceeds the Prototype 0 limit'')
      else Inr ())"

definition header_values :: "wire_header \<Rightarrow> int list" where
  "header_values h = [OPENREF_MAGIC, OPENREF_PACKET_VERSION, wire_kind_value (wh_kind h),
     wh_source_id h, wh_destination_id h, wh_sequence h, wh_tx_timestamp_us h, wh_payload_length h]"

definition encode :: "wire_header \<Rightarrow> byte list result" where
  "encode h = bind (validate_header h) (\<lambda>_. pack_fields (zip HEADER_FIELDS (header_values h)))"

definition decode :: "byte list \<Rightarrow> wire_header result" where
  "decode data =
     (if length data < OPENREF_HEADER_BYTES
      then Inl (ValueError ''packet is shorter than the OpenRef header'')
      else case unpack_fields HEADER_FIELDS data of
        [magic, version, knd, source, destination, sequence, timestamp, len] \<Rightarrow>
          (if magic \<noteq> OPENREF_MAGIC then Inl (ValueError ''invalid OpenRef packet magic'')
           else if version \<noteq> OPENREF_PACKET_VERSION
           then Inl (ValueError ''unsupported OpenRef packet version'')
           else bind (wire_kind_of knd) (\<lambda>packet_kind.
             let header = \<lparr>wh_kind = packet_kind, wh_source_id = source, wh_destination_id = destination,
                   wh_sequence = sequence, wh_tx_timestamp_us = timestamp, wh_payload_length = len\<rparr>
             in bind (validate_header header) (\<lambda>_.
               if int (length data) < int OPENREF_HEADER_BYTES + len
               then Inl (ValueError ''packet payload is truncated'')
               else Inr header)))
      | _ \<Rightarrow> Inl StructError)"

definition encode_wire_packet :: "wire_header \<Rightarrow> byte list \<Rightarrow> byte list result" where
  "encode_wire_packet h payload =
     (if int (length payload) \<noteq> wh_payload_length h
      then Inl (ValueError ''payload length does not match the header'')
      else bind (encode h) (\<lambda>bs. Inr (bs @ payload)))"

definition decode_wire_packet :: "byte list \<Rightarrow> (wire_header \<times> byte list) result" where
  "decode_wire_packet data =
     bind (decode data) (\<lambda>header.
       Inr (header, take (nat (wh_payload_length header)) (drop OPENREF_HEADER_BYTES data)))"

definition packet_airtime_us :: "int \<Rightarrow> int \<Rightarrow> int \<Rightarrow> int \<Rightarrow> int result" where
  "packet_airtime_us payload bitrate_bps overhead preamble_us =
     (if payload < 0 \<or> overhead < 0
      then Inl (ValueError ''Byte counts must be nonnegative'')
      else if bitrate_bps \<le> 0 then Inl (ValueError ''bitrate_bps must be positive'')
      else let bits = (payload + overhead) * 8;
               serialized_us = (bits * 1000000 + bitrate_bps - 1) div bitrate_bps
           in Inr (preamble_us + serialized_us))"

section \<open>The codec\<close>

definition valid_header :: "wire_header \<Rightarrow> bool" where
  "valid_header h \<longleftrightarrow>
     1 \<le> wh_source_id h \<and> wh_source_id h \<le> 254 \<and> 0 \<le> wh_destination_id h \<and> wh_destination_id h \<le> 254 \<and>
     0 \<le> wh_sequence h \<and> wh_sequence h < 2 ^ 16 \<and>
     0 \<le> wh_tx_timestamp_us h \<and> wh_tx_timestamp_us h < 2 ^ 64 \<and>
     0 \<le> wh_payload_length h \<and> wh_payload_length h \<le> 255"

lemma validate_header_iff: "validate_header h = Inr u \<longleftrightarrow> valid_header h"
  by (auto simp: validate_header_def valid_header_def packet_consts)

lemma wire_kind_of_value [simp]: "wire_kind_of (wire_kind_value k) = Inr k"
  by (cases k) (simp_all add: wire_kind_of_def)

lemma wire_kind_of_Inr: "wire_kind_of v = Inr k \<longleftrightarrow> v = wire_kind_value k"
  by (cases k) (auto simp: wire_kind_of_def split: if_splits)

lemma wire_kind_value_bounds: "1 \<le> wire_kind_value k \<and> wire_kind_value k \<le> 4"
  by (cases k) simp_all

lemma header_fields_fit:
  "valid_header h \<Longrightarrow> fields_fit (zip HEADER_FIELDS (header_values h))"
  using wire_kind_value_bounds[of "wh_kind h"]
  by (auto simp: fields_fit_def header_values_def packet_consts valid_header_def)

lemma zip_header_values [simp]:
  "map fst (zip HEADER_FIELDS (header_values h)) = HEADER_FIELDS"
  "map snd (zip HEADER_FIELDS (header_values h)) = header_values h"
  by (simp_all add: packet_consts header_values_def)

lemma encode_Inr_iff:
  "encode h = Inr bs \<longleftrightarrow> valid_header h \<and> bs = field_bytes (zip HEADER_FIELDS (header_values h))"
  by (auto simp: encode_def res_simps validate_header_iff pack_fields_fit header_fields_fit)

lemma sum_header_fields [simp]: "sum_list HEADER_FIELDS = OPENREF_HEADER_BYTES"
  by (simp add: packet_consts)

lemma encode_length: "encode h = Inr bs \<Longrightarrow> length bs = OPENREF_HEADER_BYTES"
  by (simp add: encode_Inr_iff)

lemma unpack_encoded:
  "encode h = Inr bs \<Longrightarrow> unpack_fields HEADER_FIELDS (bs @ rest) = header_values h"
  using unpack_field_bytes[OF header_fields_fit[of h], of rest] by (auto simp: encode_Inr_iff)

lemma decode_encoded:
  assumes "encode h = Inr bs" and "wh_payload_length h \<le> int (length rest)"
  shows "decode (bs @ rest) = Inr h"
proof -
  have v: "valid_header h" and l: "length bs = OPENREF_HEADER_BYTES"
    using assms(1) encode_length by (auto simp: encode_Inr_iff)
  have "validate_header h = Inr ()" using v by (simp add: validate_header_iff)
  with unpack_encoded[OF assms(1), of rest] l assms(2) show ?thesis
    by (cases h) (simp add: decode_def header_values_def Let_def)
qed

lemma decode_Inr_cases:
  assumes "decode data = Inr h"
  shows "valid_header h" and "unpack_fields HEADER_FIELDS data = header_values h"
    and "int OPENREF_HEADER_BYTES + wh_payload_length h \<le> int (length data)"
  using assms
  by (auto simp: decode_def header_values_def res_simps validate_header_iff wire_kind_of_Inr Let_def
      split: if_splits list.splits)

lemma encode_decoded:
  assumes "decode data = Inr h"
  shows "encode h = Inr (take OPENREF_HEADER_BYTES data)"
proof -
  note d = decode_Inr_cases[OF assms]
  have "OPENREF_HEADER_BYTES \<le> length data" using d(1,3) by (auto simp: valid_header_def)
  then have "field_bytes (zip HEADER_FIELDS (header_values h)) = take OPENREF_HEADER_BYTES data"
    using field_bytes_unpack[of HEADER_FIELDS data] by (simp add: d(2))
  with d(1) show ?thesis by (simp add: encode_Inr_iff)
qed

lemma decode_error_kind: "decode data = Inl e \<Longrightarrow> \<exists>msg. e = ValueError msg"
  by (auto simp: decode_def res_simps validate_header_def wire_kind_of_def packet_consts Let_def
      split: if_splits list.splits)

section \<open>Airtime\<close>

lemma ceil_div_int:
  assumes "0 < (r::int)"
  shows "b \<le> ((b + r - 1) div r) * r \<and> ((b + r - 1) div r) * r < b + r"
proof -
  have "(b + r - 1) div r * r + (b + r - 1) mod r = b + r - 1" by simp
  moreover have "0 \<le> (b + r - 1) mod r" "(b + r - 1) mod r < r" using assms by simp_all
  ultimately show ?thesis by linarith
qed

lemma airtime_Inr:
  "packet_airtime_us p r ov pre = Inr t \<Longrightarrow>
   0 \<le> p \<and> 0 \<le> ov \<and> 0 < r \<and> t = pre + ((p + ov) * 8 * 1000000 + r - 1) div r"
  by (auto simp: packet_airtime_us_def Let_def split: if_splits)

lemma airtime_ge_preamble: "packet_airtime_us p r ov pre = Inr t \<Longrightarrow> pre \<le> t"
  using airtime_Inr[of p r ov pre t] by (auto simp: pos_imp_zdiv_nonneg_iff)


text \<open>C14 (roundtrip). On whole packets the codec is exact: the bytes of an encoded packet are those that decode to
  it and carry nothing after its payload.  So decoding inverts encoding, no two packets share their bytes,
  and every byte string that decodes without trailing bytes is what encoding its content gives.\<close>

theorem wire_packet_roundtrip:
  "encode_wire_packet h p = Inr bs \<longleftrightarrow> decode_wire_packet bs = Inr (h, p) \<and> length bs = OPENREF_HEADER_BYTES + length p"
proof
  assume "encode_wire_packet h p = Inr bs"
  then obtain hb where hb: "encode h = Inr hb" "bs = hb @ p" "int (length p) = wh_payload_length h"
    by (auto simp: encode_wire_packet_def bind_eq_Inr split: if_splits)
  have "decode bs = Inr h" using decode_encoded[OF hb(1), of p] hb by simp
  moreover have "length hb = OPENREF_HEADER_BYTES" using encode_length[OF hb(1)] .
  ultimately show "decode_wire_packet bs = Inr (h, p) \<and> length bs = OPENREF_HEADER_BYTES + length p"
    using hb by (simp add: decode_wire_packet_def flip: hb(3))
next
  assume a: "decode_wire_packet bs = Inr (h, p) \<and> length bs = OPENREF_HEADER_BYTES + length p"
  then have d: "decode bs = Inr h" and p: "p = take (nat (wh_payload_length h)) (drop OPENREF_HEADER_BYTES bs)"
    by (auto simp: decode_wire_packet_def bind_eq_Inr)
  have l: "int OPENREF_HEADER_BYTES + wh_payload_length h \<le> int (length bs)" "0 \<le> wh_payload_length h"
    using decode_Inr_cases[OF d] by (auto simp: valid_header_def)
  then have "int (length p) = wh_payload_length h" using p by simp
  moreover have "bs = take OPENREF_HEADER_BYTES bs @ p" using p a l by simp
  ultimately show "encode_wire_packet h p = Inr bs"
    using encode_decoded[OF d] by (simp add: encode_wire_packet_def)
qed

end
