(* ===== verification/Py_Float.thy ===== *)
theory Py_Float
  imports Prelude "HOL-Library.Log_Nat"
begin

text \<open>
  Python's \<^verbatim>\<open>float\<close>: IEEE 754 binary64 with round-half-even, as the language's arithmetic,
  comparisons, \<^verbatim>\<open>round\<close>, \<^verbatim>\<open>math.floor\<close> and \<^verbatim>\<open>math.ceil\<close> use it.  A finite value is the rational it
  denotes; every operation computes the exact rational and rounds once (\<open>to_float\<close>), which is
  what IEEE 754 prescribes and what CPython does for \<^verbatim>\<open>int / int\<close> and \<^verbatim>\<open>float(int)\<close> too.  Infinities
  and NaN are constructors of their own.  The sign of zero is not kept: none of the modelled
  code can observe it.
\<close>

section \<open>Rounding a rational to binary64\<close>

datatype pyfloat = Fin rat | PInf | NInf | NaN

definition two_pow :: "int \<Rightarrow> rat" where
  "two_pow e = (if 0 \<le> e then 2 ^ nat e else 1 / 2 ^ nat (- e))"

definition round_half_even :: "rat \<Rightarrow> int" where
  "round_half_even x =
     (let f = \<lfloor>x\<rfloor>; d = x - of_int f
      in if d < 1 / 2 then f else if 1 / 2 < d then f + 1 else if even f then f else f + 1)"

text \<open>The exponent of the binade that holds \<open>x > 0\<close>, from the bit lengths of its fraction.\<close>

definition ilog2 :: "rat \<Rightarrow> int" where
  "ilog2 x =
     (let (n, d) = quotient_of x; e = int (floorlog 2 (nat n)) - int (floorlog 2 (nat d))
      in if x < two_pow e then e - 1 else e)"

definition quantum :: "rat \<Rightarrow> rat" where
  "quantum x = two_pow (max (ilog2 x) (- 1022) - 52)"

definition round64 :: "rat \<Rightarrow> rat" where
  "round64 x = (if x = 0 then 0
     else of_int (round_half_even (x / quantum \<bar>x\<bar>)) * quantum \<bar>x\<bar>)"

definition to_float :: "rat \<Rightarrow> pyfloat" where
  "to_float x =
     (let r = round64 x in if r \<ge> 2 ^ 1024 then PInf else if r \<le> - (2 ^ 1024) then NInf else Fin r)"

section \<open>Operations\<close>

fun fadd :: "pyfloat \<Rightarrow> pyfloat \<Rightarrow> pyfloat" where
  "fadd (Fin x) (Fin y) = to_float (x + y)"
| "fadd NaN _ = NaN"
| "fadd _ NaN = NaN"
| "fadd PInf NInf = NaN"
| "fadd NInf PInf = NaN"
| "fadd PInf _ = PInf"
| "fadd _ PInf = PInf"
| "fadd NInf _ = NInf"
| "fadd _ NInf = NInf"

fun fneg :: "pyfloat \<Rightarrow> pyfloat" where
  "fneg (Fin x) = Fin (- x)"
| "fneg PInf = NInf"
| "fneg NInf = PInf"
| "fneg NaN = NaN"

definition fsub :: "pyfloat \<Rightarrow> pyfloat \<Rightarrow> pyfloat" where
  "fsub a b = fadd a (fneg b)"

fun fsgn :: "pyfloat \<Rightarrow> int" where
  "fsgn (Fin x) = (if x < 0 then -1 else if 0 < x then 1 else 0)"
| "fsgn PInf = 1"
| "fsgn NInf = -1"
| "fsgn NaN = 0"

definition inf_of_sign :: "int \<Rightarrow> pyfloat" where
  "inf_of_sign s = (if 0 < s then PInf else if s < 0 then NInf else NaN)"

fun fmul :: "pyfloat \<Rightarrow> pyfloat \<Rightarrow> pyfloat" where
  "fmul (Fin x) (Fin y) = to_float (x * y)"
| "fmul NaN _ = NaN"
| "fmul _ NaN = NaN"
| "fmul a b = inf_of_sign (fsgn a * fsgn b)"

text \<open>\<^verbatim>\<open>a / b\<close> on floats: a zero divisor raises, whatever the dividend.\<close>

fun fdiv :: "pyfloat \<Rightarrow> pyfloat \<Rightarrow> pyfloat result" where
  "fdiv a (Fin y) =
     (if y = 0 then Inl ZeroDivisionError
      else Inr (case a of Fin x \<Rightarrow> to_float (x / y)
                | NaN \<Rightarrow> NaN | _ \<Rightarrow> inf_of_sign (fsgn a * fsgn (Fin y))))"
| "fdiv a NaN = Inr NaN"
| "fdiv (Fin x) b = Inr (Fin 0)"
| "fdiv a b = Inr NaN"

text \<open>\<^verbatim>\<open>float(n)\<close>, and the implicit conversion of the \<^verbatim>\<open>int\<close> operand of a mixed operation.\<close>

definition float_of_int :: "int \<Rightarrow> pyfloat result" where
  "float_of_int n = (case to_float (of_int n) of Fin r \<Rightarrow> Inr (Fin r) | _ \<Rightarrow> Inl OverflowError)"

text \<open>\<^verbatim>\<open>int / int\<close>: correctly rounded, and an infinite quotient raises.\<close>

definition int_truediv :: "int \<Rightarrow> int \<Rightarrow> pyfloat result" where
  "int_truediv a b =
     (if b = 0 then Inl ZeroDivisionError
      else case to_float (of_int a / of_int b) of Fin r \<Rightarrow> Inr (Fin r) | _ \<Rightarrow> Inl OverflowError)"

fun fle :: "pyfloat \<Rightarrow> pyfloat \<Rightarrow> bool" where
  "fle NaN _ = False"
| "fle _ NaN = False"
| "fle NInf _ = True"
| "fle _ PInf = True"
| "fle (Fin x) (Fin y) = (x \<le> y)"
| "fle _ _ = False"

fun flt :: "pyfloat \<Rightarrow> pyfloat \<Rightarrow> bool" where
  "flt NaN _ = False"
| "flt _ NaN = False"
| "flt (Fin x) (Fin y) = (x < y)"
| "flt NInf b = (b \<noteq> NInf)"
| "flt a PInf = (a \<noteq> PInf)"
| "flt _ _ = False"

text \<open>Comparison of a float with an \<^verbatim>\<open>int\<close> is exact in Python.\<close>

definition fint :: "int \<Rightarrow> pyfloat" where
  "fint n = Fin (of_int n)"

definition fmax :: "pyfloat \<Rightarrow> pyfloat \<Rightarrow> pyfloat" where
  "fmax a b = (if flt a b then b else a)"

fun to_integral :: "(rat \<Rightarrow> int) \<Rightarrow> pyfloat \<Rightarrow> int result" where
  "to_integral f (Fin x) = Inr (f x)"
| "to_integral f NaN = Inl (ValueError ''cannot convert float NaN to integer'')"
| "to_integral f _ = Inl OverflowError"

definition py_round :: "pyfloat \<Rightarrow> int result" where
  "py_round = to_integral round_half_even"

definition py_floor :: "pyfloat \<Rightarrow> int result" where
  "py_floor = to_integral floor"

definition py_ceil :: "pyfloat \<Rightarrow> int result" where
  "py_ceil = to_integral ceiling"

fun is_fin :: "pyfloat \<Rightarrow> bool" where
  "is_fin (Fin _) = True"
| "is_fin _ = False"

section \<open>Powers of two and binades\<close>

named_theorems float_simps \<open>facts about rounding\<close>

lemma two_pow_pos [simp, float_simps]: "0 < two_pow e"
  by (simp add: two_pow_def)

lemma two_pow_powi: "two_pow e = 2 powi e"
  by (simp add: two_pow_def power_int_def power_one_over)

lemma two_pow_add: "two_pow (a + b) = two_pow a * two_pow b"
  by (simp add: two_pow_powi power_int_add)

lemma two_pow_mono: "a \<le> b \<Longrightarrow> two_pow a \<le> two_pow b"
  by (simp add: two_pow_powi power_int_increasing)

lemma two_pow_nat: "two_pow (int n) = 2 ^ n"
  by (simp add: two_pow_def)

lemma floorlog_bounds_rat:
  assumes "0 < n"
  shows "two_pow (int (floorlog 2 (nat n)) - 1) \<le> of_int n \<and> of_int n < two_pow (int (floorlog 2 (nat n)))"
proof -
  let ?k = "floorlog 2 (nat n)"
  have b: "2 ^ (?k - 1) \<le> nat n" "nat n < 2 ^ ?k"
    using floorlog_bounds[of "nat n" 2] assms by auto
  have "?k \<noteq> 0" using assms by (simp add: floorlog_eq_zero_iff)
  then have k: "two_pow (int ?k - 1) = 2 ^ (?k - 1)"
    by (metis One_nat_def Suc_pred neq0_conv of_nat_1 of_nat_diff One_nat_def Suc_leI two_pow_nat)
  have "(of_nat (2 ^ (?k - 1)) :: rat) \<le> of_nat (nat n)" "(of_nat (nat n) :: rat) < of_nat (2 ^ ?k)"
    using b by (simp_all only: of_nat_le_iff of_nat_less_iff)
  moreover have "(of_nat (nat n) :: rat) = of_int n" using assms by simp
  ultimately show ?thesis by (simp add: k two_pow_nat)
qed

lemma ilog2_bounds:
  assumes "0 < x"
  shows "two_pow (ilog2 x) \<le> x \<and> x < two_pow (ilog2 x + 1)"
proof -
  obtain n d where q: "quotient_of x = (n, d)" by fastforce
  have d: "0 < d" using quotient_of_denom_pos[OF q] .
  have x: "x = of_int n / of_int d" using quotient_of_div[OF q] .
  have n: "0 < n" using assms d unfolding x by (simp add: zero_less_divide_iff)
  define a where "a = int (floorlog 2 (nat n))"
  define b where "b = int (floorlog 2 (nat d))"
  have nb: "two_pow (a - 1) \<le> of_int n" "of_int n < two_pow a"
    using floorlog_bounds_rat[OF n] by (simp_all add: a_def)
  have db: "two_pow (b - 1) \<le> of_int d" "of_int d < two_pow b"
    using floorlog_bounds_rat[OF d] by (simp_all add: b_def)
  have dq: "(0::rat) < of_int d" using d by simp
  have up: "x < two_pow (a - b + 1)"
  proof -
    have "of_int n < two_pow (a - b + 1) * two_pow (b - 1)"
      using nb(2) by (simp add: two_pow_add[symmetric])
    also have "\<dots> \<le> two_pow (a - b + 1) * of_int d"
      using db(1) by (simp add: mult_left_mono less_imp_le)
    finally show ?thesis using dq by (simp add: x pos_divide_less_eq)
  qed
  have lo: "two_pow (a - b - 1) \<le> x"
  proof -
    have "two_pow (a - b - 1) * of_int d \<le> two_pow (a - b - 1) * two_pow b"
      using db(2) by (simp add: mult_left_mono less_imp_le)
    also have "\<dots> \<le> of_int n" using nb(1) by (simp add: two_pow_add[symmetric])
    finally show ?thesis using dq by (simp add: x pos_le_divide_eq)
  qed
  show ?thesis using up lo
    by (auto simp: ilog2_def q a_def[symmetric] b_def[symmetric] Let_def)
qed

lemma ilog2_mono:
  assumes "0 < x" "x \<le> y"
  shows "ilog2 x \<le> ilog2 y"
proof (rule ccontr)
  assume "\<not> ilog2 x \<le> ilog2 y"
  then have "two_pow (ilog2 y + 1) \<le> two_pow (ilog2 x)" by (intro two_pow_mono) auto
  with ilog2_bounds[of x] ilog2_bounds[of y] assms show False by auto
qed

section \<open>Rounding is monotone and exact on the grid\<close>

lemma round_half_even_of_int [simp, float_simps]: "round_half_even (of_int n) = n"
  by (simp add: round_half_even_def)

lemma round_half_even_bounds: "\<lfloor>x\<rfloor> \<le> round_half_even x \<and> round_half_even x \<le> \<lceil>x\<rceil>"
  unfolding round_half_even_def Let_def
  by (auto simp: ceiling_altdef)

lemma round_half_even_mono:
  assumes "x \<le> y"
  shows "round_half_even x \<le> round_half_even y"
proof (cases "\<lfloor>x\<rfloor> = \<lfloor>y\<rfloor>")
  case True
  with assms show ?thesis by (auto simp: round_half_even_def Let_def)
next
  case False
  then have "\<lfloor>x\<rfloor> + 1 \<le> \<lfloor>y\<rfloor>" using floor_mono[OF assms] by simp
  moreover have "round_half_even x \<le> \<lfloor>x\<rfloor> + 1"
    by (auto simp: round_half_even_def Let_def)
  ultimately show ?thesis using round_half_even_bounds[of y] by linarith
qed

lemma round_half_even_neg: "round_half_even (- x) = - round_half_even x"
proof (cases "x = of_int \<lfloor>x\<rfloor>")
  case True
  then show ?thesis by (metis of_int_minus round_half_even_of_int)
next
  case False
  then have f: "\<lfloor>- x\<rfloor> = - \<lfloor>x\<rfloor> - 1"
    by (metis ceiling_altdef ceiling_def add.inverse_inverse minus_add_distrib uminus_add_conv_diff minus_diff_commute)
  show ?thesis unfolding round_half_even_def Let_def f by auto
qed

lemma round_half_even_close: "\<bar>of_int (round_half_even x) - x\<bar> \<le> 1 / 2"
  unfolding round_half_even_def Let_def by (auto simp: abs_if) linarith+

lemma quantum_pos [simp, float_simps]: "0 < quantum x"
  by (simp add: quantum_def)

lemma round64_zero [simp, float_simps]: "round64 0 = 0"
  by (simp add: round64_def)

lemma round64_neg: "round64 (- x) = - round64 x"
  by (simp add: round64_def minus_divide_left[symmetric] round_half_even_neg del: minus_divide_left)

lemma round_half_even_nonneg: "0 \<le> x \<Longrightarrow> 0 \<le> round_half_even x"
  using round_half_even_mono[of 0 x] round_half_even_of_int[of 0] by simp

lemma round64_nonneg: "0 \<le> x \<Longrightarrow> 0 \<le> round64 x"
  by (simp add: round64_def round_half_even_nonneg less_imp_le)

lemma two_pow_split: "q \<le> k \<Longrightarrow> m = nat (k - q) \<Longrightarrow> two_pow k = 2 ^ m * two_pow q"
  using two_pow_add[of "k - q" q] by (simp add: two_pow_def[of "k - q"])

text \<open>A value at or below a power of two rounds to at most that power: both are on the grid.\<close>

lemma round64_le_two_pow:
  assumes "0 < x" and "x \<le> two_pow k" and "max (ilog2 x) (- 1022) - 52 \<le> k"
  shows "round64 x \<le> two_pow k"
proof -
  define q where "q = max (ilog2 x) (- 1022) - 52"
  define m where "m = nat (k - q)"
  have k: "two_pow k = 2 ^ m * two_pow q"
    by (rule two_pow_split) (use assms(3) in \<open>simp_all add: q_def m_def\<close>)
  have "x / two_pow q \<le> of_int (2 ^ m)"
    using assms(2) by (simp add: k pos_divide_le_eq)
  then have "round_half_even (x / two_pow q) \<le> 2 ^ m"
    using round_half_even_mono round_half_even_of_int by metis
  then have "(of_int (round_half_even (x / two_pow q)) :: rat) \<le> of_int (2 ^ m)"
    by (simp only: of_int_le_iff)
  then have "of_int (round_half_even (x / two_pow q)) * two_pow q \<le> of_int (2 ^ m) * two_pow q"
    by (intro mult_right_mono) (simp_all add: less_imp_le)
  then show ?thesis using assms(1) by (simp add: round64_def quantum_def q_def[symmetric] k)
qed

lemma round64_ge_two_pow:
  assumes "0 < x" and "two_pow k \<le> x" and "max (ilog2 x) (- 1022) - 52 \<le> k"
  shows "two_pow k \<le> round64 x"
proof -
  define q where "q = max (ilog2 x) (- 1022) - 52"
  define m where "m = nat (k - q)"
  have k: "two_pow k = 2 ^ m * two_pow q"
    by (rule two_pow_split) (use assms(3) in \<open>simp_all add: q_def m_def\<close>)
  have "of_int (2 ^ m) \<le> x / two_pow q"
    using assms(2) by (simp add: k pos_le_divide_eq)
  then have "2 ^ m \<le> round_half_even (x / two_pow q)"
    using round_half_even_mono round_half_even_of_int by metis
  then have "(of_int (2 ^ m) :: rat) \<le> of_int (round_half_even (x / two_pow q))"
    by (simp only: of_int_le_iff)
  then have "of_int (2 ^ m) * two_pow q \<le> of_int (round_half_even (x / two_pow q)) * two_pow q"
    by (intro mult_right_mono) (simp_all add: less_imp_le)
  then show ?thesis using assms(1) by (simp add: round64_def quantum_def q_def[symmetric] k)
qed

lemma round64_mono_pos:
  assumes "0 < x" "x \<le> y"
  shows "round64 x \<le> round64 y"
proof (cases "max (ilog2 x) (- 1022) = max (ilog2 y) (- 1022)")
  case True
  then have q: "quantum x = quantum y" by (simp add: quantum_def)
  have "x / quantum y \<le> y / quantum y" using assms(2) by (simp add: divide_right_mono less_imp_le)
  then have "round_half_even (x / quantum y) \<le> round_half_even (y / quantum y)"
    by (rule round_half_even_mono)
  with assms q show ?thesis
    by (simp add: round64_def mult_right_mono less_imp_le)
next
  case False
  with ilog2_mono[OF assms] have lt: "max (ilog2 x) (- 1022) + 1 \<le> ilog2 y" by auto
  have "x \<le> two_pow (max (ilog2 x) (- 1022) + 1)"
    using ilog2_bounds[OF assms(1)] two_pow_mono[of "ilog2 x + 1" "max (ilog2 x) (- 1022) + 1"]
    by auto
  then have "round64 x \<le> two_pow (max (ilog2 x) (- 1022) + 1)"
    by (rule round64_le_two_pow[OF assms(1)]) simp
  also have "\<dots> \<le> two_pow (ilog2 y)" using lt by (rule two_pow_mono)
  also have "\<dots> \<le> round64 y"
    using assms lt ilog2_bounds[of y] by (intro round64_ge_two_pow) auto
  finally show ?thesis .
qed

lemma round64_mono:
  assumes "x \<le> y"
  shows "round64 x \<le> round64 y"
proof -
  consider "0 < x" | "x \<le> 0" "0 \<le> y" | "y < 0" using assms by linarith
  then show ?thesis
  proof cases
    case 1 then show ?thesis using assms by (rule round64_mono_pos)
  next
    case 2
    have "round64 x \<le> 0" using round64_nonneg[of "- x"] 2 by (simp add: round64_neg)
    also have "0 \<le> round64 y" using 2 by (simp add: round64_nonneg)
    finally show ?thesis .
  next
    case 3
    have "round64 (- y) \<le> round64 (- x)" using 3 assms by (intro round64_mono_pos) auto
    then show ?thesis by (simp add: round64_neg)
  qed
qed

text \<open>Integers of at most 53 bits are exact.\<close>

lemma round64_nat_exact:
  assumes "0 < n" "n \<le> 2 ^ 53"
  shows "round64 (of_int n) = of_int n"
proof -
  define q where "q = max (ilog2 (of_int n)) (- 1022) - 52"
  have n0: "(0::rat) < of_int n" using assms by simp
  have l53: "ilog2 (of_int n :: rat) \<le> 53"
  proof (rule ccontr)
    assume "\<not> ilog2 (of_int n :: rat) \<le> 53"
    then have "two_pow 54 \<le> two_pow (ilog2 (of_int n))" by (intro two_pow_mono) auto
    also have "\<dots> \<le> of_int n" using ilog2_bounds[OF n0] by simp
    also have "\<dots> \<le> of_int (2 ^ 53)" using assms(2) by (simp only: of_int_le_iff)
    finally show False by (simp add: two_pow_def)
  qed
  show ?thesis
  proof (cases "q \<le> 0")
    case True
    have "of_int n / two_pow q = (of_int (n * 2 ^ nat (- q)) :: rat)"
      using True by (auto simp: two_pow_def)
    then have "round_half_even (of_int n / two_pow q) = n * 2 ^ nat (- q)"
      by (simp only: round_half_even_of_int)
    moreover have "of_int (n * 2 ^ nat (- q)) * two_pow q = (of_int n :: rat)"
      using True by (auto simp: two_pow_def)
    ultimately show ?thesis using assms by (simp add: round64_def quantum_def q_def[symmetric])
  next
    case False
    then have "ilog2 (of_int n :: rat) = 53" using l53 by (auto simp: q_def)
    then have "two_pow 53 \<le> of_int n" using ilog2_bounds[OF n0] by simp
    then have "(of_int (2 ^ 53) :: rat) \<le> of_int n" by (simp add: two_pow_def)
    then have "2 ^ 53 \<le> n" by (simp only: of_int_le_iff)
    with assms have n: "n = 2 ^ 53" by simp
    have "q = 1" using \<open>ilog2 (of_int n :: rat) = 53\<close> by (simp add: q_def)
    then have "quantum (of_int n) = 2" by (simp add: quantum_def q_def[symmetric] two_pow_def)
    moreover have "of_int n / (2::rat) = of_int (2 ^ 52)" by (simp add: n)
    then have "round_half_even (of_int n / 2) = 2 ^ 52" by (simp only: round_half_even_of_int)
    ultimately show ?thesis using assms by (simp add: round64_def) (simp add: n)
  qed
qed

lemma round64_int_exact: "\<bar>n\<bar> \<le> 2 ^ 53 \<Longrightarrow> round64 (of_int n) = of_int n"
  using round64_nat_exact[of n] round64_nat_exact[of "- n"] round64_neg[of "of_int n"]
  by (cases n "0::int" rule: linorder_cases) (auto simp: minus_equation_iff)

lemma to_float_int_exact: "\<bar>n\<bar> \<le> 2 ^ 53 \<Longrightarrow> to_float (of_int n) = Fin (of_int n)"
proof -
  assume n: "\<bar>n\<bar> \<le> 2 ^ 53"
  then have "n < 2 ^ 1024" "- (2 ^ 1024) < n"
    using power_strict_increasing[of 53 1024 "2::int"] by auto
  then have "(of_int n :: rat) < of_int (2 ^ 1024)" "(of_int (- (2 ^ 1024)) :: rat) < of_int n"
    by (simp_all only: of_int_less_iff)
  then show ?thesis using round64_int_exact[OF n]
    by (simp add: to_float_def Let_def)
qed

lemma to_float_mono: "x \<le> y \<Longrightarrow> fle (to_float x) (to_float y)"
  using round64_mono[of x y] by (auto simp: to_float_def Let_def)

lemma to_float_unit:
  assumes "0 \<le> x" "x \<le> 1"
  shows "\<exists>r. to_float x = Fin r \<and> 0 \<le> r \<and> r \<le> 1"
proof -
  have "round64 x \<le> 1" using round64_mono[OF assms(2)] round64_int_exact[of 1] by simp
  moreover have "0 \<le> round64 x" using assms(1) by (rule round64_nonneg)
  moreover have "(1::rat) < 2 ^ 1024" by simp
  moreover have "- (2 ^ 1024) < (0::rat)" by simp
  ultimately show ?thesis by (auto simp: to_float_def Let_def)
qed

text \<open>The relative error of one rounding in the normal range is at most \<open>2 ^ - 53\<close>.\<close>

lemma round64_error:
  assumes "two_pow (- 1022) \<le> x"
  shows "\<bar>round64 x - x\<bar> \<le> x * two_pow (- 53)"
proof -
  have x: "0 < x" using assms two_pow_pos[of "- 1022"] by linarith
  have e: "- 1022 \<le> ilog2 x"
  proof (rule ccontr)
    assume "\<not> - 1022 \<le> ilog2 x"
    then have "two_pow (ilog2 x + 1) \<le> two_pow (- 1022)" by (intro two_pow_mono) auto
    with assms ilog2_bounds[OF x] show False by linarith
  qed
  define q where "q = quantum x"
  have q: "q = two_pow (ilog2 x) * two_pow (- 52)"
    using e by (simp add: q_def quantum_def two_pow_add[symmetric])
  have q0: "0 < q" by (simp add: q_def)
  have "round64 x - x = (of_int (round_half_even (x / q)) - x / q) * q"
    using x q0 by (simp add: round64_def q_def[symmetric] left_diff_distrib)
  then have "\<bar>round64 x - x\<bar> = \<bar>of_int (round_half_even (x / q)) - x / q\<bar> * q"
    using q0 by (simp add: abs_mult)
  also have "\<dots> \<le> 1 / 2 * q"
    using round_half_even_close[of "x / q"] q0 by (intro mult_right_mono) auto
  also have "\<dots> = two_pow (ilog2 x) * two_pow (- 53)"
    by (simp add: q two_pow_def)
  also have "\<dots> \<le> x * two_pow (- 53)"
    using ilog2_bounds[OF x] by (intro mult_right_mono) (auto simp: less_imp_le)
  finally show ?thesis .
qed

text \<open>Integers of at most 53 bits are floats; evaluating an operation whose exact result is one of
  them needs no rounding.\<close>

lemma to_float_eval [res_simps]:
  "to_float 0 = Fin 0" "to_float 1 = Fin 1"
  "(numeral k :: int) \<le> 9007199254740992 \<Longrightarrow> to_float (numeral k) = Fin (numeral k)"
  "(numeral k :: int) \<le> 9007199254740992 \<Longrightarrow> to_float (- numeral k) = Fin (- numeral k)"
  using to_float_int_exact[of 0] to_float_int_exact[of 1] to_float_int_exact[of "numeral k"]
    to_float_int_exact[of "- numeral k"] by simp_all

lemma float_of_int_eval [res_simps]:
  "float_of_int 0 = Inr (Fin 0)" "float_of_int 1 = Inr (Fin 1)"
  "(numeral k :: int) \<le> 9007199254740992 \<Longrightarrow> float_of_int (numeral k) = Inr (Fin (numeral k))"
  by (simp_all add: float_of_int_def to_float_eval)

lemma round_half_even_eval [res_simps]: "round_half_even 0 = 0" "round_half_even 1 = 1" "round_half_even (numeral k) = numeral k"
  by (simp_all add: round_half_even_def Let_def)


text \<open>A rounded value is a float: rounding it again changes nothing.\<close>

lemma round64_two_pow:
  assumes "- 1074 \<le> k"
  shows "round64 (two_pow k) = two_pow k"
proof (rule antisym)
  have "ilog2 (two_pow k) \<le> k"
  proof (rule ccontr)
    assume "\<not> ilog2 (two_pow k) \<le> k"
    then have "two_pow (k + 1) \<le> two_pow (ilog2 (two_pow k))" by (intro two_pow_mono) auto
    also have "\<dots> \<le> two_pow k" using ilog2_bounds[of "two_pow k"] by simp
    finally show False using two_pow_pos[of k] by (simp add: two_pow_add two_pow_def[of 1])
  qed
  then have "max (ilog2 (two_pow k)) (- 1022) - 52 \<le> k" using assms by simp
  then show "round64 (two_pow k) \<le> two_pow k" "two_pow k \<le> round64 (two_pow k)"
    by (simp_all add: round64_le_two_pow round64_ge_two_pow)
qed

lemma round64_grid:
  assumes "0 < y" "y = of_int k * two_pow q" "max (ilog2 y) (- 1022) - 52 \<le> q"
  shows "round64 y = y"
proof -
  define p where "p = max (ilog2 y) (- 1022) - 52"
  define m where "m = nat (q - p)"
  have q: "two_pow q = 2 ^ m * two_pow p"
    by (rule two_pow_split) (use assms(3) in \<open>simp_all add: p_def m_def\<close>)
  have "y / two_pow p = of_int (k * 2 ^ m)" using less_imp_neq[OF two_pow_pos[of p]] by (simp add: assms(2) q)
  then have "round_half_even (y / two_pow p) = k * 2 ^ m" by (simp only: round_half_even_of_int)
  then have "round64 y = of_int (k * 2 ^ m) * two_pow p"
    using assms(1) by (simp add: round64_def quantum_def p_def[symmetric])
  then show ?thesis by (simp add: assms(2) q)
qed

lemma round64_idem_pos:
  assumes "0 < x"
  shows "round64 (round64 x) = round64 x"
proof -
  define e where "e = max (ilog2 x) (- 1022)"
  define k where "k = round_half_even (x / two_pow (e - 52))"
  have y: "round64 x = of_int k * two_pow (e - 52)"
    using assms by (simp add: round64_def quantum_def e_def k_def)
  have "x \<le> two_pow (e + 1)" using ilog2_bounds[OF assms] two_pow_mono[of "ilog2 x + 1" "e + 1"]
    by (auto simp: e_def)
  then have le: "round64 x \<le> two_pow (e + 1)" by (rule round64_le_two_pow[OF assms]) (simp add: e_def)
  consider "round64 x = 0" | "round64 x = two_pow (e + 1)" | "0 < round64 x" "round64 x < two_pow (e + 1)"
    using le round64_nonneg[of x] assms by fastforce
  then show ?thesis
  proof cases
    case 2
    have "- 1074 \<le> e + 1" by (simp add: e_def)
    then show ?thesis by (simp add: 2 round64_two_pow)
  next
    case 3
    have "ilog2 (round64 x) \<le> e"
    proof (rule ccontr)
      assume "\<not> ilog2 (round64 x) \<le> e"
      then have "two_pow (e + 1) \<le> two_pow (ilog2 (round64 x))" by (intro two_pow_mono) auto
      then show False using ilog2_bounds[OF 3(1)] 3(2) by simp
    qed
    then show ?thesis by (intro round64_grid[OF 3(1) y]) (auto simp: e_def)
  qed simp
qed

lemma round64_idem: "round64 (round64 x) = round64 x"
  using round64_idem_pos[of x] round64_idem_pos[of "- x"] round64_neg[of x] round64_neg[of "round64 x"]
  by (cases x "0::rat" rule: linorder_cases) (simp_all add: round64_neg)

definition representable :: "rat \<Rightarrow> bool" where
  "representable r \<longleftrightarrow> to_float r = Fin r"

lemma to_float_representable: "to_float x = Fin r \<Longrightarrow> representable r"
  by (auto simp: representable_def to_float_def Let_def round64_idem split: if_splits)

text \<open>Scaling by a factor of at most one, and dividing by one, is monotone also after rounding.\<close>

lemma fmul_le_left:
  assumes "representable x" "0 \<le> x" "0 \<le> y" "y \<le> 1"
  shows "\<exists>r. fmul (Fin x) (Fin y) = Fin r \<and> 0 \<le> r \<and> r \<le> x"
proof -
  have "x * y \<le> x" using assms mult_left_mono[of y 1 x] by simp
  then have "fle (to_float (x * y)) (Fin x)" "fle (Fin 0) (to_float (x * y))"
    using to_float_mono[of "x * y" x] to_float_mono[of 0 "x * y"] assms
    by (simp_all add: representable_def to_float_eval)
  then show ?thesis using assms(2) by (cases "to_float (x * y)") auto
qed

end
