(* ===== verification/Medium.thy ===== *)
theory Medium
  imports Engine Wire_Packet Py_Float
begin

text \<open>
  \<^verbatim>\<open>simulator/src/openref_sim/medium.py\<close>: the shared single-channel medium.  A \<^verbatim>\<open>Transmission\<close>
  object is shared between the list \<^verbatim>\<open>active\<close> and the closure that finishes it, and its collision
  flag is set through either; so transmissions live in a store (\<open>transmissions\<close>, never shrunk) and
  \<open>active\<close> and the closures hold references, indices into it.  \<^verbatim>\<open>random.Random(seed)\<close> is the
  sequence of its draws: an argument \<open>rnd\<close>, with \<open>draws\<close> counting how many were taken.

  \<open>callback\<close> lists the closures the simulator schedules, with what each captured.
\<close>

section \<open>Closures and state\<close>

datatype completion =
    NoCompletion
  | VoiceCompletion nat packet
  | HeartbeatCompletion packet

datatype callback =
    Generate (cb_node: nat)
  | Slot (cb_node: nat)
  | SetEnabled (cb_node: nat) bool
  | Finish (cb_ref: nat) (cb_done: completion)
  | Heartbeat
  | CheckTimeout
  | Elect

record transmission =
  tx_packet :: packet
  start_us :: int
  end_us :: int
  collided :: bool

record medium_state = "callback simulation" +
  propagation_delay_us :: int
  base_loss :: pyfloat
  loss_windows :: "(int \<times> int \<times> pyfloat) list"
  active :: "nat list"
  transmissions :: "transmission list"
  draws :: nat

section \<open>Operations\<close>

definition add_loss_window :: "int \<Rightarrow> int \<Rightarrow> pyfloat \<Rightarrow> 'm medium_state_scheme \<Rightarrow> 'm medium_state_scheme" where
  "add_loss_window start duration probability s =
     s\<lparr>loss_windows := loss_windows s @ [(start, start + duration, probability)]\<rparr>"

definition loss_probability :: "'m medium_state_scheme \<Rightarrow> int \<Rightarrow> pyfloat" where
  "loss_probability s time_us =
     fold (\<lambda>(start, stop, candidate) probability.
        if start \<le> time_us \<and> time_us < stop then fmax probability candidate else probability)
       (loss_windows s) (base_loss s)"

definition mark_collision :: "nat \<Rightarrow> nat \<Rightarrow> transmission list \<Rightarrow> transmission list" where
  "mark_collision tx a txs = txs[a := (txs ! a)\<lparr>collided := True\<rparr>, tx := (txs ! tx)\<lparr>collided := True\<rparr>]"

definition collide :: "nat \<Rightarrow> nat \<Rightarrow> 'm medium_state_scheme \<Rightarrow> 'm medium_state_scheme" where
  "collide tx a s =
     (if start_us (transmissions s ! tx) < end_us (transmissions s ! a)
      then record_event ''collision_detected''
             (Some (source_id (tx_packet (transmissions s ! tx))))
             (Some (packet_id (tx_packet (transmissions s ! tx))))
             [(''with_packet_id'', DInt (packet_id (tx_packet (transmissions s ! a))))]
             (s\<lparr>transmissions := mark_collision tx a (transmissions s)\<rparr>)
      else s)"

definition transmit ::
  "packet \<Rightarrow> int \<Rightarrow> completion \<Rightarrow> 'm medium_state_scheme \<Rightarrow> 'm medium_state_scheme result" where
  "transmit packet airtime_us on_complete s =
     (let tx = length (transmissions s);
          s1 = s\<lparr>transmissions := transmissions s @ [\<lparr>tx_packet = packet, start_us = now_us s,
                   end_us = now_us s + airtime_us, collided = False\<rparr>]\<rparr>;
          s2 = fold (collide tx) (active s) s1;
          s3 = record_event ''tx_start'' (Some (source_id packet)) (Some (packet_id packet))
                 [(''airtime_us'', DInt airtime_us), (''kind'', DStr (packet_kind_value (kind packet)))]
                 (s2\<lparr>active := active s2 @ [tx]\<rparr>)
      in schedule airtime_us (Finish tx on_complete) ''transmission complete'' s3)"

text \<open>\<^verbatim>\<open>self.active.remove(tx)\<close> compares by value (\<^verbatim>\<open>Transmission\<close> is a dataclass) and drops the first
  equal element.\<close>

fun remove_tx :: "transmission list \<Rightarrow> nat \<Rightarrow> nat list \<Rightarrow> nat list option" where
  "remove_tx txs tx [] = None"
| "remove_tx txs tx (a # as) =
     (if txs ! a = txs ! tx then Some as else map_option (Cons a) (remove_tx txs tx as))"

definition outcome_event ::
  "string \<Rightarrow> packet \<Rightarrow> (string \<times> detail) list \<Rightarrow> 'm medium_state_scheme \<Rightarrow> 'm medium_state_scheme" where
  "outcome_event event packet details s =
     record_event event (Some (source_id packet)) (Some (packet_id packet))
       (details @ [(''kind'', DStr (packet_kind_value (kind packet)))]) s"

definition finish ::
  "(nat \<Rightarrow> pyfloat) \<Rightarrow> nat \<Rightarrow> 'm medium_state_scheme
   \<Rightarrow> ('m medium_state_scheme \<times> bool \<times> string option) result" where
  "finish rnd tx s =
     (case remove_tx (transmissions s) tx (active s) of
        None \<Rightarrow> Inl (ValueError ''list.remove(x): x not in list'')
      | Some rest \<Rightarrow>
          (let s1 = s\<lparr>active := rest\<rparr>; t = transmissions s ! tx; packet = tx_packet t
           in if collided t
              then Inr (outcome_event ''packet_collided'' packet [] s1, False, Some ''collision'')
              else let draw = rnd (draws s1); s2 = s1\<lparr>draws := draws s1 + 1\<rparr>
                in if flt draw (loss_probability s2 (start_us t))
                   then Inr (outcome_event ''packet_lost'' packet [] s2, False, Some ''random_loss'')
                   else let latency = now_us s2 + propagation_delay_us s2 - created_at_us packet
                     in Inr (outcome_event ''packet_delivered'' packet
                               [(''latency_us'', DInt latency)] s2, True, None)))"

section \<open>Invariant of the medium\<close>

definition tx_overlap :: "transmission list \<Rightarrow> nat \<Rightarrow> nat \<Rightarrow> bool" where
  "tx_overlap txs i j =
     (if i < j then start_us (txs ! j) < end_us (txs ! i) else start_us (txs ! i) < end_us (txs ! j))"

definition finish_refs :: "callback multiset \<Rightarrow> nat multiset" where
  "finish_refs M = image_mset cb_ref (filter_mset is_Finish M)"

text \<open>The callbacks still to run: those in the queue, and \<open>X\<close>, the one the engine has just taken
  out.\<close>

definition pending :: "'cb multiset \<Rightarrow> ('cb, 'm) simulation_scheme \<Rightarrow> 'cb multiset" where
  "pending X s = X + image_mset se_callback (mset (events s))"

definition med_inv :: "callback multiset \<Rightarrow> 'm medium_state_scheme \<Rightarrow> bool" where
  "med_inv X s \<longleftrightarrow>
     distinct (active s) \<and> (\<forall>r \<in> set (active s). r < length (transmissions s)) \<and>
     mset (active s) = finish_refs (pending X s) \<and>
     (\<forall>e \<in> set (events s). is_Finish (se_callback e) \<longrightarrow>
        se_time_us e = end_us (transmissions s ! cb_ref (se_callback e))) \<and>
     (\<forall>c \<in># X. is_Finish c \<longrightarrow> end_us (transmissions s ! cb_ref c) = now_us s) \<and>
     (\<forall>t \<in> set (transmissions s). start_us t \<le> now_us s \<and> start_us t \<le> end_us t) \<and>
     sorted (map start_us (transmissions s)) \<and>
     (\<forall>r < length (transmissions s). r \<notin> set (active s) \<longrightarrow> end_us (transmissions s ! r) \<le> now_us s) \<and>
     (\<forall>r < length (transmissions s). collided (transmissions s ! r) \<longleftrightarrow>
        (\<exists>r' < length (transmissions s). r' \<noteq> r \<and> tx_overlap (transmissions s) r r')) \<and>
     distinct (map (packet_id \<circ> tx_packet) (transmissions s))"

lemma pending_empty_X: "pending {#} s = image_mset se_callback (mset (events s))"
  by (simp add: pending_def)

lemma pending_after_pop:
  "heappop (events s) = Some (e, rest) \<Longrightarrow> pending {#se_callback e#} (after_pop e rest s) = pending {#} s"
  by (simp add: pending_def after_pop_def heappop_Some)

lemma pending_schedule_at:
  "schedule_at t cb d s = Inr s' \<Longrightarrow> pending X s' = add_mset cb (pending X s)"
  using schedule_at_Inr[of t cb d s s'] by (simp add: pending_def heappush_contents)

lemma pending_schedule:
  "schedule t cb d s = Inr s' \<Longrightarrow> pending X s' = add_mset cb (pending X s)"
  by (rule pending_schedule_at[OF schedule_Inr(2)])

lemma pending_cong: "events s' = events s \<Longrightarrow> pending X s' = pending X s"
  by (simp add: pending_def)

lemma finish_refs_simps [simp]:
  "finish_refs {#} = {#}"
  "finish_refs (add_mset c M) = (if is_Finish c then {#cb_ref c#} else {#}) + finish_refs M"
  "finish_refs (M + N) = finish_refs M + finish_refs N"
  by (simp_all add: finish_refs_def)

subsection \<open>Popping an event and scheduling another kind of callback\<close>

lemma med_inv_after_pop:
  assumes "med_inv {#} s" "sim_inv s" and pop: "heappop (events s) = Some (e, rest)"
  shows "med_inv {#se_callback e#} (after_pop e rest s)"
proof -
  have ev: "events s = e # rest" using pop by (simp add: heappop_Some)
  have le: "now_us s \<le> se_time_us e" using after_pop_inv[OF assms(2,3)] by simp
  have fields: "active (after_pop e rest s) = active s"
    "transmissions (after_pop e rest s) = transmissions s"
    "events (after_pop e rest s) = rest" "now_us (after_pop e rest s) = se_time_us e"
    by (simp_all add: after_pop_def)
  show ?thesis
    using assms(1) le unfolding med_inv_def fields pending_after_pop[OF pop] ev
    by (auto intro: order_trans) 
qed

text \<open>The invariant reads the clock, the queue, \<open>active\<close> and the store only.\<close>

lemma med_inv_cong:
  "now_us s' = now_us s \<Longrightarrow> events s' = events s \<Longrightarrow> active s' = active s \<Longrightarrow>
   transmissions s' = transmissions s \<Longrightarrow> med_inv X s' = med_inv X s"
  by (simp add: med_inv_def pending_def)

lemma med_inv_record: "med_inv X s \<Longrightarrow> med_inv X (record_event ev n p d s)"
  by (simp add: med_inv_def record_event_def pending_def)

lemma med_inv_schedule_at:
  assumes "med_inv X s" "schedule_at t cb d s = Inr s'" "\<not> is_Finish cb"
  shows "med_inv X s'"
  using assms(1) schedule_at_Inr[OF assms(2)] pending_schedule_at[OF assms(2), of X] assms(3)
  by (auto simp: med_inv_def set_heappush)

lemma med_inv_schedule:
  "med_inv X s \<Longrightarrow> schedule t cb d s = Inr s' \<Longrightarrow> \<not> is_Finish cb \<Longrightarrow> med_inv X s'"
  by (rule med_inv_schedule_at[OF _ schedule_Inr(2)])

lemma med_inv_drop_X: "med_inv {#c#} s \<Longrightarrow> \<not> is_Finish c \<Longrightarrow> med_inv {#} s"
  by (simp add: med_inv_def pending_def)

subsection \<open>Transmitting\<close>

lemma collide_step: "sim_step_ok s (collide tx a s)"
  unfolding collide_def
  by (auto intro: sim_step_ok_trans[OF sim_step_ok_eqI record_event_step])

lemma fold_collide_step: "sim_step_ok s (fold (collide tx) as s)"
  by (induction as arbitrary: s) (auto intro: sim_step_ok_trans collide_step)

definition collision_events :: "trace_event list \<Rightarrow> bool" where
  "collision_events evs \<longleftrightarrow> (\<forall>e \<in> set evs. te_event e = ''collision_detected'')"

definition marked :: "nat \<Rightarrow> nat list \<Rightarrow> transmission list \<Rightarrow> transmission list" where
  "marked tx as txs = map (\<lambda>r. (txs ! r)\<lparr>collided := collided (txs ! r) \<or>
     (if r = tx then \<exists>a \<in> set as. start_us (txs ! tx) < end_us (txs ! a)
      else r \<in> set as \<and> start_us (txs ! tx) < end_us (txs ! r))\<rparr>) [0..<length txs]"

lemma marked_Nil [simp]: "marked tx [] txs = txs"
  by (rule nth_equalityI) (auto simp: marked_def)

lemma length_marked [simp]: "length (marked tx as txs) = length txs"
  by (simp add: marked_def)

lemma marked_Cons:
  assumes "tx < length txs" "a < length txs" "tx \<noteq> a" "tx \<notin> set as"
  shows "marked tx (a # as) txs =
     marked tx as (if start_us (txs ! tx) < end_us (txs ! a) then mark_collision tx a txs else txs)"
  using assms
  by (intro nth_equalityI) (auto simp: marked_def mark_collision_def nth_list_update)

lemma fold_collide:
  assumes "tx < length (transmissions s)" "tx \<notin> set as" "\<forall>a \<in> set as. a < length (transmissions s)"
  shows "\<exists>evs. fold (collide tx) as s =
     s\<lparr>transmissions := marked tx as (transmissions s), trace := trace s @ evs\<rparr> \<and> collision_events evs"
  using assms
proof (induction as arbitrary: s)
  case (Cons a as)
  define s1 where "s1 = collide tx a s"
  have s1: "\<exists>ev. s1 = s\<lparr>transmissions := (if start_us (transmissions s ! tx) < end_us (transmissions s ! a)
      then mark_collision tx a (transmissions s) else transmissions s), trace := trace s @ ev\<rparr> \<and> collision_events ev"
  proof (cases "start_us (transmissions s ! tx) < end_us (transmissions s ! a)")
    case True
    then show ?thesis unfolding s1_def collide_def record_event_def
      by (intro exI) (auto simp: collision_events_def)
  next
    case False
    then show ?thesis unfolding s1_def collide_def
      by (intro exI[of _ "[]"]) (simp add: collision_events_def)
  qed
  then obtain ev where ev: "s1 = s\<lparr>transmissions := (if start_us (transmissions s ! tx) < end_us (transmissions s ! a)
      then mark_collision tx a (transmissions s) else transmissions s), trace := trace s @ ev\<rparr>" "collision_events ev"
    by blast
  have len: "length (transmissions s1) = length (transmissions s)"
    by (simp add: ev mark_collision_def)
  obtain evs where evs: "fold (collide tx) as s1 =
      s1\<lparr>transmissions := marked tx as (transmissions s1), trace := trace s1 @ evs\<rparr>" "collision_events evs"
    using Cons.IH[of s1] Cons.prems len by auto
  have "marked tx (a # as) (transmissions s) = marked tx as (transmissions s1)"
    using marked_Cons[of tx "transmissions s" a as] Cons.prems by (simp add: ev)
  with ev evs have "fold (collide tx) (a # as) s =
      s\<lparr>transmissions := marked tx (a # as) (transmissions s), trace := trace s @ (ev @ evs)\<rparr>"
    by (simp add: s1_def[symmetric])
  moreover have "collision_events (ev @ evs)" using ev evs by (auto simp: collision_events_def)
  ultimately show ?case by blast
qed (auto simp: collision_events_def intro!: exI[of _ "[]"])

definition new_tx :: "packet \<Rightarrow> int \<Rightarrow> 'm medium_state_scheme \<Rightarrow> transmission" where
  "new_tx p air s = \<lparr>tx_packet = p, start_us = now_us s, end_us = now_us s + air, collided = False\<rparr>"

definition tx_start_event :: "packet \<Rightarrow> int \<Rightarrow> int \<Rightarrow> trace_event" where
  "tx_start_event p air now = \<lparr>te_time_us = now, te_event = ''tx_start'', te_node_id = Some (source_id p),
     te_packet_id = Some (packet_id p),
     te_details = [(''airtime_us'', DInt air), (''kind'', DStr (packet_kind_value (kind p)))]\<rparr>"

text \<open>The whole effect of \<open>transmit\<close> in one state.\<close>

lemma transmit_Inr:
  assumes "transmit p air oc s = Inr s'" and act: "\<forall>r \<in> set (active s). r < length (transmissions s)"
  shows "\<exists>evs. s' = s\<lparr>transmissions := marked (length (transmissions s)) (active s) (transmissions s @ [new_tx p air s]),
      trace := trace s @ evs @ [tx_start_event p air (now_us s)],
      active := active s @ [length (transmissions s)],
      events := heappush \<lparr>se_time_us = now_us s + air, se_order = next_order s,
        se_callback = Finish (length (transmissions s)) oc, se_description = ''transmission complete''\<rparr> (events s),
      next_order := next_order s + 1\<rparr> \<and> collision_events evs \<and> 0 \<le> air"
proof -
  let ?n = "length (transmissions s)"
  define s1 where "s1 = s\<lparr>transmissions := transmissions s @ [new_tx p air s]\<rparr>"
  obtain evs where evs: "fold (collide ?n) (active s) s1 =
      s1\<lparr>transmissions := marked ?n (active s) (transmissions s1), trace := trace s1 @ evs\<rparr>" "collision_events evs"
    using fold_collide[of ?n s1 "active s"] act by (auto simp: s1_def less_Suc_eq)
  have "schedule air (Finish ?n oc) ''transmission complete''
      (record_event ''tx_start'' (Some (source_id p)) (Some (packet_id p))
         [(''airtime_us'', DInt air), (''kind'', DStr (packet_kind_value (kind p)))]
         ((fold (collide ?n) (active s) s1)\<lparr>active := active (fold (collide ?n) (active s) s1) @ [?n]\<rparr>)) = Inr s'"
    using assms(1) by (simp add: transmit_def Let_def s1_def new_tx_def)
  then show ?thesis using schedule_Inr schedule_at_Inr evs
    unfolding evs(1) record_event_def tx_start_event_def s1_def
    by (intro exI[of _ evs]) (fastforce simp: schedule_def schedule_at_def split: if_splits)
qed

lemma transmit_step:
  assumes "transmit p air oc s = Inr s'"
  shows "sim_step_ok s s'"
proof -
  let ?n = "length (transmissions s)"
  let ?s1 = "s\<lparr>transmissions := transmissions s @ [\<lparr>tx_packet = p, start_us = now_us s,
                   end_us = now_us s + air, collided = False\<rparr>]\<rparr>"
  let ?s2 = "fold (collide ?n) (active s) ?s1"
  have "sim_step_ok s ?s1" by (rule sim_step_ok_eqI) simp_all
  also note fold_collide_step[of ?s1 ?n "active s"]
  finally (sim_step_ok_trans) have "sim_step_ok s ?s2" .
  also have "sim_step_ok ?s2 (?s2\<lparr>active := active ?s2 @ [?n]\<rparr>)" by (rule sim_step_ok_eqI) simp_all
  finally (sim_step_ok_trans) show ?thesis
    using assms unfolding transmit_def Let_def
    by (blast intro: sim_step_ok_trans record_event_step schedule_step)
qed

lemma marked_append_nth:
  assumes "set as \<subseteq> {..<length txs}" "start_us t = now"
  shows "r < length txs \<Longrightarrow> marked (length txs) as (txs @ [t]) ! r =
      (txs ! r)\<lparr>collided := collided (txs ! r) \<or> (r \<in> set as \<and> now < end_us (txs ! r))\<rparr>"
    and "marked (length txs) as (txs @ [t]) ! length txs =
      t\<lparr>collided := collided t \<or> (\<exists>a \<in> set as. now < end_us (txs ! a))\<rparr>"
proof -
  show "r < length txs \<Longrightarrow> marked (length txs) as (txs @ [t]) ! r =
      (txs ! r)\<lparr>collided := collided (txs ! r) \<or> (r \<in> set as \<and> now < end_us (txs ! r))\<rparr>"
    using assms by (simp add: marked_def nth_append)
  have "(\<exists>a \<in> set as. now < end_us ((txs @ [t]) ! a)) \<longleftrightarrow> (\<exists>a \<in> set as. now < end_us (txs ! a))"
    using assms(1) by (auto simp: nth_append lessThan_def subset_iff)
  then show "marked (length txs) as (txs @ [t]) ! length txs =
      t\<lparr>collided := collided t \<or> (\<exists>a \<in> set as. now < end_us (txs ! a))\<rparr>"
    using assms(2) by (simp add: marked_def nth_append del: upt_Suc)
qed

lemma marked_append_proj:
  assumes "r < Suc (length txs)"
  shows "start_us (marked n as (txs @ [t]) ! r) = start_us ((txs @ [t]) ! r)"
    and "end_us (marked n as (txs @ [t]) ! r) = end_us ((txs @ [t]) ! r)"
    and "tx_packet (marked n as (txs @ [t]) ! r) = tx_packet ((txs @ [t]) ! r)"
  using assms by (simp_all add: marked_def del: upt_Suc)

lemma marked_map_proj:
  "map start_us (marked n as txs) = map start_us txs"
  "map end_us (marked n as txs) = map end_us txs"
  "map (packet_id \<circ> tx_packet) (marked n as txs) = map (packet_id \<circ> tx_packet) txs"
  "map tx_packet (marked n as txs) = map tx_packet txs"
  by (rule nth_equalityI; simp add: marked_def)+

text \<open>The collision flags stay exact: a new transmission overlaps an older one just when the older
  one is still active and ends after the present.\<close>

lemma transmit_collided:
  fixes txs :: "transmission list"
  assumes old: "\<forall>r < length txs. collided (txs ! r) \<longleftrightarrow> (\<exists>r' < length txs. r' \<noteq> r \<and> tx_overlap txs r r')"
    and act: "set as \<subseteq> {..<length txs}"
    and quiet: "\<forall>r < length txs. r \<notin> set as \<longrightarrow> end_us (txs ! r) \<le> now"
    and t: "start_us t = now" "\<not> collided t"
    and T: "T = marked (length txs) as (txs @ [t])" and r: "r < Suc (length txs)"
  shows "collided (T ! r) \<longleftrightarrow> (\<exists>r' < Suc (length txs). r' \<noteq> r \<and> tx_overlap T r r')"
proof -
  let ?n = "length txs"
  note nth = marked_append_nth[OF act t(1)]
  have ov_old: "tx_overlap T i j = tx_overlap txs i j" if "i < ?n" "j < ?n" for i j
    using that by (simp add: tx_overlap_def T nth)
  have ov_new: "tx_overlap T i ?n = (now < end_us (txs ! i))" "tx_overlap T ?n i = (now < end_us (txs ! i))"
    if "i < ?n" for i using that t by (auto simp: tx_overlap_def T nth)
  show ?thesis
  proof (cases "r = ?n")
    case True
    have "collided (T ! ?n) \<longleftrightarrow> (\<exists>a \<in> set as. now < end_us (txs ! a))"
      using t by (simp add: T nth)
    also have "\<dots> \<longleftrightarrow> (\<exists>a < ?n. now < end_us (txs ! a))"
      using act quiet by (auto simp: lessThan_def subset_iff not_le)
    also have "\<dots> \<longleftrightarrow> (\<exists>r' < Suc ?n. r' \<noteq> ?n \<and> tx_overlap T ?n r')"
      using ov_new(2) by (auto simp: less_Suc_eq)
    finally show ?thesis by (simp add: True)
  next
    case False
    with r have r: "r < ?n" by simp
    have "collided (T ! r) \<longleftrightarrow> collided (txs ! r) \<or> now < end_us (txs ! r)"
      using r quiet by (auto simp: T nth not_le)
    also have "\<dots> \<longleftrightarrow> (\<exists>r' < ?n. r' \<noteq> r \<and> tx_overlap T r r') \<or> tx_overlap T r ?n"
      using old r ov_old ov_new by auto
    also have "\<dots> \<longleftrightarrow> (\<exists>r' < Suc ?n. r' \<noteq> r \<and> tx_overlap T r r')"
      using r by (auto simp: less_Suc_eq)
    finally show ?thesis .
  qed
qed

lemma transmit_med_inv:
  assumes inv: "med_inv {#} s" and tr: "transmit p air oc s = Inr s'"
    and fresh: "packet_id p \<notin> (packet_id \<circ> tx_packet) ` set (transmissions s)"
  shows "med_inv {#} s'"
proof -
  let ?n = "length (transmissions s)"
  let ?T = "marked ?n (active s) (transmissions s @ [new_tx p air s])"
  have act: "set (active s) \<subseteq> {..<?n}" using inv by (auto simp: med_inv_def)
  obtain evs where air: "0 \<le> air" and s': "transmissions s' = ?T" "active s' = active s @ [?n]"
    "now_us s' = now_us s"
    "events s' = heappush \<lparr>se_time_us = now_us s + air, se_order = next_order s,
        se_callback = Finish ?n oc, se_description = ''transmission complete''\<rparr> (events s)"
    using transmit_Inr[OF tr] act by (auto simp: subset_iff)
  have end_old: "end_us (?T ! r) = end_us (transmissions s ! r)" if "r < ?n" for r
    using that marked_append_proj(2)[of r "transmissions s" ?n "active s" "new_tx p air s"]
    by (simp add: nth_append)
  have end_new: "end_us (?T ! ?n) = now_us s + air"
    using marked_append_proj(2)[of ?n "transmissions s" ?n "active s" "new_tx p air s"]
    by (simp add: new_tx_def)
  have refs: "cb_ref (se_callback e) < ?n" if "e \<in> set (events s)" "is_Finish (se_callback e)" for e
  proof -
    have "cb_ref (se_callback e) \<in># finish_refs (pending {#} s)"
      using that by (auto simp: finish_refs_def pending_def)
    then have "cb_ref (se_callback e) \<in># mset (active s)" using inv by (simp add: med_inv_def)
    then show ?thesis using act by auto
  qed
  have "set ?T \<subseteq> {t. start_us t \<le> now_us s \<and> start_us t \<le> end_us t}"
  proof
    fix t assume "t \<in> set ?T"
    then obtain r where r: "r < Suc ?n" "t = ?T ! r" by (auto simp: in_set_conv_nth)
    show "t \<in> {t. start_us t \<le> now_us s \<and> start_us t \<le> end_us t}"
      using r inv air marked_append_proj[OF r(1), of ?n "active s" "new_tx p air s"]
      by (cases "r = ?n") (auto simp: med_inv_def new_tx_def nth_append)
  qed
  moreover have "mset (active s') = finish_refs (pending {#} s')"
    using inv by (simp add: med_inv_def s' pending_def heappush_contents)
  moreover have "sorted (map start_us ?T)"
    using inv by (auto simp: marked_map_proj med_inv_def sorted_append new_tx_def)
  moreover have "distinct (map (packet_id \<circ> tx_packet) ?T)"
    using inv fresh by (auto simp: marked_map_proj med_inv_def new_tx_def)
  moreover have "\<forall>r < Suc ?n. collided (?T ! r) \<longleftrightarrow> (\<exists>r' < Suc ?n. r' \<noteq> r \<and> tx_overlap ?T r r')"
    using transmit_collided[where txs = "transmissions s" and as = "active s" and now = "now_us s"
        and t = "new_tx p air s", OF _ act] inv
    by (simp add: med_inv_def new_tx_def)
  moreover have "\<forall>e \<in> set (events s'). is_Finish (se_callback e) \<longrightarrow>
      se_time_us e = end_us (?T ! cb_ref (se_callback e))"
    using inv refs end_old end_new by (auto simp: med_inv_def s'(4) set_heappush)
  moreover have "\<forall>r < Suc ?n. r \<notin> set (active s @ [?n]) \<longrightarrow> end_us (?T ! r) \<le> now_us s"
    using inv end_old by (auto simp: med_inv_def less_Suc_eq)
  ultimately show ?thesis
    using inv act unfolding med_inv_def s'(1-3) by (auto simp: less_Suc_eq)
qed

subsection \<open>Finishing\<close>

text \<open>With distinct packet identifiers, removal by value is removal of the transmission itself.\<close>

lemma remove_tx_distinct:
  assumes "distinct (map (packet_id \<circ> tx_packet) txs)" "tx < length txs" "\<forall>a \<in> set as. a < length txs"
  shows "remove_tx txs tx as = (if tx \<in> set as then Some (remove1 tx as) else None)"
  using assms(3)
proof (induction as)
  case (Cons a as)
  have "txs ! a = txs ! tx \<longleftrightarrow> a = tx"
  proof
    assume "txs ! a = txs ! tx"
    then have "map (packet_id \<circ> tx_packet) txs ! a = map (packet_id \<circ> tx_packet) txs ! tx"
      using Cons.prems assms(2) by simp
    then show "a = tx" using assms(1,2) Cons.prems by (subst (asm) nth_eq_iff_index_eq) auto
  qed simp
  with Cons show ?case by auto
qed simp

definition outcome_name :: "bool \<Rightarrow> string option \<Rightarrow> string" where
  "outcome_name delivered reason =
     (if delivered then ''packet_delivered''
      else if reason = Some ''collision'' then ''packet_collided'' else ''packet_lost'')"

text \<open>Whatever the outcome, \<open>finish\<close> appends one outcome event and takes the transmission off the
  air; it delivers only what did not collide, and it draws a random number only then.\<close>

definition finish_post ::
  "nat \<Rightarrow> 'm medium_state_scheme \<Rightarrow> 'm medium_state_scheme \<Rightarrow> bool \<Rightarrow> string option \<Rightarrow> bool" where
  "finish_post tx s s' delivered reason \<longleftrightarrow>
     (let t = transmissions s ! tx; p = tx_packet t in
      \<exists>det. s' = s\<lparr>active := remove1 tx (active s),
          draws := (if collided t then draws s else draws s + 1),
          trace := trace s @ [\<lparr>te_time_us = now_us s, te_event = outcome_name delivered reason,
             te_node_id = Some (source_id p), te_packet_id = Some (packet_id p),
             te_details = det @ [(''kind'', DStr (packet_kind_value (kind p)))]\<rparr>]\<rparr> \<and>
        (delivered \<longrightarrow> det = [(''latency_us'', DInt (now_us s + propagation_delay_us s - created_at_us p))]) \<and>
        (\<not> delivered \<longrightarrow> det = []) \<and>
        (collided t \<longleftrightarrow> reason = Some ''collision'') \<and>
        (delivered \<longleftrightarrow> reason = None) \<and> (reason \<in> {None, Some ''collision'', Some ''random_loss''}))"

lemma med_inv_Finish:
  assumes "med_inv {#Finish tx oc#} s"
  shows "tx \<in> set (active s)" "tx < length (transmissions s)" "end_us (transmissions s ! tx) = now_us s"
    "distinct (map (packet_id \<circ> tx_packet) (transmissions s))" "\<forall>a \<in> set (active s). a < length (transmissions s)"
proof -
  have "mset (active s) = add_mset tx (finish_refs (pending {#} s))"
    using assms by (simp add: med_inv_def pending_def)
  then show "tx \<in> set (active s)" by (metis set_mset_mset union_single_eq_member)
  then show "tx < length (transmissions s)" using assms by (auto simp: med_inv_def)
qed (use assms in \<open>auto simp: med_inv_def\<close>)

lemma finish_Inr:
  assumes inv: "med_inv {#Finish tx oc#} s" and fin: "finish rnd tx s = Inr (s', delivered, reason)"
  shows "finish_post tx s s' delivered reason"
proof -
  have rem: "remove_tx (transmissions s) tx (active s) = Some (remove1 tx (active s))"
    using remove_tx_distinct med_inv_Finish[OF inv] by metis
  show ?thesis
    using fin unfolding finish_def rem finish_post_def outcome_event_def record_event_def Let_def
    by (auto simp: outcome_name_def split: if_splits)
qed

lemma finish_total:
  assumes inv: "med_inv {#Finish tx oc#} s"
  shows "\<exists>r. finish rnd tx s = Inr r"
proof -
  have "remove_tx (transmissions s) tx (active s) = Some (remove1 tx (active s))"
    using remove_tx_distinct med_inv_Finish[OF inv] by metis
  then show ?thesis by (auto simp: finish_def Let_def)
qed

lemma finish_step: "finish rnd tx s = Inr (s', delivered, reason) \<Longrightarrow> sim_step_ok s s'"
  unfolding finish_def outcome_event_def Let_def
  by (auto split: option.splits if_splits intro!: sim_step_ok_trans[OF sim_step_ok_eqI record_event_step])

lemma finish_med_inv:
  assumes inv: "med_inv {#Finish tx oc#} s" and fin: "finish rnd tx s = Inr (s', delivered, reason)"
  shows "med_inv {#} s'"
proof -
  note F = med_inv_Finish[OF inv]
  have s': "now_us s' = now_us s" "events s' = events s" "transmissions s' = transmissions s"
    "active s' = remove1 tx (active s)"
    using finish_Inr[OF inv fin] by (auto simp: finish_post_def Let_def)
  have "mset (active s) = add_mset tx (finish_refs (pending {#} s))"
    using inv by (simp add: med_inv_def pending_def)
  then have "mset (remove1 tx (active s)) = finish_refs (pending {#} s)" by simp
  moreover have "distinct (active s)" using inv by (simp add: med_inv_def)
  ultimately show ?thesis
    using inv F unfolding med_inv_def s' pending_cong[OF s'(2)]
    by (auto simp: set_remove1_eq)
qed

end
