(* ===== verification/Py_Value.thy ===== *)
theory Py_Value
  imports Py_Float
begin

text \<open>
  Python's dynamically typed values, as JSON and YAML documents deliver them, and the built-in
  operations the code applies to them: subscription, \<^verbatim>\<open>get\<close>, truth value, iteration, \<^verbatim>\<open>int\<close>,
  \<^verbatim>\<open>float\<close> and the string methods \<^verbatim>\<open>strip\<close>, \<^verbatim>\<open>lower\<close>, \<^verbatim>\<open>split\<close>, \<^verbatim>\<open>startswith\<close>, \<^verbatim>\<open>endswith\<close>.
  A string is a list of code points below 256.  The keys of a mapping are strings; \<^verbatim>\<open>str\<close> of a
  value that is not a string is an argument (\<open>show\<close>) wherever the code calls it.
\<close>

datatype pyval =
    PNone
  | PBool bool
  | PInt int
  | PFloat pyfloat
  | PStr string
  | PList "pyval list"
  | PDict "(string \<times> pyval) list"

section \<open>Strings\<close>

definition is_space :: "char \<Rightarrow> bool" where
  "is_space c = (let n = (of_char c :: nat)
     in 9 \<le> n \<and> n \<le> 13 \<or> 28 \<le> n \<and> n \<le> 32 \<or> n = 133 \<or> n = 160)"

definition is_digit :: "char \<Rightarrow> bool" where
  "is_digit c = (let n = (of_char c :: nat) in 48 \<le> n \<and> n \<le> 57)"

definition digit_val :: "char \<Rightarrow> nat" where
  "digit_val c = of_char c - 48"

definition lower_char :: "char \<Rightarrow> char" where
  "lower_char c = (let n = (of_char c :: nat)
     in if 65 \<le> n \<and> n \<le> 90 \<or> 192 \<le> n \<and> n \<le> 222 \<and> n \<noteq> 215 then char_of (n + 32) else c)"

definition lower :: "string \<Rightarrow> string" where
  "lower s = map lower_char s"

definition strip :: "string \<Rightarrow> string" where
  "strip s = rev (dropWhile is_space (rev (dropWhile is_space s)))"

definition starts_with :: "string \<Rightarrow> string \<Rightarrow> bool" where
  "starts_with s p = (take (length p) s = p)"

definition ends_with :: "string \<Rightarrow> string \<Rightarrow> bool" where
  "ends_with s p = (length p \<le> length s \<and> drop (length s - length p) s = p)"

text \<open>\<^verbatim>\<open>s.split(c)\<close> for a one-character separator.\<close>

fun split_on :: "char \<Rightarrow> string \<Rightarrow> string list" where
  "split_on c [] = [[]]"
| "split_on c (x # xs) =
     (if x = c then [] # split_on c xs
      else case split_on c xs of [] \<Rightarrow> [[x]] | y # ys \<Rightarrow> (x # y) # ys)"

text \<open>\<^verbatim>\<open>s.split()\<close>: maximal runs of characters that are not white space.\<close>

fun split_ws_acc :: "string \<Rightarrow> string \<Rightarrow> string list" where
  "split_ws_acc acc [] = (if acc = [] then [] else [rev acc])"
| "split_ws_acc acc (x # xs) =
     (if is_space x then (if acc = [] then split_ws_acc [] xs else rev acc # split_ws_acc [] xs)
      else split_ws_acc (x # acc) xs)"

definition split_ws :: "string \<Rightarrow> string list" where
  "split_ws s = split_ws_acc [] s"

text \<open>\<^verbatim>\<open>str(n)\<close> of an integer.\<close>

fun nat_digits :: "nat \<Rightarrow> string" where
  "nat_digits n = (if n < 10 then [char_of (n + 48)] else nat_digits (n div 10) @ [char_of (n mod 10 + 48)])"

declare nat_digits.simps [simp del]

definition show_int :: "int \<Rightarrow> string" where
  "show_int n = (if n < 0 then CHR ''-'' # nat_digits (nat (- n)) else nat_digits (nat n))"

section \<open>Numbers in strings\<close>

fun no_double_underscore :: "string \<Rightarrow> bool" where
  "no_double_underscore (a # b # s) =
     (\<not> (a = CHR ''_'' \<and> b = CHR ''_'') \<and> no_double_underscore (b # s))"
| "no_double_underscore _ = True"

definition valid_digits :: "string \<Rightarrow> bool" where
  "valid_digits s = (s \<noteq> [] \<and> list_all (\<lambda>c. is_digit c \<or> c = CHR ''_'') s \<and>
     hd s \<noteq> CHR ''_'' \<and> last s \<noteq> CHR ''_'' \<and> no_double_underscore s)"

definition digits_value :: "string \<Rightarrow> nat" where
  "digits_value s = foldl (\<lambda>a c. if c = CHR ''_'' then a else 10 * a + digit_val c) 0 s"

definition digits_count :: "string \<Rightarrow> nat" where
  "digits_count s = length (filter is_digit s)"

fun split_sign :: "string \<Rightarrow> int \<times> string" where
  "split_sign (c # s) = (if c = CHR ''-'' then (-1, s) else if c = CHR ''+'' then (1, s) else (1, c # s))"
| "split_sign [] = (1, [])"

definition invalid_int :: py_error where
  "invalid_int = ValueError ''invalid literal for int() with base 10''"

definition parse_int :: "string \<Rightarrow> int result" where
  "parse_int s =
     (let (sg, body) = split_sign (strip s)
      in if valid_digits body then Inr (sg * int (digits_value body)) else Inl invalid_int)"

definition ten_pow :: "int \<Rightarrow> rat" where
  "ten_pow e = (if 0 \<le> e then 10 ^ nat e else 1 / 10 ^ nat (- e))"

definition invalid_float :: py_error where
  "invalid_float = ValueError ''could not convert string to float''"

definition parse_mantissa :: "string \<Rightarrow> (nat \<times> nat) option" where
  "parse_mantissa m =
     (case split_on (CHR ''.'') m of
        [a] \<Rightarrow> if valid_digits a then Some (digits_value a, 0) else None
      | [a, b] \<Rightarrow>
          if (a = [] \<or> valid_digits a) \<and> (b = [] \<or> valid_digits b) \<and> (a \<noteq> [] \<or> b \<noteq> [])
          then Some (digits_value a * 10 ^ digits_count b + digits_value b, digits_count b)
          else None
      | _ \<Rightarrow> None)"

definition parse_float :: "string \<Rightarrow> pyfloat result" where
  "parse_float s =
     (let (sg, body) = split_sign (strip s); b = lower body
      in if b = ''inf'' \<or> b = ''infinity'' then Inr (if sg < 0 then NInf else PInf)
         else if b = ''nan'' then Inr NaN
         else case split_on (CHR ''e'') b of
             [m] \<Rightarrow> (case parse_mantissa m of None \<Rightarrow> Inl invalid_float
                     | Some (n, k) \<Rightarrow> Inr (to_float (of_int sg * of_nat n * ten_pow (- int k))))
           | [m, ex] \<Rightarrow>
               (let (esg, ed) = split_sign ex
                in case parse_mantissa m of None \<Rightarrow> Inl invalid_float
                   | Some (n, k) \<Rightarrow>
                       if valid_digits ed
                       then Inr (to_float (of_int sg * of_nat n * ten_pow (esg * int (digits_value ed) - int k)))
                       else Inl invalid_float)
           | _ \<Rightarrow> Inl invalid_float)"

section \<open>Operations on values\<close>

fun py_truth :: "pyval \<Rightarrow> bool" where
  "py_truth PNone = False"
| "py_truth (PBool b) = b"
| "py_truth (PInt n) = (n \<noteq> 0)"
| "py_truth (PFloat f) = (f \<noteq> Fin 0)"
| "py_truth (PStr s) = (s \<noteq> [])"
| "py_truth (PList xs) = (xs \<noteq> [])"
| "py_truth (PDict d) = (d \<noteq> [])"

fun getitem :: "pyval \<Rightarrow> string \<Rightarrow> pyval result" where
  "getitem (PDict d) k = of_option (KeyError k) (map_of d k)"
| "getitem _ _ = Inl TypeError"

fun get_default :: "pyval \<Rightarrow> string \<Rightarrow> pyval \<Rightarrow> pyval result" where
  "get_default (PDict d) k v = Inr (case map_of d k of None \<Rightarrow> v | Some x \<Rightarrow> x)"
| "get_default _ _ _ = Inl AttributeError"

fun contains_key :: "pyval \<Rightarrow> string \<Rightarrow> bool result" where
  "contains_key (PDict d) k = Inr (map_of d k \<noteq> None)"
| "contains_key (PList xs) k = Inr (PStr k \<in> set xs)"
| "contains_key (PStr s) k = Inr (\<exists>i \<in> set [0..<Suc (length s)]. starts_with (drop i s) k)"
| "contains_key _ _ = Inl TypeError"

fun py_iter :: "pyval \<Rightarrow> pyval list result" where
  "py_iter (PList xs) = Inr xs"
| "py_iter (PDict d) = Inr (map (\<lambda>(k, _). PStr k) d)"
| "py_iter (PStr s) = Inr (map (\<lambda>c. PStr [c]) s)"
| "py_iter _ = Inl TypeError"

definition trunc_rat :: "rat \<Rightarrow> int" where
  "trunc_rat x = (if 0 \<le> x then \<lfloor>x\<rfloor> else \<lceil>x\<rceil>)"

fun py_int :: "pyval \<Rightarrow> int result" where
  "py_int (PInt n) = Inr n"
| "py_int (PBool b) = Inr (if b then 1 else 0)"
| "py_int (PFloat f) = to_integral trunc_rat f"
| "py_int (PStr s) = parse_int s"
| "py_int _ = Inl TypeError"

fun py_float :: "pyval \<Rightarrow> pyfloat result" where
  "py_float (PInt n) = float_of_int n"
| "py_float (PBool b) = Inr (if b then Fin 1 else Fin 0)"
| "py_float (PFloat f) = Inr f"
| "py_float (PStr s) = parse_float s"
| "py_float _ = Inl TypeError"

definition py_str :: "(pyval \<Rightarrow> string) \<Rightarrow> pyval \<Rightarrow> string" where
  "py_str show v = (case v of PStr s \<Rightarrow> s | _ \<Rightarrow> show v)"

section \<open>Facts about strings and digits\<close>

lemma nat_digits_nonempty: "nat_digits n \<noteq> []"
  by (subst nat_digits.simps) simp

lemma is_digit_char_of: "(d::nat) < 10 \<Longrightarrow> is_digit (char_of (d + 48))"
  by (simp add: is_digit_def of_char_of Let_def)

lemma digit_val_char_of: "(d::nat) < 10 \<Longrightarrow> digit_val (char_of (d + 48)) = d"
  by (simp add: digit_val_def of_char_of)

lemma nat_digits_all_digits: "list_all is_digit (nat_digits n)"
proof (induction n rule: nat_digits.induct)
  case (1 n)
  show ?case
  proof (cases "n < 10")
    case True
    then show ?thesis by (subst nat_digits.simps) (simp add: is_digit_char_of)
  next
    case False
    with 1 have "list_all is_digit (nat_digits (n div 10))" by simp
    with False show ?thesis by (subst nat_digits.simps) (simp add: is_digit_char_of)
  qed
qed

lemma is_digit_not_underscore: "is_digit c \<Longrightarrow> c \<noteq> CHR ''_''"
  by (auto simp: is_digit_def Let_def)

lemma digits_value_append:
  "list_all is_digit t \<Longrightarrow> digits_value (s @ t) = digits_value s * 10 ^ length t + digits_value t"
proof (induction t rule: rev_induct)
  case (snoc c t)
  then have "c \<noteq> CHR ''_''" by (simp add: is_digit_not_underscore)
  with snoc show ?case
    by (simp add: digits_value_def append_assoc[symmetric] del: append_assoc)
qed (simp add: digits_value_def)

lemma digits_value_nat_digits: "digits_value (nat_digits n) = n"
proof (induction n rule: nat_digits.induct)
  case (1 n)
  show ?case
  proof (cases "n < 10")
    case True
    then show ?thesis
      using is_digit_char_of[of n]
      by (subst nat_digits.simps) (simp add: digits_value_def digit_val_char_of is_digit_not_underscore)
  next
    case False
    let ?c = "char_of (n mod 10 + 48) :: char"
    have d: "is_digit ?c" by (simp add: is_digit_char_of)
    then have "digits_value [?c] = n mod 10"
      by (simp add: digits_value_def digit_val_char_of is_digit_not_underscore)
    with False 1 d show ?thesis
      by (subst nat_digits.simps) (simp add: digits_value_append)
  qed
qed

lemma no_double_underscore_digits: "list_all is_digit s \<Longrightarrow> no_double_underscore s"
  by (induction s rule: no_double_underscore.induct) (auto simp: is_digit_not_underscore)

lemma valid_digits_nat_digits: "valid_digits (nat_digits n)"
proof -
  have a: "list_all is_digit (nat_digits n)" by (rule nat_digits_all_digits)
  moreover have "is_digit (hd (nat_digits n))" "is_digit (last (nat_digits n))"
    using a nat_digits_nonempty[of n] by (auto simp: list_all_iff)
  ultimately show ?thesis using nat_digits_nonempty[of n]
    by (auto simp: valid_digits_def no_double_underscore_digits is_digit_not_underscore list_all_iff)
qed

lemma is_digit_not_space: "is_digit c \<Longrightarrow> \<not> is_space c"
  by (auto simp: is_digit_def is_space_def Let_def)

lemma dropWhile_hd: "s \<noteq> [] \<Longrightarrow> \<not> P (hd s) \<Longrightarrow> dropWhile P s = s"
  by (cases s) auto

lemma strip_id:
  assumes "s \<noteq> []" "\<not> is_space (hd s)" "\<not> is_space (last s)"
  shows "strip s = s"
proof -
  have "dropWhile is_space s = s" using assms by (simp add: dropWhile_hd)
  moreover have "dropWhile is_space (rev s) = rev s"
    using assms by (simp add: dropWhile_hd hd_rev)
  ultimately show ?thesis by (simp add: strip_def)
qed

text \<open>\<^verbatim>\<open>int(str(n)) == n\<close>.\<close>

lemma parse_int_show_int: "parse_int (show_int n) = Inr n"
proof -
  define m where "m = nat \<bar>n\<bar>"
  have dig: "is_digit (hd (nat_digits m))" "is_digit (last (nat_digits m))"
    using nat_digits_all_digits[of m] nat_digits_nonempty[of m] by (auto simp: list_all_iff)
  have s: "show_int n = (if n < 0 then CHR ''-'' # nat_digits m else nat_digits m)"
    by (simp add: show_int_def m_def)
  have "\<not> is_space (hd (nat_digits m))" "\<not> is_space (last (nat_digits m))" "\<not> is_space (CHR ''-'')"
    using dig is_digit_not_space by (blast, blast, simp add: is_space_def)
  then have strip: "strip (show_int n) = show_int n"
    using nat_digits_nonempty[of m] by (intro strip_id) (auto simp: s)
  have "\<exists>c r. nat_digits m = c # r \<and> c \<noteq> CHR ''-'' \<and> c \<noteq> CHR ''+''"
    using dig(1) nat_digits_nonempty[of m] by (cases "nat_digits m") (auto simp: is_digit_def Let_def)
  then have "split_sign (show_int n) = (if n < 0 then -1 else 1, nat_digits m)"
    by (auto simp: s)
  then show ?thesis
    by (simp add: parse_int_def strip valid_digits_nat_digits digits_value_nat_digits m_def)
qed

end
