(* ===== verification/Node.thy ===== *)
theory Node
  imports Medium Py_Value
begin

text \<open>
  \<^verbatim>\<open>simulator/src/openref_sim/node.py\<close>: a voice node, its bounded frame queue and its slot.  Node
  objects live in the list \<open>vnodes\<close>; a node's own methods are given its index.  The packet
  identifier generator shared by all nodes and the coordinator is \<open>next_packet_id\<close>.
\<close>

section \<open>State\<close>

record node_config =
  nc_node_id :: int
  nc_slot_offset_us :: int
  nc_drift_ppm :: pyfloat

record voice_config =
  vc_frame_interval_us :: int
  vc_payload_bytes :: int
  vc_bitrate_bps :: int
  vc_overhead_bytes :: int
  vc_preamble_us :: int
  stop_generation_at_us :: int
  max_queue_frames :: int
  deadline_us :: int

definition vc_airtime_us :: "voice_config \<Rightarrow> int result" where
  "vc_airtime_us v =
     packet_airtime_us (vc_payload_bytes v) (vc_bitrate_bps v) (vc_overhead_bytes v) (vc_preamble_us v)"

record voice_node =
  vn_config :: node_config
  vn_voice :: voice_config
  vn_sequence :: int
  vn_queue :: "packet list"
  vn_enabled :: bool
  max_queue_depth :: int
  local_period_us :: int

record network_state = medium_state +
  vnodes :: "voice_node list"
  next_packet_id :: int

definition local_period :: "int \<Rightarrow> pyfloat \<Rightarrow> int result" where
  "local_period frame_interval_us drift_ppm =
     bind (fdiv drift_ppm (fint 1000000)) (\<lambda>d.
     bind (float_of_int frame_interval_us) (\<lambda>f.
     bind (fdiv f (fadd (fint 1) d)) (\<lambda>q.
     bind (py_round q) (\<lambda>r. Inr (max 1 r)))))"

definition new_voice_node :: "node_config \<Rightarrow> voice_config \<Rightarrow> voice_node result" where
  "new_voice_node config voice =
     bind (local_period (vc_frame_interval_us voice) (nc_drift_ppm config)) (\<lambda>period.
       Inr \<lparr>vn_config = config, vn_voice = voice, vn_sequence = 0, vn_queue = [], vn_enabled = True,
            max_queue_depth = 0, local_period_us = period\<rparr>)"

section \<open>Operations\<close>

definition set_node :: "nat \<Rightarrow> voice_node \<Rightarrow> 'm network_state_scheme \<Rightarrow> 'm network_state_scheme" where
  "set_node i n s = s\<lparr>vnodes := (vnodes s)[i := n]\<rparr>"

definition node_event ::
  "string \<Rightarrow> voice_node \<Rightarrow> int option \<Rightarrow> (string \<times> detail) list
   \<Rightarrow> 'm network_state_scheme \<Rightarrow> 'm network_state_scheme" where
  "node_event event n pid details s = record_event event (Some (nc_node_id (vn_config n))) pid details s"

definition node_label :: "voice_node \<Rightarrow> string \<Rightarrow> string" where
  "node_label n what = ''node '' @ show_int (nc_node_id (vn_config n)) @ what"

definition start_node :: "nat \<Rightarrow> 'm network_state_scheme \<Rightarrow> 'm network_state_scheme result" where
  "start_node i s =
     (let n = vnodes s ! i; offset = nc_slot_offset_us (vn_config n)
      in bind (schedule_at offset (Generate i) (node_label n '' first frame'') s)
              (schedule_at offset (Slot i) (node_label n '' first slot'')))"

definition set_enabled :: "nat \<Rightarrow> bool \<Rightarrow> 'm network_state_scheme \<Rightarrow> 'm network_state_scheme" where
  "set_enabled i en s =
     (let n = vnodes s ! i
      in node_event (if en then ''node_enabled'' else ''node_disabled'') n None []
           (set_node i (n\<lparr>vn_enabled := en\<rparr>) s))"

text \<open>The body of \<^verbatim>\<open>_generate\<close> for an enabled node: number the frame, make room by dropping the oldest
  one, append.\<close>

definition make_packet :: "voice_node \<Rightarrow> int \<Rightarrow> int \<Rightarrow> packet" where
  "make_packet n pid now = \<lparr>packet_id = pid, source_id = nc_node_id (vn_config n),
     pk_sequence = vn_sequence n, created_at_us = now,
     payload_bytes = vc_payload_bytes (vn_voice n), kind = VOICE\<rparr>"

definition drop_oldest ::
  "nat \<Rightarrow> 'm network_state_scheme \<Rightarrow> 'm network_state_scheme result" where
  "drop_oldest i s =
     (let n = vnodes s ! i
      in if int (length (vn_queue n)) \<ge> max_queue_frames (vn_voice n)
         then case vn_queue n of
             [] \<Rightarrow> Inl IndexError
           | dropped # rest \<Rightarrow>
               Inr (node_event ''queue_overflow'' n (Some (packet_id dropped)) []
                      (set_node i (n\<lparr>vn_queue := rest\<rparr>) s))
         else Inr s)"

definition append_frame :: "nat \<Rightarrow> packet \<Rightarrow> 'm network_state_scheme \<Rightarrow> 'm network_state_scheme" where
  "append_frame i p s =
     (let n = vnodes s ! i; q = vn_queue n @ [p]
      in node_event ''queue_depth'' n None [(''depth'', DInt (int (length q)))]
           (set_node i (n\<lparr>vn_queue := q, max_queue_depth := max (max_queue_depth n) (int (length q))\<rparr>) s))"

definition generate_frame :: "nat \<Rightarrow> 'm network_state_scheme \<Rightarrow> 'm network_state_scheme result" where
  "generate_frame i s =
     (let n = vnodes s ! i; p = make_packet n (next_packet_id s) (now_us s);
          s1 = set_node i (n\<lparr>vn_sequence := vn_sequence n + 1\<rparr>) (s\<lparr>next_packet_id := next_packet_id s + 1\<rparr>);
          s2 = node_event ''voice_frame_generated'' n (Some (packet_id p))
                 [(''sequence'', DInt (pk_sequence p))] s1
      in bind (drop_oldest i s2) (\<lambda>s3. Inr (append_frame i p s3)))"

definition reschedule :: "nat \<Rightarrow> callback \<Rightarrow> string \<Rightarrow> 'm network_state_scheme \<Rightarrow> 'm network_state_scheme result" where
  "reschedule i cb what s =
     (let n = vnodes s ! i; next_time = now_us s + local_period_us n
      in if next_time < stop_generation_at_us (vn_voice n)
         then schedule_at next_time cb (node_label n what) s
         else Inr s)"

definition generate :: "nat \<Rightarrow> 'm network_state_scheme \<Rightarrow> 'm network_state_scheme result" where
  "generate i s =
     bind (if vn_enabled (vnodes s ! i) then generate_frame i s else Inr s)
          (reschedule i (Generate i) '' next frame'')"

definition deadline_miss :: "voice_node \<Rightarrow> packet \<Rightarrow> int \<Rightarrow> string \<Rightarrow> 'm network_state_scheme \<Rightarrow> 'm network_state_scheme" where
  "deadline_miss n p age stage s =
     (if deadline_us (vn_voice n) < age
      then node_event ''audio_deadline_miss'' n (Some (packet_id p))
             [(''age_us'', DInt age), (''stage'', DStr stage)] s
      else s)"

definition send_head :: "nat \<Rightarrow> packet \<Rightarrow> packet list \<Rightarrow> 'm network_state_scheme \<Rightarrow> 'm network_state_scheme result" where
  "send_head i p rest s =
     (let n = vnodes s ! i; s1 = set_node i (n\<lparr>vn_queue := rest\<rparr>) s;
          s2 = deadline_miss n p (now_us s - created_at_us p) ''queue'' s1
      in bind (vc_airtime_us (vn_voice n)) (\<lambda>airtime. transmit p airtime (VoiceCompletion i p) s2))"

definition slot :: "nat \<Rightarrow> 'm network_state_scheme \<Rightarrow> 'm network_state_scheme result" where
  "slot i s =
     bind (case vn_queue (vnodes s ! i) of
             p # rest \<Rightarrow> if vn_enabled (vnodes s ! i) then send_head i p rest s else Inr s
           | [] \<Rightarrow> Inr s)
          (reschedule i (Slot i) '' next slot'')"

definition voice_complete :: "nat \<Rightarrow> packet \<Rightarrow> bool \<Rightarrow> 'm network_state_scheme \<Rightarrow> 'm network_state_scheme" where
  "voice_complete i p delivered s =
     (if delivered
      then deadline_miss (vnodes s ! i) p (now_us s + propagation_delay_us s - created_at_us p) ''delivery'' s
      else s)"

section \<open>Counting what the trace says\<close>

definition ev_count :: "string \<Rightarrow> trace_event list \<Rightarrow> nat" where
  "ev_count name tr = length (filter (\<lambda>e. te_event e = name) tr)"

definition is_voice_event :: "string \<Rightarrow> trace_event \<Rightarrow> bool" where
  "is_voice_event name e \<longleftrightarrow> te_event e = name \<and> map_of (te_details e) ''kind'' = Some (DStr ''voice'')"

definition voice_count :: "string \<Rightarrow> trace_event list \<Rightarrow> nat" where
  "voice_count name tr = length (filter (is_voice_event name) tr)"

lemma counts_append [simp]:
  "ev_count name (a @ b) = ev_count name a + ev_count name b"
  "voice_count name (a @ b) = voice_count name a + voice_count name b"
  by (simp_all add: ev_count_def voice_count_def)

lemma counts_single [simp]:
  "ev_count name [] = 0" "voice_count name [] = 0"
  "ev_count name [e] = (if te_event e = name then 1 else 0)"
  "voice_count name [e] = (if is_voice_event name e then 1 else 0)"
  by (simp_all add: ev_count_def voice_count_def)

lemma counts_collision_events:
  assumes "collision_events evs" "name \<noteq> ''collision_detected''"
  shows "ev_count name evs = 0" "voice_count name evs = 0"
  using assms by (auto simp: ev_count_def voice_count_def is_voice_event_def collision_events_def filter_empty_conv)

definition queued :: "'m network_state_scheme \<Rightarrow> nat" where
  "queued s = sum_list (map (length \<circ> vn_queue) (vnodes s))"

definition voice_in_flight :: "'m medium_state_scheme \<Rightarrow> nat" where
  "voice_in_flight s = length (filter (\<lambda>r. kind (tx_packet (transmissions s ! r)) = VOICE) (active s))"

text \<open>Frames accounted for: dropped on overflow, waiting, on the air, or finished in one of the three
  ways.\<close>

definition accounted :: "'m network_state_scheme \<Rightarrow> nat" where
  "accounted s = ev_count ''queue_overflow'' (trace s) + queued s + voice_in_flight s +
     voice_count ''packet_delivered'' (trace s) + voice_count ''packet_collided'' (trace s) +
     voice_count ''packet_lost'' (trace s)"

definition live_ids :: "'m network_state_scheme \<Rightarrow> int multiset" where
  "live_ids s = sum_list (map (\<lambda>n. image_mset packet_id (mset (vn_queue n))) (vnodes s)) +
     image_mset (packet_id \<circ> tx_packet) (mset (transmissions s))"

definition node_ok :: "int \<Rightarrow> voice_node \<Rightarrow> bool" where
  "node_ok now n \<longleftrightarrow>
     (\<forall>p \<in> set (vn_queue n). kind p = VOICE \<and> source_id p = nc_node_id (vn_config n) \<and> created_at_us p \<le> now) \<and>
     sorted (map created_at_us (vn_queue n)) \<and>
     map pk_sequence (vn_queue n) = [vn_sequence n - int (length (vn_queue n))..vn_sequence n - 1] \<and>
     length (vn_queue n) \<le> nat (max_queue_frames (vn_voice n)) \<and>
     int (length (vn_queue n)) \<le> max_queue_depth n \<and>
     max_queue_depth n \<le> int (nat (max_queue_frames (vn_voice n))) \<and>
     1 \<le> local_period_us n"

definition net_inv :: "'m network_state_scheme \<Rightarrow> bool" where
  "net_inv s \<longleftrightarrow>
     (\<forall>n \<in> set (vnodes s). node_ok (now_us s) n) \<and>
     (\<forall>x. count (live_ids s) x \<le> 1) \<and> (\<forall>x \<in># live_ids s. x < next_packet_id s) \<and>
     ev_count ''voice_frame_generated'' (trace s) = accounted s"

section \<open>Frames and small steps\<close>

named_theorems node_frame \<open>what the node operations leave alone\<close>

lemma set_node_frame [simp, node_frame]:
  "now_us (set_node i n s) = now_us s" "events (set_node i n s) = events s"
  "next_order (set_node i n s) = next_order s" "trace (set_node i n s) = trace s"
  "active (set_node i n s) = active s" "transmissions (set_node i n s) = transmissions s"
  "next_packet_id (set_node i n s) = next_packet_id s" "vnodes (set_node i n s) = (vnodes s)[i := n]"
  by (simp_all add: set_node_def)

lemma node_event_frame [simp, node_frame]:
  "now_us (node_event ev n pid d s) = now_us s" "events (node_event ev n pid d s) = events s"
  "next_order (node_event ev n pid d s) = next_order s"
  "active (node_event ev n pid d s) = active s" "transmissions (node_event ev n pid d s) = transmissions s"
  "next_packet_id (node_event ev n pid d s) = next_packet_id s" "vnodes (node_event ev n pid d s) = vnodes s"
  by (simp_all add: node_event_def record_event_def)

lemma node_event_step: "sim_step_ok s (node_event ev n pid d s)"
  unfolding node_event_def by (rule record_event_step)

lemma set_node_step: "sim_step_ok s (set_node i n s)"
  by (rule sim_step_ok_eqI) simp_all

lemma med_inv_node_frame:
  "med_inv X (node_event ev n pid d s) = med_inv X s" "med_inv X (set_node i n s) = med_inv X s"
  "med_inv X (s\<lparr>next_packet_id := k\<rparr>) = med_inv X s"
  by (rule med_inv_cong; simp)+

text \<open>Events that count neither as a generated frame nor as an outcome leave the accounting alone.\<close>

definition neutral_event :: "string \<Rightarrow> bool" where
  "neutral_event ev \<longleftrightarrow> ev \<notin> {''voice_frame_generated'', ''queue_overflow'', ''packet_delivered'',
     ''packet_collided'', ''packet_lost''}"

lemma net_inv_record:
  assumes "net_inv s" "neutral_event ev"
  shows "net_inv (record_event ev nid pid d s)"
  using assms
  by (simp add: net_inv_def record_event_def accounted_def queued_def voice_in_flight_def live_ids_def
      is_voice_event_def neutral_event_def)

lemma net_inv_node_event: "net_inv s \<Longrightarrow> neutral_event ev \<Longrightarrow> net_inv (node_event ev n pid d s)"
  unfolding node_event_def by (rule net_inv_record)

lemma net_inv_cong:
  assumes "now_us s' = now_us s" "trace s' = trace s" "active s' = active s"
    "transmissions s' = transmissions s" "vnodes s' = vnodes s" "next_packet_id s' = next_packet_id s"
  shows "net_inv s' = net_inv s"
  using assms by (simp add: net_inv_def accounted_def queued_def voice_in_flight_def live_ids_def)

lemma net_inv_schedule_at: "net_inv s \<Longrightarrow> schedule_at t cb d s = Inr s' \<Longrightarrow> net_inv s'"
  using schedule_at_Inr[of t cb d s s'] net_inv_cong[of s' s] by simp

lemma net_inv_schedule: "net_inv s \<Longrightarrow> schedule t cb d s = Inr s' \<Longrightarrow> net_inv s'"
  by (rule net_inv_schedule_at[OF _ schedule_Inr(2)])

lemma node_ok_later: "node_ok now n \<Longrightarrow> now \<le> now' \<Longrightarrow> node_ok now' n"
  unfolding node_ok_def by fastforce

lemma net_inv_after_pop:
  assumes "net_inv s" "sim_inv s" "heappop (events s) = Some (e, rest)"
  shows "net_inv (after_pop e rest s)"
proof -
  have "now_us s \<le> se_time_us e" using after_pop_inv[OF assms(2,3)] by simp
  then show ?thesis using assms(1) node_ok_later
    by (auto simp: net_inv_def after_pop_def accounted_def queued_def voice_in_flight_def live_ids_def)
qed

section \<open>Replacing a node\<close>

lemma queued_set_node:
  assumes "i < length (vnodes s)"
  shows "queued (set_node i n s) + length (vn_queue (vnodes s ! i)) = queued s + length (vn_queue n)"
  using sum_list_update_add[OF assms, of "length \<circ> vn_queue" n] by (simp add: queued_def)

definition node_ids :: "voice_node \<Rightarrow> int multiset" where
  "node_ids n = image_mset packet_id (mset (vn_queue n))"

lemma live_ids_alt: "live_ids s = sum_list (map node_ids (vnodes s)) +
    image_mset (packet_id \<circ> tx_packet) (mset (transmissions s))"
  by (simp add: live_ids_def node_ids_def[abs_def])

lemma live_ids_update:
  assumes "i < length (vnodes s)" "vnodes s' = (vnodes s)[i := n]"
  shows "live_ids s' + node_ids (vnodes s ! i) + image_mset (packet_id \<circ> tx_packet) (mset (transmissions s)) =
     live_ids s + node_ids n + image_mset (packet_id \<circ> tx_packet) (mset (transmissions s'))"
proof -
  have "sum_list (map node_ids (vnodes s')) + node_ids (vnodes s ! i) = sum_list (map node_ids (vnodes s)) + node_ids n"
    using sum_list_update_add[OF assms(1), of node_ids n] assms(2) by simp
  then show ?thesis by (simp add: live_ids_alt ac_simps)
qed

lemma nodes_ok_update:
  "\<forall>n \<in> set ns. P n \<Longrightarrow> P m \<Longrightarrow> \<forall>n \<in> set (ns[i := m]). P n"
  using set_update_subset_insert[of ns i m] by blast

lemma set_enabled_net_inv:
  assumes "net_inv s" "i < length (vnodes s)"
  shows "net_inv (set_enabled i en s)"
proof -
  let ?n = "(vnodes s ! i)\<lparr>vn_enabled := en\<rparr>"
  have "node_ok (now_us s) (vnodes s ! i)" using assms by (simp add: net_inv_def)
  then have ok: "node_ok (now_us s) ?n" by (simp add: node_ok_def)
  have q: "queued (set_node i ?n s) = queued s"
    using queued_set_node[OF assms(2), of ?n] by simp
  have l: "live_ids (set_node i ?n s) = live_ids s"
    using live_ids_update[OF assms(2), of "set_node i ?n s" ?n] by (simp add: node_ids_def)
  have "net_inv (set_node i ?n s)"
    using assms(1) nodes_ok_update[where P = "node_ok (now_us s)", OF _ ok, of "vnodes s" i] q l
    by (simp add: net_inv_def accounted_def voice_in_flight_def)
  then show ?thesis
    by (auto simp: set_enabled_def Let_def neutral_event_def intro!: net_inv_node_event)
qed

lemma set_enabled_step: "sim_step_ok s (set_enabled i en s)"
  unfolding set_enabled_def Let_def by (blast intro: sim_step_ok_trans set_node_step node_event_step)

section \<open>Generating a frame\<close>

definition room :: "int \<Rightarrow> packet list \<Rightarrow> packet list" where
  "room m q = (if m \<le> int (length q) then tl q else q)"

definition node_rec :: "string \<Rightarrow> voice_node \<Rightarrow> int option \<Rightarrow> (string \<times> detail) list \<Rightarrow> int \<Rightarrow> trace_event" where
  "node_rec ev n pid d now = \<lparr>te_time_us = now, te_event = ev,
     te_node_id = Some (nc_node_id (vn_config n)), te_packet_id = pid, te_details = d\<rparr>"

definition filled :: "voice_node \<Rightarrow> packet \<Rightarrow> voice_node" where
  "filled n p = (let q = room (max_queue_frames (vn_voice n)) (vn_queue n) @ [p]
     in n\<lparr>vn_sequence := vn_sequence n + 1, vn_queue := q,
          max_queue_depth := max (max_queue_depth n) (int (length q))\<rparr>)"

definition overflow_events :: "voice_node \<Rightarrow> int \<Rightarrow> trace_event list" where
  "overflow_events n now =
     (if max_queue_frames (vn_voice n) \<le> int (length (vn_queue n))
      then [node_rec ''queue_overflow'' n (Some (packet_id (hd (vn_queue n)))) [] now] else [])"

lemma generate_frame_Inr:
  assumes "generate_frame i s = Inr s'" and i: "i < length (vnodes s)"
  defines "n \<equiv> vnodes s ! i"
  defines "p \<equiv> make_packet n (next_packet_id s) (now_us s)"
  shows "(max_queue_frames (vn_voice n) \<le> int (length (vn_queue n)) \<longrightarrow> vn_queue n \<noteq> []) \<and>
    s' = s\<lparr>next_packet_id := next_packet_id s + 1, vnodes := (vnodes s)[i := filled n p],
      trace := trace s @ node_rec ''voice_frame_generated'' n (Some (packet_id p)) [(''sequence'', DInt (pk_sequence p))] (now_us s)
        # overflow_events n (now_us s) @
        [node_rec ''queue_depth'' n None [(''depth'', DInt (int (length (vn_queue (filled n p)))))] (now_us s)]\<rparr>"
  using assms(1) i
  unfolding generate_frame_def drop_oldest_def append_frame_def set_node_def node_event_def record_event_def Let_def
  by (auto simp: bind_eq_Inr n_def[symmetric] p_def[symmetric] room_def filled_def node_rec_def overflow_events_def
      Let_def split: if_splits list.splits)

lemma make_packet_simps [simp]:
  "packet_id (make_packet n k now) = k" "kind (make_packet n k now) = VOICE"
  "source_id (make_packet n k now) = nc_node_id (vn_config n)"
  "pk_sequence (make_packet n k now) = vn_sequence n" "created_at_us (make_packet n k now) = now"
  by (simp_all add: make_packet_def)

lemma tl_upto: "tl [a..b] = [a + 1..b]"
  by (cases "a \<le> b") (simp_all add: upto_rec1)

lemma room_cases:
  assumes "m \<le> int (length q) \<Longrightarrow> q \<noteq> []"
  obtains "room m q = q" "int (length q) < m" | d where "q = d # room m q" "m \<le> int (length q)"
proof (cases "m \<le> int (length q)")
  case True
  with assms have "q = hd q # room m q" by (simp add: room_def)
  with True that(2) show ?thesis by blast
next
  case False
  with that(1) show ?thesis by (simp add: room_def)
qed

lemma node_ok_filled:
  assumes ok: "node_ok now n" and p: "p = make_packet n k now"
    and ne: "max_queue_frames (vn_voice n) \<le> int (length (vn_queue n)) \<longrightarrow> vn_queue n \<noteq> []"
  shows "node_ok now (filled n p)"
proof -
  let ?q = "vn_queue n" and ?m = "max_queue_frames (vn_voice n)"
  let ?r = "room ?m ?q"
  consider "?r = ?q" "int (length ?q) < ?m" | d where "?q = d # ?r" "?m \<le> int (length ?q)"
    using room_cases[of ?m ?q] ne by blast
  then have "int (length ?r) + 1 \<le> ?m \<and> set ?r \<subseteq> set ?q \<and> sorted (map created_at_us ?r) \<and>
      map pk_sequence ?r = [vn_sequence n - int (length ?r)..vn_sequence n - 1]"
  proof cases
    case 1
    then show ?thesis using ok by (auto simp: node_ok_def)
  next
    case (2 d)
    have len: "length ?q = Suc (length ?r)" using 2(1) by (metis length_Cons)
    have "length ?q \<le> nat ?m" using ok by (simp add: node_ok_def)
    then have "int (length ?r) + 1 \<le> ?m" using len by linarith
    moreover have "set ?r \<subseteq> set ?q" by (metis 2(1) set_subset_Cons)
    moreover have "sorted (map created_at_us ?r)"
      using ok 2(1) unfolding node_ok_def by (metis list.simps(9) sorted_simps(2))
    moreover have "tl (map pk_sequence ?q) = tl [vn_sequence n - int (length ?q)..vn_sequence n - 1]"
      using ok by (simp add: node_ok_def)
    then have "map pk_sequence ?r = [vn_sequence n - int (length ?r)..vn_sequence n - 1]"
      using 2(1) len by (metis add.commute diff_diff_eq2 list.sel(3) list.simps(9) of_nat_Suc tl_upto diff_add_cancel add_diff_cancel_left diff_diff_add)
    ultimately show ?thesis by blast
  qed
  then have len: "int (length ?r) + 1 \<le> ?m" and sub: "set ?r \<subseteq> set ?q"
    and srt: "sorted (map created_at_us ?r)"
    and seq: "map pk_sequence ?r = [vn_sequence n - int (length ?r)..vn_sequence n - 1]" by auto
  have "map pk_sequence (?r @ [p]) = [vn_sequence n + 1 - int (length (?r @ [p]))..vn_sequence n]"
    by (subst upto_rec2) (simp_all add: seq p)
  moreover have "sorted (map created_at_us (?r @ [p]))"
    using srt sub ok by (auto simp: p sorted_append node_ok_def)
  ultimately show ?thesis
    using ok sub len unfolding filled_def Let_def node_ok_def by (auto simp: p)
qed

definition ids_ok :: "int multiset \<Rightarrow> int \<Rightarrow> bool" where
  "ids_ok M k \<longleftrightarrow> (\<forall>x. count M x \<le> 1) \<and> (\<forall>x \<in># M. x < k)"

lemma ids_ok_add:
  assumes "ids_ok M k" "M' \<subseteq># add_mset k M"
  shows "ids_ok M' (k + 1)"
proof -
  have "count M k = 0" using assms(1) by (auto simp: ids_ok_def not_in_iff[symmetric])
  then have "count (add_mset k M) x \<le> 1" for x using assms(1) by (auto simp: ids_ok_def)
  moreover have "count M' x \<le> count (add_mset k M) x" for x
    using assms(2) by (rule mset_subset_eq_count)
  ultimately have "count M' x \<le> 1" for x using order_trans by blast
  moreover have "x < k + 1" if "x \<in># M'" for x
    using that mset_subset_eqD[OF assms(2)] assms(1) by (force simp: ids_ok_def)
  ultimately show ?thesis by (simp add: ids_ok_def)
qed

lemma ids_ok_sub: "ids_ok M k \<Longrightarrow> M' \<subseteq># M \<Longrightarrow> ids_ok M' k"
  unfolding ids_ok_def by (metis mset_subset_eq_count mset_subset_eqD order_trans)

lemma net_inv_alt: "net_inv s \<longleftrightarrow> (\<forall>n \<in> set (vnodes s). node_ok (now_us s) n) \<and>
    ids_ok (live_ids s) (next_packet_id s) \<and>
    ev_count ''voice_frame_generated'' (trace s) = accounted s"
  by (auto simp: net_inv_def ids_ok_def)

lemma node_rec_counts [simp]:
  "ev_count name [node_rec ev n pid d now] = (if ev = name then 1 else 0)"
  "te_event (node_rec ev n pid d now) = ev"
  "is_voice_event name (node_rec ev n pid d now) \<longleftrightarrow> ev = name \<and> map_of d ''kind'' = Some (DStr ''voice'')"
  by (simp_all add: node_rec_def is_voice_event_def)

lemma ev_count_Cons [simp]:
  "ev_count name (e # tr) = (if te_event e = name then 1 else 0) + ev_count name tr"
  "voice_count name (e # tr) = (if is_voice_event name e then 1 else 0) + voice_count name tr"
  by (simp_all add: ev_count_def voice_count_def)

lemma generate_frame_net_inv:
  assumes gen: "generate_frame i s = Inr s'" and i: "i < length (vnodes s)" and inv: "net_inv s"
  shows "net_inv s'"
proof -
  define n where "n = vnodes s ! i"
  define p where "p = make_packet n (next_packet_id s) (now_us s)"
  note G = generate_frame_Inr[OF gen i, folded n_def, folded p_def]
  have ok: "node_ok (now_us s) n" using inv i by (simp add: net_inv_def n_def)
  have ok': "node_ok (now_us s) (filled n p)"
    using ok p_def conjunct1[OF G] by (rule node_ok_filled)
  have fields: "vnodes s' = (vnodes s)[i := filled n p]" "now_us s' = now_us s"
    "next_packet_id s' = next_packet_id s + 1" "active s' = active s" "transmissions s' = transmissions s"
    using G by simp_all
  have room: "vn_queue (filled n p) = room (max_queue_frames (vn_voice n)) (vn_queue n) @ [p]"
    by (simp add: filled_def Let_def)
  have "mset (room m q) \<subseteq># mset q" for m q
    by (cases q) (auto simp: room_def)
  then have "node_ids (filled n p) \<subseteq># add_mset (next_packet_id s) (node_ids n)"
    unfolding node_ids_def room by (simp add: p_def image_mset_subseteq_mono)
  then have "live_ids s' + node_ids n \<subseteq># add_mset (next_packet_id s) (live_ids s) + node_ids n"
    using live_ids_update[OF i fields(1)] by (simp add: fields(5) n_def[symmetric])
  then have ids: "ids_ok (live_ids s') (next_packet_id s')"
    using inv ids_ok_add[of "live_ids s" "next_packet_id s" "live_ids s'"]
    by (simp add: net_inv_alt fields(3))
  have "length (vn_queue (filled n p)) + length (overflow_events n (now_us s)) = length (vn_queue n) + 1"
    using G by (cases "vn_queue n") (auto simp: room room_def overflow_events_def)
  moreover have "queued s' = queued (set_node i (filled n p) s)" by (simp add: queued_def fields(1))
  ultimately have q: "queued s' + length (overflow_events n (now_us s)) = queued s + 1"
    using queued_set_node[OF i, of "filled n p"] by (simp add: n_def[symmetric])
  have ov: "ev_count ''queue_overflow'' (overflow_events n (now_us s)) = length (overflow_events n (now_us s))"
    "ev_count ''voice_frame_generated'' (overflow_events n (now_us s)) = 0"
    "voice_count ''packet_delivered'' (overflow_events n (now_us s)) = 0"
    "voice_count ''packet_collided'' (overflow_events n (now_us s)) = 0"
    "voice_count ''packet_lost'' (overflow_events n (now_us s)) = 0"
    by (simp_all add: overflow_events_def)
  have fl: "voice_in_flight s' = voice_in_flight s" by (simp add: voice_in_flight_def fields)
  have tr: "\<exists>rest. trace s' = trace s @ node_rec ''voice_frame_generated'' n (Some (packet_id p)) [(''sequence'', DInt (pk_sequence p))] (now_us s)
      # overflow_events n (now_us s) @ [node_rec ''queue_depth'' n None rest (now_us s)]"
    using G by auto
  then have "ev_count ''voice_frame_generated'' (trace s') = accounted s'"
    using inv q fl ov by (auto simp: net_inv_alt accounted_def)
  then show ?thesis
    using inv ids nodes_ok_update[where P = "node_ok (now_us s)", OF _ ok', of "vnodes s" i]
    by (simp add: net_inv_alt fields)
qed

lemma generate_frame_med_inv:
  assumes "generate_frame i s = Inr s'" "i < length (vnodes s)"
  shows "med_inv X s' = med_inv X s" and "events s' = events s" and "now_us s' = now_us s"
    and "length (vnodes s') = length (vnodes s)"
proof -
  note G = generate_frame_Inr[OF assms]
  have f: "now_us s' = now_us s" "events s' = events s" "active s' = active s" "transmissions s' = transmissions s"
    using G by simp_all
  show "med_inv X s' = med_inv X s" by (rule med_inv_cong[OF f])
  show "events s' = events s" "now_us s' = now_us s" by (simp_all add: f)
  show "length (vnodes s') = length (vnodes s)" using G by simp
qed

lemma append_frame_step: "sim_step_ok s (append_frame i p s)"
  unfolding append_frame_def Let_def by (blast intro: sim_step_ok_trans set_node_step node_event_step)

lemma drop_oldest_step: "drop_oldest i s = Inr s' \<Longrightarrow> sim_step_ok s s'"
  unfolding drop_oldest_def Let_def
  by (auto split: if_splits list.splits intro: sim_step_ok_trans[OF set_node_step node_event_step])

lemma generate_frame_step:
  assumes "generate_frame i s = Inr s'"
  shows "sim_step_ok s s'"
proof -
  let ?n = "vnodes s ! i"
  let ?s0 = "s\<lparr>next_packet_id := next_packet_id s + 1\<rparr>"
  let ?s1 = "set_node i (?n\<lparr>vn_sequence := vn_sequence ?n + 1\<rparr>) ?s0"
  let ?p = "make_packet ?n (next_packet_id s) (now_us s)"
  let ?s2 = "node_event ''voice_frame_generated'' ?n (Some (packet_id ?p)) [(''sequence'', DInt (pk_sequence ?p))] ?s1"
  obtain s3 where s3: "drop_oldest i ?s2 = Inr s3" "s' = append_frame i ?p s3"
    using assms by (auto simp: generate_frame_def Let_def bind_eq_Inr)
  have "sim_step_ok s ?s0" by (rule sim_step_ok_eqI) simp_all
  also have "sim_step_ok ?s0 ?s1" by (rule set_node_step)
  also (sim_step_ok_trans) have "sim_step_ok ?s1 ?s2" by (rule node_event_step)
  also (sim_step_ok_trans) have "sim_step_ok ?s2 s3" by (rule drop_oldest_step[OF s3(1)])
  finally (sim_step_ok_trans) show ?thesis
    unfolding s3(2) using append_frame_step by (rule sim_step_ok_trans)
qed

section \<open>The medium's operations on a network state\<close>

definition outcomes :: "trace_event list \<Rightarrow> nat" where
  "outcomes tr = voice_count ''packet_delivered'' tr + voice_count ''packet_collided'' tr +
     voice_count ''packet_lost'' tr"

definition frames_in :: "trace_event list \<Rightarrow> nat" where
  "frames_in tr = ev_count ''voice_frame_generated'' tr"

lemma transmit_effect:
  assumes tr: "transmit p air oc s = Inr s'" and inv: "med_inv X s"
  shows "vnodes s' = vnodes s" "next_packet_id s' = next_packet_id s" "now_us s' = now_us s"
    "live_ids s' = add_mset (packet_id p) (live_ids s)"
    "voice_in_flight s' = voice_in_flight s + (if kind p = VOICE then 1 else 0)"
    "\<exists>tl. trace s' = trace s @ tl \<and> frames_in tl = 0 \<and> outcomes tl = 0 \<and> ev_count ''queue_overflow'' tl = 0"
    "pending Y s' = add_mset (Finish (length (transmissions s)) oc) (pending Y s)"
proof -
  let ?n = "length (transmissions s)"
  have act: "\<forall>r \<in> set (active s). r < ?n" using inv by (simp add: med_inv_def)
  obtain evs where s': "s' = s\<lparr>transmissions := marked ?n (active s) (transmissions s @ [new_tx p air s]),
      trace := trace s @ evs @ [tx_start_event p air (now_us s)], active := active s @ [?n],
      events := heappush \<lparr>se_time_us = now_us s + air, se_order = next_order s,
        se_callback = Finish ?n oc, se_description = ''transmission complete''\<rparr> (events s),
      next_order := next_order s + 1\<rparr>" and ce: "collision_events evs"
    using transmit_Inr[OF tr act] by blast
  show "vnodes s' = vnodes s" "next_packet_id s' = next_packet_id s" "now_us s' = now_us s"
    by (simp_all add: s')
  have "mset (map (packet_id \<circ> tx_packet) (transmissions s')) =
      mset (map (packet_id \<circ> tx_packet) (transmissions s @ [new_tx p air s]))"
    by (simp only: s' simulation.simps medium_state.simps marked_map_proj) (simp add: marked_map_proj)
  then have "image_mset (packet_id \<circ> tx_packet) (mset (transmissions s')) =
      add_mset (packet_id p) (image_mset (packet_id \<circ> tx_packet) (mset (transmissions s)))"
    by (simp add: new_tx_def)
  then show "live_ids s' = add_mset (packet_id p) (live_ids s)"
    by (simp add: live_ids_alt s')
  have pk: "tx_packet (transmissions s' ! r) = tx_packet ((transmissions s @ [new_tx p air s]) ! r)" if "r < Suc ?n" for r
    using marked_append_proj(3)[OF that] by (simp add: s')
  have "filter (\<lambda>r. kind (tx_packet (transmissions s' ! r)) = VOICE) (active s) =
      filter (\<lambda>r. kind (tx_packet (transmissions s ! r)) = VOICE) (active s)"
  proof (intro filter_cong refl)
    fix r assume "r \<in> set (active s)"
    then have "r < ?n" using act by simp
    then show "(kind (tx_packet (transmissions s' ! r)) = VOICE) = (kind (tx_packet (transmissions s ! r)) = VOICE)"
      using pk[of r] by (simp add: nth_append)
  qed
  then show "voice_in_flight s' = voice_in_flight s + (if kind p = VOICE then 1 else 0)"
    using pk[of ?n] by (simp add: voice_in_flight_def new_tx_def) (simp add: s' new_tx_def)
  let ?tl = "evs @ [tx_start_event p air (now_us s)]"
  have "frames_in ?tl = 0 \<and> outcomes ?tl = 0 \<and> ev_count ''queue_overflow'' ?tl = 0"
    using counts_collision_events[OF ce]
    by (simp add: frames_in_def outcomes_def tx_start_event_def is_voice_event_def)
  moreover have "trace s' = trace s @ ?tl" by (simp add: s')
  ultimately show "\<exists>tl. trace s' = trace s @ tl \<and> frames_in tl = 0 \<and> outcomes tl = 0 \<and> ev_count ''queue_overflow'' tl = 0"
    by blast
  show "pending Y s' = add_mset (Finish ?n oc) (pending Y s)"
    by (simp add: s' pending_def heappush_contents)
qed

lemma accounted_alt: "accounted s = ev_count ''queue_overflow'' (trace s) + queued s + voice_in_flight s + outcomes (trace s)"
  by (simp add: accounted_def outcomes_def)

lemma frames_append [simp]: "frames_in (a @ b) = frames_in a + frames_in b" "outcomes (a @ b) = outcomes a + outcomes b"
  by (simp_all add: frames_in_def outcomes_def)

lemma net_inv_frames: "net_inv s \<longleftrightarrow> (\<forall>n \<in> set (vnodes s). node_ok (now_us s) n) \<and>
    ids_ok (live_ids s) (next_packet_id s) \<and> frames_in (trace s) = accounted s"
  by (simp add: net_inv_alt frames_in_def)

text \<open>A transmission of a packet that carries no voice and a fresh identifier (a heartbeat).\<close>

lemma transmit_heartbeat_net_inv:
  assumes tr: "transmit p air oc (s\<lparr>next_packet_id := next_packet_id s + 1\<rparr>) = Inr s'"
    and inv: "med_inv {#} s" "net_inv s" and p: "packet_id p = next_packet_id s" "kind p \<noteq> VOICE"
  shows "net_inv s'" and "med_inv {#} s'"
proof -
  let ?s = "s\<lparr>next_packet_id := next_packet_id s + 1\<rparr>"
  have m: "med_inv {#} ?s" using inv(1) by (simp add: med_inv_node_frame)
  note T = transmit_effect[OF tr m]
  have same: "live_ids ?s = live_ids s" "voice_in_flight ?s = voice_in_flight s" "queued s' = queued s"
    using T(1) by (simp_all add: live_ids_def voice_in_flight_def queued_def)
  have "ids_ok (live_ids s') (next_packet_id s')"
    using inv(2) T(2,4) same p ids_ok_add[of "live_ids s" "next_packet_id s", OF _ subset_mset.order_refl]
    by (simp add: net_inv_frames)
  moreover obtain tl where "trace s' = trace s @ tl" "frames_in tl = 0" "outcomes tl = 0" "ev_count ''queue_overflow'' tl = 0"
    using T(6) by auto
  then have "frames_in (trace s') = accounted s'"
    using inv(2) T(5) same p by (simp add: net_inv_frames accounted_alt)
  ultimately show "net_inv s'" using inv(2) T(1,3) by (simp add: net_inv_frames)
  have "next_packet_id s \<notin># live_ids s" using inv(2) by (auto simp: net_inv_frames ids_ok_def)
  then have "packet_id p \<notin> (packet_id \<circ> tx_packet) ` set (transmissions ?s)"
    by (auto simp: p live_ids_def)
  then show "med_inv {#} s'" using transmit_med_inv[OF m tr] by blast
qed

text \<open>Sending the head of a node's queue.\<close>

lemma deadline_miss_frame:
  "net_inv s \<Longrightarrow> net_inv (deadline_miss n p age st s)"
  "med_inv X (deadline_miss n p age st s) = med_inv X s"
  "sim_step_ok s (deadline_miss n p age st s)"
  "vnodes (deadline_miss n p age st s) = vnodes s" "next_packet_id (deadline_miss n p age st s) = next_packet_id s"
  "now_us (deadline_miss n p age st s) = now_us s" "transmissions (deadline_miss n p age st s) = transmissions s"
  "active (deadline_miss n p age st s) = active s" "events (deadline_miss n p age st s) = events s"
  "live_ids (deadline_miss n p age st s) = live_ids s"
  "\<exists>tl. trace (deadline_miss n p age st s) = trace s @ tl \<and> frames_in tl = 0 \<and> outcomes tl = 0 \<and> ev_count ''queue_overflow'' tl = 0"
  by (auto simp: deadline_miss_def neutral_event_def med_inv_node_frame live_ids_def intro!: net_inv_node_event node_event_step)
     (auto simp: node_event_def record_event_def frames_in_def outcomes_def is_voice_event_def)

lemma send_head_inv:
  assumes sh: "send_head i p rest s = Inr s'" and i: "i < length (vnodes s)"
    and q: "vn_queue (vnodes s ! i) = p # rest" and inv: "med_inv {#} s" "net_inv s"
  shows "net_inv s'" and "med_inv {#} s'" and "sim_step_ok s s'" and "length (vnodes s') = length (vnodes s)"
    and "pending {#} s' = add_mset (Finish (length (transmissions s)) (VoiceCompletion i p)) (pending {#} s)"
proof -
  define n where "n = vnodes s ! i"
  define s1 where "s1 = set_node i (n\<lparr>vn_queue := rest\<rparr>) s"
  define s2 where "s2 = deadline_miss n p (now_us s - created_at_us p) ''queue'' s1"
  obtain air where tr: "transmit p air (VoiceCompletion i p) s2 = Inr s'"
    using sh by (auto simp: send_head_def Let_def bind_eq_Inr n_def s1_def s2_def)
  have ok: "node_ok (now_us s) n" using inv(2) i by (simp add: net_inv_def n_def)
  have qn: "vn_queue n = p # rest" using q by (simp add: n_def)
  have ok1: "node_ok (now_us s) (n\<lparr>vn_queue := rest\<rparr>)"
  proof -
    have "tl (map pk_sequence (vn_queue n)) = tl [vn_sequence n - int (length (vn_queue n))..vn_sequence n - 1]"
      using ok by (simp add: node_ok_def)
    then have "map pk_sequence rest = [vn_sequence n - int (length rest)..vn_sequence n - 1]"
      by (simp add: qn tl_upto)
    with ok show ?thesis by (auto simp: node_ok_def qn)
  qed
  have m2: "med_inv {#} s2" using inv(1) by (simp add: s2_def s1_def deadline_miss_frame med_inv_node_frame)
  note T = transmit_effect[OF tr m2] and D = deadline_miss_frame[where n = n and p = p and age = "now_us s - created_at_us p" and st = "''queue''"]
  have v1: "vnodes s1 = (vnodes s)[i := n\<lparr>vn_queue := rest\<rparr>]" by (simp add: s1_def)
  have kp: "kind p = VOICE" using ok by (simp add: node_ok_def qn)
  have live: "add_mset (packet_id p) (live_ids s1) = live_ids s"
    using live_ids_update[OF i v1] by (simp add: node_ids_def qn n_def[symmetric] s1_def)
  have liveq: "live_ids s' = live_ids s" using T(4) live by (simp add: s2_def D)
  have nid: "next_packet_id s' = next_packet_id s" using T(2) by (simp add: s2_def D s1_def)
  have "queued s1 + 1 = queued s"
    using queued_set_node[OF i, of "n\<lparr>vn_queue := rest\<rparr>"] by (simp add: s1_def n_def[symmetric] qn)
  then have qd: "queued s' + 1 = queued s" using T(1) by (simp add: queued_def s2_def D)
  have fl: "voice_in_flight s' = voice_in_flight s + 1"
    using T(5) kp by (simp add: voice_in_flight_def s2_def D s1_def)
  obtain t1 where t1: "trace s2 = trace s @ t1" "frames_in t1 = 0" "outcomes t1 = 0" "ev_count ''queue_overflow'' t1 = 0"
    using D(11)[where s = s1] by (auto simp: s2_def s1_def)
  obtain t2 where t2: "trace s' = trace s2 @ t2" "frames_in t2 = 0" "outcomes t2 = 0" "ev_count ''queue_overflow'' t2 = 0"
    using T(6) by auto
  have "frames_in (trace s') = accounted s'"
    using inv(2) qd fl t1 t2 by (simp add: net_inv_frames accounted_alt)
  moreover have "\<forall>m \<in> set (vnodes s'). node_ok (now_us s') m"
    using inv(2) nodes_ok_update[where P = "node_ok (now_us s)", OF _ ok1, of "vnodes s" i] T(1,3)
    by (simp add: net_inv_frames s2_def D s1_def)
  ultimately show "net_inv s'" using inv(2) liveq nid by (simp add: net_inv_frames)
  have "count (live_ids s) (packet_id p) \<le> 1" using inv(2) by (simp add: net_inv_def)
  then have "packet_id p \<notin># live_ids s1" by (simp add: live[symmetric] not_in_iff)
  then have "packet_id p \<notin> (packet_id \<circ> tx_packet) ` set (transmissions s2)"
    by (auto simp: live_ids_def s2_def D)
  then show "med_inv {#} s'" using transmit_med_inv[OF m2 tr] by blast
  have "sim_step_ok s s2" unfolding s2_def s1_def by (rule sim_step_ok_trans[OF set_node_step D(3)])
  then show "sim_step_ok s s'" using transmit_step[OF tr] by (rule sim_step_ok_trans)
  show "length (vnodes s') = length (vnodes s)" using T(1) by (simp add: s2_def D s1_def)
  show "pending {#} s' = add_mset (Finish (length (transmissions s)) (VoiceCompletion i p)) (pending {#} s)"
    using T(7)[of "{#}"] by (simp add: s2_def D s1_def pending_def)
qed

lemma finish_effect:
  assumes inv: "med_inv {#Finish tx oc#} s" "net_inv s" and fin: "finish rnd tx s = Inr (s', delivered, reason)"
  shows "net_inv s'" "vnodes s' = vnodes s" "events s' = events s"
proof -
  note F = med_inv_Finish[OF inv(1)]
  let ?t = "transmissions s ! tx"
  obtain det dr where s': "s' = s\<lparr>active := remove1 tx (active s), draws := dr,
      trace := trace s @ [\<lparr>te_time_us = now_us s, te_event = outcome_name delivered reason,
        te_node_id = Some (source_id (tx_packet ?t)), te_packet_id = Some (packet_id (tx_packet ?t)),
        te_details = det @ [(''kind'', DStr (packet_kind_value (kind (tx_packet ?t))))]\<rparr>]\<rparr>"
    and det: "det = [] \<or> (\<exists>l. det = [(''latency_us'', DInt l)])"
    using finish_Inr[OF inv(1) fin] unfolding finish_post_def Let_def by blast
  show vn: "vnodes s' = vnodes s" and "events s' = events s" by (simp_all add: s')
  let ?V = "\<lambda>r. kind (tx_packet (transmissions s ! r)) = VOICE"
  let ?k = "if ?V tx then 1 else 0 :: nat"
  have fl: "voice_in_flight s' + ?k = voice_in_flight s"
  proof (cases "?V tx")
    case True
    then have "tx \<in> set (filter ?V (active s))" using F(1) by simp
    then have "0 < length (filter ?V (active s))" by (meson length_pos_if_in_set)
    then show ?thesis using True F(1)
      by (simp add: voice_in_flight_def s' filter_remove1 length_remove1)
  next
    case False
    then show ?thesis by (simp add: voice_in_flight_def s' filter_remove1 remove1_idem)
  qed
  define e where "e = \<lparr>te_time_us = now_us s, te_event = outcome_name delivered reason,
        te_node_id = Some (source_id (tx_packet ?t)), te_packet_id = Some (packet_id (tx_packet ?t)),
        te_details = det @ [(''kind'', DStr (packet_kind_value (kind (tx_packet ?t))))]\<rparr>"
  have tr: "trace s' = trace s @ [e]" by (simp add: s' e_def)
  have "map_of (te_details e) ''kind'' = Some (DStr (packet_kind_value (kind (tx_packet ?t))))"
    using det by (elim disjE exE) (simp_all add: e_def)
  then have v: "is_voice_event nm e \<longleftrightarrow> te_event e = nm \<and> ?V tx" for nm
    by (cases "kind (tx_packet ?t)") (simp_all add: is_voice_event_def)
  have nm: "te_event e = ''packet_delivered'' \<or> te_event e = ''packet_collided'' \<or> te_event e = ''packet_lost''"
    by (simp add: e_def outcome_name_def)
  have oc: "outcomes (trace s') = outcomes (trace s) + ?k"
    using nm by (elim disjE) (simp_all add: tr outcomes_def v)
  have ov: "ev_count ''queue_overflow'' (trace s') = ev_count ''queue_overflow'' (trace s)"
    and fr: "frames_in (trace s') = frames_in (trace s)"
    using nm by (elim disjE; simp add: tr frames_in_def)+
  have "live_ids s' = live_ids s" "queued s' = queued s" "next_packet_id s' = next_packet_id s" "now_us s' = now_us s"
    by (simp_all add: s' live_ids_def queued_def)
  then show "net_inv s'" using inv(2) vn fl oc ov fr by (simp add: net_inv_frames accounted_alt)
qed

section \<open>Every callback of a node keeps the invariant\<close>

fun completion_valid :: "nat \<Rightarrow> completion \<Rightarrow> bool" where
  "completion_valid k (VoiceCompletion i _) = (i < k)"
| "completion_valid k _ = True"

fun cb_valid :: "nat \<Rightarrow> callback \<Rightarrow> bool" where
  "cb_valid k (Generate i) = (i < k)"
| "cb_valid k (Slot i) = (i < k)"
| "cb_valid k (SetEnabled i _) = (i < k)"
| "cb_valid k (Finish _ oc) = completion_valid k oc"
| "cb_valid k _ = True"

fun is_proto :: "callback \<Rightarrow> bool" where
  "is_proto Heartbeat = True"
| "is_proto CheckTimeout = True"
| "is_proto Elect = True"
| "is_proto _ = False"

text \<open>\<open>node_step s s'\<close>: what a node's callback may do to the shared state.\<close>

definition node_step :: "'m network_state_scheme \<Rightarrow> 'm network_state_scheme \<Rightarrow> bool" where
  "node_step s s' \<longleftrightarrow> sim_step_ok s s' \<and> length (vnodes s') = length (vnodes s) \<and>
     (med_inv {#} s \<longrightarrow> net_inv s \<longrightarrow> med_inv {#} s' \<and> net_inv s') \<and>
     (\<exists>M. pending {#} s' = M + pending {#} s \<and> (\<forall>c \<in># M. \<not> is_proto c \<and> cb_valid (length (vnodes s)) c))"

lemma node_step_refl [simp]: "node_step s s"
  unfolding node_step_def by (auto intro!: exI[of _ "{#}"])

lemma node_step_trans:
  assumes "node_step a b" "node_step b c"
  shows "node_step a c"
proof -
  obtain M N where "pending {#} b = M + pending {#} a" "pending {#} c = N + pending {#} b"
    "\<forall>c \<in># M. \<not> is_proto c \<and> cb_valid (length (vnodes a)) c"
    "\<forall>c \<in># N. \<not> is_proto c \<and> cb_valid (length (vnodes b)) c"
    using assms unfolding node_step_def by blast
  moreover have "length (vnodes b) = length (vnodes a)" using assms by (simp add: node_step_def)
  ultimately have "pending {#} c = (N + M) + pending {#} a \<and>
      (\<forall>c \<in># N + M. \<not> is_proto c \<and> cb_valid (length (vnodes a)) c)" by (auto simp: ac_simps)
  moreover have "sim_step_ok a c" using assms sim_step_ok_trans by (auto simp: node_step_def)
  ultimately show ?thesis using assms unfolding node_step_def by metis
qed

lemma node_step_same_queue:
  assumes "sim_step_ok s s'" "events s' = events s" "length (vnodes s') = length (vnodes s)"
    "med_inv {#} s \<Longrightarrow> net_inv s \<Longrightarrow> med_inv {#} s' \<and> net_inv s'"
  shows "node_step s s'"
  unfolding node_step_def using assms pending_cong[OF assms(2)]
  by (auto intro!: exI[of _ "{#}"])

lemma schedule_at_node_step:
  assumes sc: "schedule_at t cb d s = Inr s'"
    and cb: "\<not> is_Finish cb" "\<not> is_proto cb" "cb_valid (length (vnodes s)) cb"
  shows "node_step s s'"
proof -
  have "length (vnodes s') = length (vnodes s)" using schedule_at_Inr[OF sc] by simp
  moreover have "pending {#} s' = {#cb#} + pending {#} s" using pending_schedule_at[OF sc, of "{#}"] by simp
  ultimately show ?thesis unfolding node_step_def
    using schedule_at_step[OF sc] med_inv_schedule_at[OF _ sc cb(1)] net_inv_schedule_at[OF _ sc] cb(2,3)
    by (metis set_mset_single singletonD)
qed

lemma reschedule_node_step:
  "reschedule i cb what s = Inr s' \<Longrightarrow> \<not> is_Finish cb \<Longrightarrow> \<not> is_proto cb \<Longrightarrow>
   cb_valid (length (vnodes s)) cb \<Longrightarrow> node_step s s'"
  by (auto simp: reschedule_def Let_def split: if_splits intro: schedule_at_node_step)

lemma generate_frame_node_step:
  assumes "generate_frame i s = Inr s'" "i < length (vnodes s)"
  shows "node_step s s'"
  using generate_frame_step[OF assms(1)] generate_frame_med_inv[OF assms]
    generate_frame_net_inv[OF assms]
  by (intro node_step_same_queue) auto

lemma send_head_node_step:
  assumes sh: "send_head i p rest s = Inr s'" and i: "i < length (vnodes s)"
    and q: "vn_queue (vnodes s ! i) = p # rest" and inv: "med_inv {#} s" "net_inv s"
  shows "node_step s s'"
proof -
  note S = send_head_inv[OF sh i q inv]
  show ?thesis unfolding node_step_def
    using S(1-4) i by (auto simp: S(5) intro!: exI[of _ "{#Finish (length (transmissions s)) (VoiceCompletion i p)#}"])
qed

lemma generate_node_step:
  assumes "generate i s = Inr s'" "i < length (vnodes s)"
  shows "node_step s s'"
proof -
  obtain t where t: "(if vn_enabled (vnodes s ! i) then generate_frame i s else Inr s) = Inr t"
    "reschedule i (Generate i) '' next frame'' t = Inr s'"
    using assms(1) by (auto simp: generate_def bind_eq_Inr)
  have st: "node_step s t" using t(1) assms(2) by (auto split: if_splits intro: generate_frame_node_step)
  then have "length (vnodes t) = length (vnodes s)" by (simp add: node_step_def)
  then have "node_step t s'" using reschedule_node_step[OF t(2)] assms(2) by simp
  with st show ?thesis by (rule node_step_trans)
qed

lemma slot_node_step:
  assumes "slot i s = Inr s'" "i < length (vnodes s)" "med_inv {#} s" "net_inv s"
  shows "node_step s s'"
proof -
  obtain t where t: "(case vn_queue (vnodes s ! i) of
             p # rest \<Rightarrow> if vn_enabled (vnodes s ! i) then send_head i p rest s else Inr s
           | [] \<Rightarrow> Inr s) = Inr t"
    "reschedule i (Slot i) '' next slot'' t = Inr s'"
    using assms(1) by (auto simp: slot_def bind_eq_Inr)
  have st: "node_step s t"
    using t(1) assms by (auto split: if_splits list.splits intro: send_head_node_step)
  then have "length (vnodes t) = length (vnodes s)" by (simp add: node_step_def)
  then have "node_step t s'" using reschedule_node_step[OF t(2)] assms(2) by simp
  with st show ?thesis by (rule node_step_trans)
qed

lemma set_enabled_node_step:
  assumes "i < length (vnodes s)"
  shows "node_step s (set_enabled i en s)"
proof (rule node_step_same_queue)
  show "med_inv {#} s \<Longrightarrow> net_inv s \<Longrightarrow> med_inv {#} (set_enabled i en s) \<and> net_inv (set_enabled i en s)"
    using set_enabled_net_inv[OF _ assms] by (simp add: set_enabled_def Let_def med_inv_node_frame)
qed (auto simp: set_enabled_step, simp_all add: set_enabled_def Let_def)

lemma voice_complete_node_step: "node_step s (voice_complete i p delivered s)"
  by (rule node_step_same_queue) (auto simp: voice_complete_def deadline_miss_frame)

lemma start_node_node_step:
  assumes "start_node i s = Inr s'" "i < length (vnodes s)"
  shows "node_step s s'"
proof -
  obtain t lab lab' k k' where t: "schedule_at k (Generate i) lab s = Inr t" "schedule_at k' (Slot i) lab' t = Inr s'"
    using assms(1) unfolding start_node_def Let_def bind_eq_Inr by blast
  have st: "node_step s t" using schedule_at_node_step[OF t(1)] assms(2) by simp
  then have "length (vnodes t) = length (vnodes s)" by (simp add: node_step_def)
  then have "node_step t s'" using schedule_at_node_step[OF t(2)] assms(2) by simp
  with st show ?thesis by (rule node_step_trans)
qed

end
