(* ===== verification/Protocol.thy ===== *)
theory Protocol
  imports Node
begin

text \<open>
  \<^verbatim>\<open>simulator/src/openref_sim/protocol.py\<close>: the coordinator's heartbeat, its timeout and the election
  of a replacement.  \<open>world\<close> is the whole state of a simulation; \<open>nodes\<close> is the dictionary from node
  identifiers to node objects (indices into \<open>vnodes\<close>).  \<open>exec\<close> runs one closure.
\<close>

section \<open>State\<close>

record coordinator_config =
  initial_coordinator_id :: int
  heartbeat_interval_us :: int
  heartbeat_timeout_us :: int
  election_delay_us :: int
  cc_bitrate_bps :: int
  cc_overhead_bytes :: int
  cc_preamble_us :: int
  heartbeat_payload_bytes :: int
  first_heartbeat_delay_us :: int

definition heartbeat_airtime_us :: "coordinator_config \<Rightarrow> int result" where
  "heartbeat_airtime_us c =
     packet_airtime_us (heartbeat_payload_bytes c) (cc_bitrate_bps c) (cc_overhead_bytes c) (cc_preamble_us c)"

record world = network_state +
  proto :: coordinator_config
  nodes :: "(int \<times> nat) list"
  coordinator_id :: int
  last_heartbeat_us :: int
  election_pending :: bool

section \<open>Operations\<close>

definition start_protocol :: "world \<Rightarrow> world result" where
  "start_protocol s =
     (let s1 = record_event ''coordinator_selected'' (Some (coordinator_id s)) None [(''previous_id'', DNone)] s
      in bind (schedule (first_heartbeat_delay_us (proto s)) Heartbeat '''' s1)
              (schedule (heartbeat_timeout_us (proto s)) CheckTimeout ''''))"

definition heartbeat_packet :: "world \<Rightarrow> packet" where
  "heartbeat_packet s = \<lparr>packet_id = next_packet_id s, source_id = coordinator_id s, pk_sequence = 0,
     created_at_us = now_us s, payload_bytes = heartbeat_payload_bytes (proto s), kind = HEARTBEAT\<rparr>"

definition heartbeat :: "world \<Rightarrow> world result" where
  "heartbeat s =
     bind (of_option (KeyError ''coordinator_id'') (map_of (nodes s) (coordinator_id s))) (\<lambda>i.
     bind (if vn_enabled (vnodes s ! i)
           then let p = heartbeat_packet s; s1 = s\<lparr>next_packet_id := next_packet_id s + 1\<rparr>
             in bind (heartbeat_airtime_us (proto s)) (\<lambda>airtime.
                  transmit p airtime (HeartbeatCompletion p) s1)
           else Inr s)
          (schedule (heartbeat_interval_us (proto s)) Heartbeat ''''))"

definition heartbeat_complete :: "packet \<Rightarrow> bool \<Rightarrow> world \<Rightarrow> world" where
  "heartbeat_complete p delivered s =
     (if delivered
      then record_event ''heartbeat_received'' (Some (coordinator_id s)) (Some (packet_id p)) []
             (s\<lparr>last_heartbeat_us := now_us s\<rparr>)
      else s)"

definition check_timeout :: "world \<Rightarrow> world result" where
  "check_timeout s =
     bind (if heartbeat_timeout_us (proto s) < now_us s - last_heartbeat_us s \<and> \<not> election_pending s
           then schedule (election_delay_us (proto s)) Elect ''''
                  (record_event ''heartbeat_timeout'' (Some (coordinator_id s)) None []
                     (s\<lparr>election_pending := True\<rparr>))
           else Inr s)
          (schedule (max 1 (heartbeat_interval_us (proto s) div 2)) CheckTimeout '''')"

definition enabled_ids :: "world \<Rightarrow> int list" where
  "enabled_ids s = sort (map fst (filter (\<lambda>(_, i). vn_enabled (vnodes s ! i)) (nodes s)))"

definition elect :: "world \<Rightarrow> world" where
  "elect s =
     (let old = coordinator_id s;
          s1 = (case enabled_ids s of
             [] \<Rightarrow> s
           | winner # _ \<Rightarrow>
               record_event ''coordinator_selected'' (Some winner) None
                 [(''previous_id'', DInt old), (''recovery_time_us'', DInt (election_delay_us (proto s)))]
                 (s\<lparr>coordinator_id := winner, last_heartbeat_us := now_us s\<rparr>))
      in s1\<lparr>election_pending := False\<rparr>)"

definition complete :: "completion \<Rightarrow> bool \<Rightarrow> world \<Rightarrow> world" where
  "complete oc delivered s =
     (case oc of
        NoCompletion \<Rightarrow> s
      | VoiceCompletion i p \<Rightarrow> voice_complete i p delivered s
      | HeartbeatCompletion p \<Rightarrow> heartbeat_complete p delivered s)"

fun exec :: "(nat \<Rightarrow> pyfloat) \<Rightarrow> callback \<Rightarrow> world \<Rightarrow> world result" where
  "exec rnd (Generate i) s = generate i s"
| "exec rnd (Slot i) s = slot i s"
| "exec rnd (SetEnabled i en) s = Inr (set_enabled i en s)"
| "exec rnd (Finish tx oc) s =
     bind (finish rnd tx s) (\<lambda>(s', delivered, _). Inr (complete oc delivered s'))"
| "exec rnd Heartbeat s = heartbeat s"
| "exec rnd CheckTimeout s = check_timeout s"
| "exec rnd Elect s = Inr (elect s)"

section \<open>Every callback keeps to the engine's interface\<close>

lemma elect_step: "sim_step_ok s (elect s)"
proof -
  have a: "sim_step_ok (t::world) (t\<lparr>election_pending := b\<rparr>)" for t b by (rule sim_step_ok_eqI) simp_all
  have b: "sim_step_ok (t::world) (t\<lparr>coordinator_id := c, last_heartbeat_us := l\<rparr>)" for t c l
    by (rule sim_step_ok_eqI) simp_all
  show ?thesis unfolding elect_def Let_def
    by (auto split: list.split intro: a sim_step_ok_trans[OF sim_step_ok_trans[OF b record_event_step] a])
qed

lemma heartbeat_complete_step: "sim_step_ok s (heartbeat_complete p delivered s)"
proof -
  have "sim_step_ok s (s\<lparr>last_heartbeat_us := l\<rparr>)" for l by (rule sim_step_ok_eqI) simp_all
  then show ?thesis unfolding heartbeat_complete_def by (auto intro: sim_step_ok_trans record_event_step)
qed

lemma check_timeout_step: "check_timeout s = Inr s' \<Longrightarrow> sim_step_ok s s'"
proof -
  assume "check_timeout s = Inr s'"
  then obtain t where t: "schedule (max 1 (heartbeat_interval_us (proto s) div 2)) CheckTimeout '''' t = Inr s'"
    and c: "t = s \<or> schedule (election_delay_us (proto s)) Elect ''''
       (record_event ''heartbeat_timeout'' (Some (coordinator_id s)) None [] (s\<lparr>election_pending := True\<rparr>)) = Inr t"
    by (auto simp: check_timeout_def bind_eq_Inr split: if_splits)
  have "sim_step_ok s (s\<lparr>election_pending := True\<rparr>)" by (rule sim_step_ok_eqI) simp_all
  with c have "sim_step_ok s t"
    by (auto intro: sim_step_ok_trans[OF _ sim_step_ok_trans[OF record_event_step schedule_step]])
  then show ?thesis using schedule_step[OF t] by (rule sim_step_ok_trans)
qed

lemma heartbeat_Inr:
  assumes "heartbeat s = Inr s'"
  obtains i t where "map_of (nodes s) (coordinator_id s) = Some i"
    and "schedule (heartbeat_interval_us (proto s)) Heartbeat '''' t = Inr s'"
    and "\<not> vn_enabled (vnodes s ! i) \<and> t = s \<or> vn_enabled (vnodes s ! i) \<and> (\<exists>air. heartbeat_airtime_us (proto s) = Inr air \<and>
       transmit (heartbeat_packet s) air (HeartbeatCompletion (heartbeat_packet s))
         (s\<lparr>next_packet_id := next_packet_id s + 1\<rparr>) = Inr t)"
  using assms by (auto simp: heartbeat_def bind_eq_Inr of_option_eq_Inr Let_def split: if_splits)

lemma heartbeat_step:
  assumes "heartbeat s = Inr s'"
  shows "sim_step_ok s s'"
proof -
  obtain t where t: "schedule (heartbeat_interval_us (proto s)) Heartbeat '''' t = Inr s'"
    and c: "t = s \<or> (\<exists>air. transmit (heartbeat_packet s) air (HeartbeatCompletion (heartbeat_packet s))
         (s\<lparr>next_packet_id := next_packet_id s + 1\<rparr>) = Inr t)"
    using heartbeat_Inr[OF assms] by metis
  have "sim_step_ok s (s\<lparr>next_packet_id := next_packet_id s + 1\<rparr>)" by (rule sim_step_ok_eqI) simp_all
  with c have "sim_step_ok s t" by (auto intro: sim_step_ok_trans transmit_step)
  then show ?thesis using schedule_step[OF t] by (rule sim_step_ok_trans)
qed

lemma reschedule_step: "reschedule i cb what s = Inr s' \<Longrightarrow> sim_step_ok s s'"
  by (auto simp: reschedule_def Let_def split: if_splits intro: schedule_at_step)

lemma send_head_step:
  assumes "send_head i p rest s = Inr s'"
  shows "sim_step_ok s s'"
proof -
  obtain air n age st where "transmit p air (VoiceCompletion i p) (deadline_miss n p age st (set_node i (n\<lparr>vn_queue := rest\<rparr>) s)) = Inr s'"
    using assms by (auto simp: send_head_def Let_def bind_eq_Inr)
  then show ?thesis by (meson sim_step_ok_trans set_node_step deadline_miss_frame(3) transmit_step)
qed

lemma complete_step: "sim_step_ok s (complete oc delivered s)"
  by (auto simp: complete_def voice_complete_def heartbeat_complete_step deadline_miss_frame split: completion.split)

lemma exec_sim_step: "exec rnd cb s = Inr s' \<Longrightarrow> sim_step_ok s s'"
proof (induction rnd cb s rule: exec.induct)
  case (1 rnd i s)
  then show ?case
    by (auto simp: generate_def bind_eq_Inr split: if_splits
        intro: sim_step_ok_trans reschedule_step generate_frame_step)
next
  case (2 rnd i s)
  then show ?case
    by (auto simp: slot_def bind_eq_Inr split: if_splits list.splits
        intro: sim_step_ok_trans reschedule_step send_head_step)
next
  case (3 rnd i en s)
  then show ?case using set_enabled_step by auto
next
  case (4 rnd tx oc s)
  then show ?case by (auto simp: bind_eq_Inr intro: sim_step_ok_trans finish_step complete_step)
next
  case (5 rnd s) then show ?case by (simp add: heartbeat_step)
next
  case (6 rnd s) then show ?case by (simp add: check_timeout_step)
next
  case (7 rnd s) then show ?case using elect_step by auto
qed

interpretation sim: engine_client "exec rnd" for rnd
  by unfold_locales (rule exec_sim_step)

section \<open>The invariant of a running simulation\<close>

definition proto_inv :: "callback multiset \<Rightarrow> world \<Rightarrow> bool" where
  "proto_inv X s \<longleftrightarrow>
     (\<forall>c \<in># pending X s. cb_valid (length (vnodes s)) c) \<and>
     (\<forall>(k, i) \<in> set (nodes s). i < length (vnodes s)) \<and>
     count (pending X s) Heartbeat = 1 \<and> count (pending X s) CheckTimeout = 1 \<and>
     count (pending X s) Elect = (if election_pending s then 1 else 0) \<and>
     last_heartbeat_us s \<le> now_us s \<and>
     (coordinator_id s = initial_coordinator_id (proto s) \<or> coordinator_id s \<in> fst ` set (nodes s))"

definition world_inv :: "callback multiset \<Rightarrow> world \<Rightarrow> bool" where
  "world_inv X s \<longleftrightarrow> med_inv X s \<and> net_inv s \<and> proto_inv X s"

lemma pending_split: "pending X s = X + pending {#} s"
  by (simp add: pending_def)

lemma world_inv_after_pop:
  assumes "world_inv {#} s" "sim_inv s" and pop: "heappop (events s) = Some (e, rest)"
  shows "world_inv {#se_callback e#} (after_pop e rest s)"
proof -
  have le: "now_us s \<le> se_time_us e" using after_pop_inv[OF assms(2,3)] by simp
  have f: "vnodes (after_pop e rest s) = vnodes s" "nodes (after_pop e rest s) = nodes s"
    "election_pending (after_pop e rest s) = election_pending s" "proto (after_pop e rest s) = proto s"
    "last_heartbeat_us (after_pop e rest s) = last_heartbeat_us s" "now_us (after_pop e rest s) = se_time_us e"
    "coordinator_id (after_pop e rest s) = coordinator_id s"
    by (simp_all add: after_pop_def)
  show ?thesis
    using assms(1) le med_inv_after_pop[OF _ assms(2) pop] net_inv_after_pop[OF _ assms(2) pop]
    unfolding world_inv_def proto_inv_def pending_after_pop[OF pop] f by auto
qed

text \<open>A node's callback: the coordinator's own fields and its pending callbacks are untouched.\<close>

definition coord_same :: "world \<Rightarrow> world \<Rightarrow> bool" where
  "coord_same s s' \<longleftrightarrow> nodes s' = nodes s \<and> election_pending s' = election_pending s \<and> proto s' = proto s \<and>
     last_heartbeat_us s' = last_heartbeat_us s \<and> coordinator_id s' = coordinator_id s"

lemma coord_same_trans: "coord_same a b \<Longrightarrow> coord_same b c \<Longrightarrow> coord_same a c"
  by (simp add: coord_same_def)

lemma coord_same_refl [simp]: "coord_same s s"
  by (simp add: coord_same_def)

lemma count_not_proto: "(\<forall>c \<in># M. \<not> is_proto c) \<Longrightarrow> is_proto d \<Longrightarrow> count M d = 0"
  by (metis count_inI)

lemma node_step_world_inv:
  assumes st: "node_step s s'" and same: "coord_same s s'"
    and inv: "med_inv {#} s" "net_inv s" "proto_inv {#c#} s" and c: "\<not> is_proto c"
  shows "world_inv {#} s'"
proof -
  obtain M where M: "pending {#} s' = M + pending {#} s"
    "\<forall>d \<in># M. \<not> is_proto d \<and> cb_valid (length (vnodes s)) d"
    using st unfolding node_step_def by blast
  have len: "length (vnodes s') = length (vnodes s)" and now: "now_us s' = now_us s"
    using st by (auto simp: node_step_def sim_step_ok_def)
  have X: "pending {#c#} s = add_mset c (pending {#} s)" by (simp add: pending_def)
  have cnt: "count (pending {#} s') d = count (pending {#c#} s) d" if "is_proto d" for d
  proof -
    have "d \<noteq> c" using that c by auto
    then show ?thesis using count_not_proto[of M d] M that by (auto simp: X)
  qed
  have "\<forall>d \<in># pending {#} s'. cb_valid (length (vnodes s)) d"
    using inv(3) M by (auto simp: proto_inv_def X)
  then have "proto_inv {#} s'"
    using inv(3) same len now cnt unfolding proto_inv_def coord_same_def by auto
  then show ?thesis using st inv by (auto simp: world_inv_def node_step_def)
qed

lemma schedule_at_same: "schedule_at t cb d s = Inr s' \<Longrightarrow> coord_same s s'"
  using schedule_at_Inr[of t cb d s s'] by (simp add: coord_same_def)

lemma transmit_same: "transmit p air oc s = Inr s' \<Longrightarrow> coord_same s s'"
proof -
  assume tr: "transmit p air oc s = Inr s'"
  have col: "coord_same t (fold (collide tx) as t)" for tx as and t :: world
  proof (induction as arbitrary: t)
    case (Cons a as)
    have "coord_same t (collide tx a t)" by (simp add: collide_def record_event_def coord_same_def)
    then show ?case using Cons.IH[of "collide tx a t"] by (simp add: coord_same_def)
  qed simp
  let ?n = "length (transmissions s)"
  let ?s1 = "s\<lparr>transmissions := transmissions s @ [\<lparr>tx_packet = p, start_us = now_us s,
                   end_us = now_us s + air, collided = False\<rparr>]\<rparr>"
  have "coord_same s (fold (collide ?n) (active s) ?s1)"
    using col[of ?s1 ?n "active s"] by (simp add: coord_same_def)
  then show ?thesis
    using tr schedule_Inr(2) schedule_at_same unfolding transmit_def Let_def record_event_def
    by (fastforce simp: coord_same_def)
qed

lemma node_ops_same:
  "coord_same s (set_node i n s)" "coord_same s (node_event ev n pid d s)"
  "coord_same s (deadline_miss n p age st s)" "coord_same s (s\<lparr>next_packet_id := k\<rparr>)"
  "coord_same s (append_frame i p s)" "coord_same s (set_enabled i en s)" "coord_same s (voice_complete i p del s)"
  by (simp_all add: coord_same_def deadline_miss_def node_event_def record_event_def set_node_def
      append_frame_def set_enabled_def voice_complete_def Let_def)

lemma reschedule_same: "reschedule i cb what s = Inr s' \<Longrightarrow> coord_same s s'"
  by (auto simp: reschedule_def Let_def split: if_splits intro: schedule_at_same)

lemma generate_same: 
  assumes "generate i s = Inr s'" "i < length (vnodes s)"
  shows "coord_same s s'"
proof -
  obtain t where t: "(if vn_enabled (vnodes s ! i) then generate_frame i s else Inr s) = Inr t"
    "reschedule i (Generate i) '' next frame'' t = Inr s'"
    using assms(1) by (auto simp: generate_def bind_eq_Inr)
  have "coord_same s t" using t(1) generate_frame_Inr[OF _ assms(2), of t]
    by (auto simp: coord_same_def split: if_splits)
  then show ?thesis using reschedule_same[OF t(2)] by (rule coord_same_trans)
qed

lemma slot_same:
  assumes "slot i s = Inr s'"
  shows "coord_same s s'"
proof -
  obtain t where t: "(case vn_queue (vnodes s ! i) of
             p # rest \<Rightarrow> if vn_enabled (vnodes s ! i) then send_head i p rest s else Inr s
           | [] \<Rightarrow> Inr s) = Inr t" "reschedule i (Slot i) '' next slot'' t = Inr s'"
    using assms by (auto simp: slot_def bind_eq_Inr)
  have "coord_same s t" if "send_head i p rest s = Inr t" for p rest
    using that unfolding send_head_def Let_def bind_eq_Inr
    by (meson coord_same_trans node_ops_same(1,3) transmit_same)
  then have "coord_same s t" using t(1) by (auto split: if_splits list.splits)
  then show ?thesis using reschedule_same[OF t(2)] by (rule coord_same_trans)
qed

lemma finish_same: "finish rnd tx s = Inr (s', d, r) \<Longrightarrow> coord_same s s'"
  by (auto simp: finish_def outcome_event_def record_event_def Let_def coord_same_def
      split: option.splits if_splits)

text \<open>Scheduling one of the coordinator's callbacks: its count goes up by one.\<close>

lemma pending_add: "pending {#c#} s = add_mset c (pending {#} s)"
  by (simp add: pending_def)

lemma schedule_fields:
  "schedule d cb lab s = Inr s' \<Longrightarrow> vnodes s' = vnodes s \<and> now_us s' = now_us s"
  using schedule_at_Inr[OF schedule_Inr(2), of d cb lab s s'] by simp

lemma schedule_same: "schedule d cb lab s = Inr s' \<Longrightarrow> coord_same s s'"
  by (rule schedule_at_same[OF schedule_Inr(2)])

lemma heartbeat_world_inv:
  assumes hb: "heartbeat s = Inr s'" and inv: "world_inv {#Heartbeat#} s"
  shows "world_inv {#} s'"
proof -
  have m: "med_inv {#} s" using inv med_inv_drop_X by (auto simp: world_inv_def)
  have n: "net_inv s" and pr: "proto_inv {#Heartbeat#} s" using inv by (simp_all add: world_inv_def)
  obtain t where t: "schedule (heartbeat_interval_us (proto s)) Heartbeat '''' t = Inr s'"
    and c: "t = s \<or> (\<exists>air. transmit (heartbeat_packet s) air (HeartbeatCompletion (heartbeat_packet s))
         (s\<lparr>next_packet_id := next_packet_id s + 1\<rparr>) = Inr t)"
    using heartbeat_Inr[OF hb] by metis
  have "\<exists>M. med_inv {#} t \<and> net_inv t \<and> coord_same s t \<and> vnodes t = vnodes s \<and> now_us t = now_us s \<and>
      pending {#} t = M + pending {#} s \<and> (\<forall>d \<in># M. \<not> is_proto d \<and> cb_valid (length (vnodes s)) d)"
    using c
  proof
    assume "t = s" then show ?thesis using m n by (auto intro!: exI[of _ "{#}"])
  next
    assume "\<exists>air. transmit (heartbeat_packet s) air (HeartbeatCompletion (heartbeat_packet s))
         (s\<lparr>next_packet_id := next_packet_id s + 1\<rparr>) = Inr t"
    then obtain air where tr: "transmit (heartbeat_packet s) air (HeartbeatCompletion (heartbeat_packet s))
         (s\<lparr>next_packet_id := next_packet_id s + 1\<rparr>) = Inr t" ..
    have m': "med_inv {#} (s\<lparr>next_packet_id := next_packet_id s + 1\<rparr>)" using m by (simp add: med_inv_node_frame)
    note T = transmit_effect[OF tr m']
    have p: "packet_id (heartbeat_packet s) = next_packet_id s" "kind (heartbeat_packet s) \<noteq> VOICE"
      by (simp_all add: heartbeat_packet_def)
    have "pending {#} t = {#Finish (length (transmissions s)) (HeartbeatCompletion (heartbeat_packet s))#} + pending {#} s"
      using T(7)[of "{#}"] by (simp add: pending_def)
    moreover have "coord_same s t" using transmit_same[OF tr] by (simp add: coord_same_def)
    ultimately show ?thesis using transmit_heartbeat_net_inv[OF tr m n p] T(1,3)
      by (intro exI[of _ "{#Finish (length (transmissions s)) (HeartbeatCompletion (heartbeat_packet s))#}"]) auto
  qed
  then obtain M where M: "med_inv {#} t" "net_inv t" "coord_same s t" "vnodes t = vnodes s" "now_us t = now_us s"
    "pending {#} t = M + pending {#} s" "\<forall>d \<in># M. \<not> is_proto d \<and> cb_valid (length (vnodes s)) d" by blast
  have pend: "pending {#} s' = M + pending {#Heartbeat#} s"
    using pending_schedule[OF t, of "{#}"] M(6) by (simp add: pending_add)
  have cnt: "count M Heartbeat = 0" "count M CheckTimeout = 0" "count M Elect = 0"
    using count_not_proto M(7) by simp_all
  have same: "coord_same s s'" using M(3) schedule_same[OF t] by (rule coord_same_trans)
  have "proto_inv {#} s'"
    using pr same cnt M schedule_fields[OF t] unfolding proto_inv_def pend coord_same_def by auto
  moreover have "med_inv {#} s'" using med_inv_schedule[OF M(1) t] by simp
  moreover have "net_inv s'" using net_inv_schedule[OF M(2) t] .
  ultimately show ?thesis by (simp add: world_inv_def)
qed

lemma check_timeout_world_inv:
  assumes ct: "check_timeout s = Inr s'" and inv: "world_inv {#CheckTimeout#} s"
  shows "world_inv {#} s'"
proof -
  have m: "med_inv {#} s" using inv med_inv_drop_X by (auto simp: world_inv_def)
  have n: "net_inv s" and pr: "proto_inv {#CheckTimeout#} s" using inv by (simp_all add: world_inv_def)
  let ?s1 = "record_event ''heartbeat_timeout'' (Some (coordinator_id s)) None [] (s\<lparr>election_pending := True\<rparr>)"
  obtain t where t: "schedule (max 1 (heartbeat_interval_us (proto s) div 2)) CheckTimeout '''' t = Inr s'"
    and c: "t = s \<or> \<not> election_pending s \<and> schedule (election_delay_us (proto s)) Elect '''' ?s1 = Inr t"
    using ct by (auto simp: check_timeout_def bind_eq_Inr split: if_splits)
  have m0: "med_inv {#} (s\<lparr>election_pending := True\<rparr>)" using m by (subst med_inv_cong) simp_all
  have n0: "net_inv (s\<lparr>election_pending := True\<rparr>)" using n by (subst net_inv_cong) simp_all
  have m1: "med_inv {#} ?s1" using m0 by (rule med_inv_record)
  have n1: "net_inv ?s1" using n0 by (rule net_inv_record) (simp add: neutral_event_def)
  have fr: "vnodes ?s1 = vnodes s" "now_us ?s1 = now_us s" "nodes ?s1 = nodes s" "proto ?s1 = proto s"
    "last_heartbeat_us ?s1 = last_heartbeat_us s" "coordinator_id ?s1 = coordinator_id s" "election_pending ?s1"
    "pending {#} ?s1 = pending {#} s"
    by (simp_all add: record_event_def pending_def)
  have "med_inv {#} t \<and> net_inv t \<and> proto_inv {#CheckTimeout#} t"
    using c
  proof
    assume e: "\<not> election_pending s \<and> schedule (election_delay_us (proto s)) Elect '''' ?s1 = Inr t"
    then have sc: "schedule (election_delay_us (proto s)) Elect '''' ?s1 = Inr t" ..
    have "pending {#CheckTimeout#} t = add_mset Elect (pending {#CheckTimeout#} s)"
      using pending_schedule[OF sc, of "{#}"] fr by (simp add: pending_add)
    then have "proto_inv {#CheckTimeout#} t"
      using pr e schedule_fields[OF sc] schedule_same[OF sc] fr
      unfolding proto_inv_def coord_same_def by auto
    then show ?thesis using med_inv_schedule[OF m1 sc] net_inv_schedule[OF n1 sc] by simp
  qed (use m n pr in simp)
  then have M: "med_inv {#} t" "net_inv t" and P: "proto_inv {#CheckTimeout#} t" by auto
  have "pending {#} s' = pending {#CheckTimeout#} t"
    using pending_schedule[OF t, of "{#}"] by (simp add: pending_add)
  then have "proto_inv {#} s'"
    using P schedule_fields[OF t] schedule_same[OF t] unfolding proto_inv_def coord_same_def by auto
  then show ?thesis using med_inv_schedule[OF M(1) t] net_inv_schedule[OF M(2) t] by (simp add: world_inv_def)
qed

lemma enabled_ids_subset: "set (enabled_ids s) \<subseteq> fst ` set (nodes s)"
  by (auto simp: enabled_ids_def)

definition elected :: "int \<Rightarrow> world \<Rightarrow> world" where
  "elected w s = record_event ''coordinator_selected'' (Some w) None
     [(''previous_id'', DInt (coordinator_id s)), (''recovery_time_us'', DInt (election_delay_us (proto s)))]
     (s\<lparr>coordinator_id := w, last_heartbeat_us := now_us s\<rparr>)"

lemma elect_cases:
  "enabled_ids s = [] \<and> elect s = s\<lparr>election_pending := False\<rparr> \<or>
   (\<exists>w ws. enabled_ids s = w # ws \<and> elect s = (elected w s)\<lparr>election_pending := False\<rparr>)"
  by (cases "enabled_ids s") (simp_all add: elect_def Let_def elected_def)

lemma elected_frame:
  "med_inv X (elected w s) = med_inv X s" "net_inv s \<Longrightarrow> net_inv (elected w s)" "events (elected w s) = events s"
  "vnodes (elected w s) = vnodes s" "nodes (elected w s) = nodes s" "proto (elected w s) = proto s"
  "now_us (elected w s) = now_us s" "last_heartbeat_us (elected w s) = now_us s" "coordinator_id (elected w s) = w"
proof -
  show "med_inv X (elected w s) = med_inv X s" by (rule med_inv_cong) (simp_all add: elected_def record_event_def)
  show "net_inv (elected w s)" if "net_inv s"
    unfolding elected_def
  proof (rule net_inv_record)
    show "net_inv (s\<lparr>coordinator_id := w, last_heartbeat_us := now_us s\<rparr>)"
      using that by (subst net_inv_cong) simp_all
  qed (simp add: neutral_event_def)
qed (simp_all add: elected_def record_event_def)

lemma elect_frame:
  "med_inv X (elect s) = med_inv X s" "net_inv s \<Longrightarrow> net_inv (elect s)" "pending X (elect s) = pending X s"
  "vnodes (elect s) = vnodes s" "nodes (elect s) = nodes s" "proto (elect s) = proto s" "now_us (elect s) = now_us s"
  "election_pending (elect s) = False"
  "last_heartbeat_us (elect s) \<in> {last_heartbeat_us s, now_us s}"
  "coordinator_id (elect s) = coordinator_id s \<or> coordinator_id (elect s) \<in> fst ` set (nodes s)"
proof -
  have c: "med_inv X (t\<lparr>election_pending := False\<rparr>) = med_inv X t"
    "net_inv (t\<lparr>election_pending := False\<rparr>) = net_inv t" for t :: world
    by (rule med_inv_cong; simp) (rule net_inv_cong; simp)
  show "med_inv X (elect s) = med_inv X s" using elect_cases[of s] by (auto simp: c elected_frame)
  show "net_inv s \<Longrightarrow> net_inv (elect s)" using elect_cases[of s] by (auto simp: c elected_frame)
  show "pending X (elect s) = pending X s" using elect_cases[of s] by (intro pending_cong) (auto simp: elected_frame)
  show "vnodes (elect s) = vnodes s" "nodes (elect s) = nodes s" "proto (elect s) = proto s" "now_us (elect s) = now_us s"
    "election_pending (elect s) = False" "last_heartbeat_us (elect s) \<in> {last_heartbeat_us s, now_us s}"
    using elect_cases[of s] by (auto simp: elected_frame)
  show "coordinator_id (elect s) = coordinator_id s \<or> coordinator_id (elect s) \<in> fst ` set (nodes s)"
    using elect_cases[of s] enabled_ids_subset[of s] by (auto simp: elected_frame)
qed

lemma elect_world_inv:
  assumes "world_inv {#Elect#} s"
  shows "world_inv {#} (elect s)"
proof -
  have "med_inv {#} s" using assms med_inv_drop_X by (auto simp: world_inv_def)
  moreover have "count (pending {#} s) Elect = 0"
    using assms by (auto simp: world_inv_def proto_inv_def pending_add split: if_splits)
  moreover have "coordinator_id (elect s) = initial_coordinator_id (proto s) \<or>
      coordinator_id (elect s) \<in> fst ` set (nodes s)"
    using assms elect_frame(10)[of s] unfolding world_inv_def proto_inv_def by metis
  moreover have "last_heartbeat_us (elect s) \<le> now_us s"
    using assms elect_frame(9)[of s] unfolding world_inv_def proto_inv_def by auto
  ultimately show ?thesis
    using assms unfolding world_inv_def proto_inv_def by (simp add: elect_frame pending_add)
qed

lemma heartbeat_complete_world_inv:
  assumes "world_inv {#} s"
  shows "world_inv {#} (heartbeat_complete p delivered s)"
proof (cases delivered)
  case True
  let ?s1 = "s\<lparr>last_heartbeat_us := now_us s\<rparr>"
  have "med_inv {#} ?s1" using assms med_inv_cong[of ?s1 s "{#}"] by (simp add: world_inv_def)
  then have m: "med_inv {#} (heartbeat_complete p delivered s)"
    using True med_inv_record by (simp add: heartbeat_complete_def)
  have "net_inv ?s1" using assms net_inv_cong[of ?s1 s] by (simp add: world_inv_def)
  then have "net_inv (heartbeat_complete p delivered s)"
    using True net_inv_record[of ?s1 "''heartbeat_received''"]
    by (simp add: heartbeat_complete_def neutral_event_def)
  with m show ?thesis using assms True
    by (auto simp: world_inv_def heartbeat_complete_def proto_inv_def record_event_def pending_def)
qed (simp add: assms heartbeat_complete_def)

lemma node_cb_world_inv:
  assumes st: "node_step s s'" "coord_same s s'" and inv: "world_inv {#c#} s"
    and c: "\<not> is_proto c" "\<not> is_Finish c"
  shows "world_inv {#} s'"
proof -
  have "med_inv {#c#} s" "net_inv s" "proto_inv {#c#} s" using inv by (simp_all add: world_inv_def)
  then show ?thesis using node_step_world_inv[OF st _ _ _ c(1)] med_inv_drop_X[OF _ c(2)] by blast
qed

lemma complete_world_inv:
  assumes "world_inv {#} s"
  shows "world_inv {#} (complete oc delivered s)"
proof (cases oc)
  case (VoiceCompletion i p)
  let ?s' = "voice_complete i p delivered s"
  have st: "node_step s ?s'" by (rule voice_complete_node_step)
  have f: "vnodes ?s' = vnodes s" "nodes ?s' = nodes s" "proto ?s' = proto s" "now_us ?s' = now_us s"
    "election_pending ?s' = election_pending s" "last_heartbeat_us ?s' = last_heartbeat_us s"
    "coordinator_id ?s' = coordinator_id s" "events ?s' = events s"
    using node_ops_same(7)[of s i p delivered]
    by (auto simp: coord_same_def voice_complete_def deadline_miss_frame)
  have "proto_inv {#} ?s'"
    using assms unfolding world_inv_def proto_inv_def f pending_cong[OF f(8)] by simp
  then show ?thesis using st assms
    by (simp add: VoiceCompletion complete_def world_inv_def node_step_def)
qed (use assms heartbeat_complete_world_inv in \<open>simp_all add: complete_def\<close>)

lemma finish_world_inv:
  assumes fin: "finish rnd tx s = Inr (s', delivered, reason)" and inv: "world_inv {#Finish tx oc#} s"
  shows "world_inv {#} s'"
proof -
  have m: "med_inv {#Finish tx oc#} s" and n: "net_inv s" and pr: "proto_inv {#Finish tx oc#} s"
    using inv by (simp_all add: world_inv_def)
  note E = finish_effect[OF m n fin]
  have now: "now_us s' = now_us s" using finish_step[OF fin] by (simp add: sim_step_ok_def)
  have "pending {#} s' = pending {#} s" using E(3) by (rule pending_cong)
  then have "proto_inv {#} s'"
    using pr finish_same[OF fin] E(2) now unfolding proto_inv_def coord_same_def by (auto simp: pending_add)
  then show ?thesis using E(1) finish_med_inv[OF m fin] by (simp add: world_inv_def)
qed

lemma exec_world_inv:
  assumes ex: "exec rnd cb s = Inr s'" and inv: "world_inv {#cb#} s"
  shows "world_inv {#} s'"
proof -
  have valid: "cb_valid (length (vnodes s)) cb"
    using inv by (simp add: world_inv_def proto_inv_def pending_add)
  have drop: "\<not> is_Finish cb \<Longrightarrow> med_inv {#} s" using inv med_inv_drop_X by (auto simp: world_inv_def)
  have net: "net_inv s" using inv by (simp add: world_inv_def)
  show ?thesis
  proof (cases cb)
    case (Generate i)
    then have "generate i s = Inr s'" "i < length (vnodes s)" using ex valid by simp_all
    then show ?thesis
      using node_cb_world_inv[OF generate_node_step generate_same inv] by (simp add: Generate)
  next
    case (Slot i)
    then have "slot i s = Inr s'" "i < length (vnodes s)" "med_inv {#} s" using ex valid drop by simp_all
    then show ?thesis
      using node_cb_world_inv[OF slot_node_step slot_same inv] net by (simp add: Slot)
  next
    case (SetEnabled i en)
    then have "s' = set_enabled i en s" "i < length (vnodes s)" using ex valid by simp_all
    then show ?thesis
      using node_cb_world_inv[OF set_enabled_node_step node_ops_same(6) inv] by (simp add: SetEnabled)
  next
    case (Finish tx oc)
    then obtain s1 d r where fin: "finish rnd tx s = Inr (s1, d, r)" and s': "s' = complete oc d s1"
      using ex by (auto simp: bind_eq_Inr)
    have "world_inv {#} s1" using finish_world_inv[OF fin] inv Finish by simp
    then show ?thesis unfolding s' by (rule complete_world_inv)
  qed (use ex inv heartbeat_world_inv check_timeout_world_inv elect_world_inv in auto)
qed

text \<open>Hence every state between two callbacks satisfies the invariant, whatever the random draws.\<close>

lemma run_world_inv:
  assumes run: "run (exec rnd) until_us s = Some (Inr s')" and inv: "world_inv {#} s" "sim_inv s"
  shows "\<exists>t. run_loop (exec rnd) until_us s = Some (Inr t) \<and> s' = t\<lparr>now_us := until_us\<rparr> \<and>
     world_inv {#} t \<and> run_ok until_us s t \<and> now_us t \<le> until_us"
proof -
  from run obtain t where u: "now_us s \<le> until_us" and t: "run_loop (exec rnd) until_us s = Some (Inr t)"
    and s': "s' = t\<lparr>now_us := until_us\<rparr>"
    by (auto simp: run_def bind_eq_Inr split: if_splits)
  have "world_inv {#} t \<and> run_ok until_us s t"
    using t inv by (rule sim.run_loop_rule) (blast intro: exec_world_inv world_inv_after_pop)
  with u t s' show ?thesis by (auto simp: run_ok_def)
qed

end
