(* ===== verification/Metrics.thy ===== *)
theory Metrics
  imports Node
begin

text \<open>
  \<^verbatim>\<open>simulator/src/openref_sim/metrics.py\<close>: the summary of a trace.  \<^verbatim>\<open>write_trace_csv\<close> is file
  output and is not modelled.
\<close>

section \<open>Percentiles of a list of integers\<close>

definition py_index :: "'a list \<Rightarrow> int \<Rightarrow> 'a result" where
  "py_index xs i =
     (let count = int (length xs)
      in if i < - count \<or> count \<le> i then Inl IndexError
         else Inr (if 0 \<le> i then xs ! nat i else xs ! nat (count + i)))"

definition percentile_position :: "nat \<Rightarrow> pyfloat \<Rightarrow> (pyfloat \<times> int \<times> int) result" where
  "percentile_position n p =
     bind (float_of_int (int n - 1)) (\<lambda>m.
       let index = fmul m p
       in bind (py_floor index) (\<lambda>low. bind (py_ceil index) (\<lambda>high. Inr (index, low, high))))"

definition interpolate :: "pyfloat \<Rightarrow> pyfloat \<Rightarrow> pyfloat \<Rightarrow> pyfloat" where
  "interpolate a b fraction = fadd (fmul a (fsub (Fin 1) fraction)) (fmul b fraction)"

definition percentile :: "int list \<Rightarrow> pyfloat \<Rightarrow> pyfloat option result" where
  "percentile values p =
     (if values = [] then Inr None
      else let ordered = sort values
        in bind (percentile_position (length ordered) p) (\<lambda>(index, low, high).
             if low = high then bind (py_index ordered low) (\<lambda>v. bind (float_of_int v) (Inr \<circ> Some))
             else bind (float_of_int low) (\<lambda>lowf.
                  bind (bind (py_index ordered low) float_of_int) (\<lambda>a.
                  bind (bind (py_index ordered high) float_of_int) (\<lambda>b.
                    Inr (Some (interpolate a b (fsub index lowf))))))))"

section \<open>The summary\<close>

record summary =
  generated :: nat
  delivered :: nat
  sm_collided :: nat
  randomly_lost :: nat
  queue_overflows :: nat
  audio_deadline_misses :: nat
  delivery_ratio :: "pyfloat option"
  mean_latency_us :: "pyfloat option"
  p95_latency_us :: "pyfloat option"
  p99_latency_us :: "pyfloat option"
  max_latency_us :: "int option"
  sm_max_queue_depth :: int
  coordinator_changes :: nat
  coordinator_recovery_time_us :: "int option"

fun detail_int :: "detail \<Rightarrow> int result" where
  "detail_int (DInt n) = Inr n"
| "detail_int (DStr s) = parse_int s"
| "detail_int DNone = Inl TypeError"

definition detail_at :: "trace_event \<Rightarrow> string \<Rightarrow> int result" where
  "detail_at e k = bind (of_option (KeyError k) (map_of (te_details e) k)) detail_int"

definition detail_get :: "trace_event \<Rightarrow> string \<Rightarrow> int \<Rightarrow> int result" where
  "detail_get e k v = detail_int (case map_of (te_details e) k of None \<Rightarrow> DInt v | Some d \<Rightarrow> d)"

definition is_coordinator_change :: "trace_event \<Rightarrow> bool" where
  "is_coordinator_change e \<longleftrightarrow> te_event e = ''coordinator_selected'' \<and>
     (case map_of (te_details e) ''previous_id'' of None \<Rightarrow> False | Some DNone \<Rightarrow> False | _ \<Rightarrow> True)"

definition max_opt :: "int list \<Rightarrow> int option" where
  "max_opt xs = (if xs = [] then None else Some (Max (set xs)))"

definition ratio_opt :: "int \<Rightarrow> nat \<Rightarrow> pyfloat option result" where
  "ratio_opt a n = (if n = 0 then Inr None else bind (int_truediv a (int n)) (Inr \<circ> Some))"

definition p95 :: pyfloat where "p95 = to_float (95 / 100)"
definition p99 :: pyfloat where "p99 = to_float (99 / 100)"

definition summarize :: "trace_event list \<Rightarrow> summary result" where
  "summarize tr =
     (let gen = ev_count ''voice_frame_generated'' tr;
          delivered_events = filter (is_voice_event ''packet_delivered'') tr;
          changes = filter is_coordinator_change tr
      in bind (map_res (\<lambda>e. detail_at e ''latency_us'') delivered_events) (\<lambda>latencies.
         bind (map_res (\<lambda>e. detail_at e ''depth'') (filter (\<lambda>e. te_event e = ''queue_depth'') tr)) (\<lambda>depths.
         bind (ratio_opt (int (length delivered_events)) gen) (\<lambda>ratio.
         bind (ratio_opt (sum_list latencies) (length latencies)) (\<lambda>mean.
         bind (percentile latencies p95) (\<lambda>l95.
         bind (percentile latencies p99) (\<lambda>l99.
         bind (map_res (\<lambda>e. detail_get e ''recovery_time_us'' 0) changes) (\<lambda>recoveries.
           Inr \<lparr>generated = gen, delivered = length delivered_events,
                sm_collided = voice_count ''packet_collided'' tr,
                randomly_lost = voice_count ''packet_lost'' tr,
                queue_overflows = ev_count ''queue_overflow'' tr,
                audio_deadline_misses = ev_count ''audio_deadline_miss'' tr,
                delivery_ratio = ratio, mean_latency_us = mean, p95_latency_us = l95, p99_latency_us = l99,
                max_latency_us = max_opt latencies,
                sm_max_queue_depth = (case max_opt depths of None \<Rightarrow> 0 | Some d \<Rightarrow> d),
                coordinator_changes = length changes,
                coordinator_recovery_time_us = max_opt recoveries\<rparr>))))))))"

section \<open>Facts\<close>

lemma summarize_counts:
  assumes "summarize tr = Inr sm"
  shows "generated sm = ev_count ''voice_frame_generated'' tr"
    "delivered sm = voice_count ''packet_delivered'' tr"
    "sm_collided sm = voice_count ''packet_collided'' tr"
    "randomly_lost sm = voice_count ''packet_lost'' tr"
    "queue_overflows sm = ev_count ''queue_overflow'' tr"
    "ratio_opt (int (delivered sm)) (generated sm) = Inr (delivery_ratio sm)"
  using assms
  by (auto simp: summarize_def Let_def bind_eq_Inr voice_count_def)

lemma ratio_opt_unit:
  assumes "ratio_opt (int a) n = Inr r" "a \<le> n"
  shows "case r of None \<Rightarrow> n = 0 | Some f \<Rightarrow> fle (Fin 0) f \<and> fle f (Fin 1)"
proof (cases "n = 0")
  case True
  with assms show ?thesis by (simp add: ratio_opt_def)
next
  case False
  have "(0::rat) \<le> of_int (int a) / of_int (int n)" "(of_int (int a) / of_int (int n) :: rat) \<le> 1"
    using assms(2) False by simp_all
  from to_float_unit[OF this] obtain q where "to_float (of_int (int a) / of_int (int n)) = Fin q" "0 \<le> q" "q \<le> 1"
    by blast
  with assms False show ?thesis by (auto simp: ratio_opt_def int_truediv_def)
qed

lemma position_bounds:
  assumes "percentile_position n p = Inr (index, low, high)"
  shows "low \<le> high" "high \<le> low + 1"
proof -
  obtain x where x: "index = Fin x" "low = \<lfloor>x\<rfloor>" "high = \<lceil>x\<rceil>"
    using assms unfolding percentile_position_def Let_def bind_eq_Inr py_floor_def py_ceil_def
    by (auto elim!: to_integral.elims)
  show "low \<le> high" using x(2,3) by linarith
  show "high \<le> low + 1" using x(2,3) by linarith
qed

end
