(* ===== verification/Scenario.thy ===== *)
theory Scenario
  imports Py_Value Wire_Packet
begin

text \<open>
  \<^verbatim>\<open>simulator/src/openref_sim/scenario.py\<close> and \<^verbatim>\<open>capacity.py\<close>: the scenario record, its derived
  quantities, the reader of a scenario document (the value \<^verbatim>\<open>yaml.safe_load\<close> returned is the
  argument \<open>data\<close>) and the analytical capacity estimate.
\<close>

section \<open>Scenario data\<close>

record node_spec =
  ns_node_id :: int
  ns_drift_ppm :: pyfloat

record fault_spec =
  fs_action :: string
  fs_time_us :: int
  fs_node_id :: "int option"
  fs_duration_us :: int
  fs_probability :: "pyfloat option"

record scenario =
  sc_name :: string
  duration_seconds :: pyfloat
  sc_nodes :: "node_spec list"
  frame_duration_ms :: pyfloat
  encoded_bitrate_bps :: int
  radio_bitrate_bps :: int
  sc_overhead_bytes :: int
  security_overhead_bytes :: int
  fixed_length_packets :: bool
  sc_preamble_us :: int
  slot_spacing_us :: int
  schedule_slots :: int
  sc_propagation_delay_us :: int
  random_seed :: int
  packet_loss_probability :: pyfloat
  sc_max_queue_frames :: int
  audio_deadline_ms :: pyfloat
  heartbeat_interval_ms :: pyfloat
  heartbeat_timeout_ms :: pyfloat
  election_delay_ms :: pyfloat
  sc_initial_coordinator_id :: int
  sc_faults :: "fault_spec list"

section \<open>Derived quantities\<close>

definition node_count :: "scenario \<Rightarrow> int" where
  "node_count sc = int (length (sc_nodes sc))"

text \<open>\<^verbatim>\<open>round(x * k)\<close> for a float \<open>x\<close> and an integer literal \<open>k\<close> (exact as a float).\<close>

definition round_scaled :: "pyfloat \<Rightarrow> int \<Rightarrow> int result" where
  "round_scaled x k = py_round (fmul x (fint k))"

definition frame_interval_us :: "scenario \<Rightarrow> int result" where
  "frame_interval_us sc = round_scaled (frame_duration_ms sc) 1000"

definition scenario_payload_bytes :: "scenario \<Rightarrow> int result" where
  "scenario_payload_bytes sc =
     bind (float_of_int (encoded_bitrate_bps sc)) (\<lambda>rate.
     bind (fdiv (fmul rate (frame_duration_ms sc)) (fint 1000)) (\<lambda>bits.
     bind (fdiv bits (fint 8)) py_round))"

definition wire_payload_bytes :: "scenario \<Rightarrow> int result" where
  "wire_payload_bytes sc =
     bind (scenario_payload_bytes sc) (\<lambda>p. Inr (p + security_overhead_bytes sc))"

definition heartbeat_wire_payload_bytes :: "scenario \<Rightarrow> int result" where
  "heartbeat_wire_payload_bytes sc =
     bind (if fixed_length_packets sc then scenario_payload_bytes sc else Inr 8) (\<lambda>plaintext.
       Inr (plaintext + security_overhead_bytes sc))"

definition duration_us :: "scenario \<Rightarrow> int result" where
  "duration_us sc = round_scaled (duration_seconds sc) 1000000"

definition audio_deadline_us :: "scenario \<Rightarrow> int result" where
  "audio_deadline_us sc = round_scaled (audio_deadline_ms sc) 1000"

definition sc_heartbeat_interval_us :: "scenario \<Rightarrow> int result" where
  "sc_heartbeat_interval_us sc = round_scaled (heartbeat_interval_ms sc) 1000"

definition sc_heartbeat_timeout_us :: "scenario \<Rightarrow> int result" where
  "sc_heartbeat_timeout_us sc = round_scaled (heartbeat_timeout_ms sc) 1000"

definition sc_election_delay_us :: "scenario \<Rightarrow> int result" where
  "sc_election_delay_us sc = round_scaled (election_delay_ms sc) 1000"

section \<open>Reading a scenario document\<close>

definition node_of_item :: "pyval \<Rightarrow> node_spec result" where
  "node_of_item item =
     bind (bind (getitem item ''id'') py_int) (\<lambda>nid.
     bind (bind (get_default item ''drift_ppm'' (PFloat (Fin 0))) py_float) (\<lambda>drift.
       Inr \<lparr>ns_node_id = nid, ns_drift_ppm = drift\<rparr>))"

text \<open>\<^verbatim>\<open>isinstance(raw, int)\<close> holds of a \<^verbatim>\<open>bool\<close> too, and \<^verbatim>\<open>range\<close> of it counts to 0 or 1.\<close>

definition count_nodes :: "int \<Rightarrow> node_spec list" where
  "count_nodes n = map (\<lambda>i. \<lparr>ns_node_id = i + 1, ns_drift_ppm = Fin 0\<rparr>) [0..n - 1]"

fun nodes_of :: "pyval \<Rightarrow> node_spec list result" where
  "nodes_of (PInt n) = Inr (count_nodes n)"
| "nodes_of (PBool b) = Inr (count_nodes (if b then 1 else 0))"
| "nodes_of raw = bind (py_iter raw) (map_res node_of_item)"

definition fault_of_item :: "(pyval \<Rightarrow> string) \<Rightarrow> pyval \<Rightarrow> fault_spec result" where
  "fault_of_item show item =
     bind (getitem item ''action'') (\<lambda>action.
     bind (get_default item ''start_seconds'' (PInt 0)) (\<lambda>start.
     bind (get_default item ''time_seconds'' start) (\<lambda>tm.
     bind (bind (py_float tm) (\<lambda>f. round_scaled f 1000000)) (\<lambda>time_us.
     bind (contains_key item ''node_id'') (\<lambda>has_node.
     bind (if has_node then bind (bind (getitem item ''node_id'') py_int) (\<lambda>i. Inr (Some i)) else Inr None) (\<lambda>nid.
     bind (get_default item ''duration_seconds'' (PInt 0)) (\<lambda>dur.
     bind (bind (py_float dur) (\<lambda>f. round_scaled f 1000000)) (\<lambda>duration.
     bind (contains_key item ''probability'') (\<lambda>has_prob.
     bind (if has_prob then bind (bind (getitem item ''probability'') py_float) (\<lambda>p. Inr (Some p)) else Inr None) (\<lambda>prob.
       Inr \<lparr>fs_action = py_str show action, fs_time_us = time_us, fs_node_id = nid,
            fs_duration_us = duration, fs_probability = prob\<rparr>))))))))))"

definition faults_of :: "(pyval \<Rightarrow> string) \<Rightarrow> pyval \<Rightarrow> fault_spec list result" where
  "faults_of show raw =
     (if py_truth raw then bind (py_iter raw) (map_res (fault_of_item show)) else Inr [])"

definition item2 :: "pyval \<Rightarrow> string \<Rightarrow> string \<Rightarrow> pyval result" where
  "item2 data a b = bind (getitem data a) (\<lambda>x. getitem x b)"

definition opt2 :: "pyval \<Rightarrow> string \<Rightarrow> string \<Rightarrow> pyval \<Rightarrow> pyval result" where
  "opt2 data a b v = bind (getitem data a) (\<lambda>x. get_default x b v)"

definition load_scenario :: "(pyval \<Rightarrow> string) \<Rightarrow> pyval \<Rightarrow> scenario result" where
  "load_scenario show data =
     bind (get_default data ''protocol'' (PDict [])) (\<lambda>protocol.
     bind (getitem data ''name'') (\<lambda>name.
     bind (bind (getitem data ''duration_seconds'') py_float) (\<lambda>duration.
     bind (bind (getitem data ''nodes'') nodes_of) (\<lambda>nodes.
     bind (bind (item2 data ''audio'' ''frame_duration_ms'') py_float) (\<lambda>frame.
     bind (bind (item2 data ''audio'' ''encoded_bitrate_bps'') py_int) (\<lambda>encoded.
     bind (bind (item2 data ''radio'' ''bitrate_bps'') py_int) (\<lambda>radio.
     bind (bind (opt2 data ''radio'' ''overhead_bytes'' (PInt 16)) py_int) (\<lambda>overhead.
     bind (bind (opt2 data ''radio'' ''security_overhead_bytes'' (PInt 0)) py_int) (\<lambda>security.
     bind (opt2 data ''radio'' ''fixed_length_packets'' (PBool False)) (\<lambda>fixed.
     bind (bind (opt2 data ''radio'' ''preamble_us'' (PInt 0)) py_int) (\<lambda>preamble.
     bind (bind (item2 data ''schedule'' ''slot_spacing_us'') py_int) (\<lambda>slot.
     bind (bind (opt2 data ''schedule'' ''total_slots'' (PInt (int (length nodes)))) py_int) (\<lambda>slots.
     bind (bind (opt2 data ''radio'' ''propagation_delay_us'' (PInt 2)) py_int) (\<lambda>prop.
     bind (bind (get_default data ''random_seed'' (PInt 1)) py_int) (\<lambda>seed.
     bind (bind (opt2 data ''radio'' ''packet_loss_probability'' (PFloat (Fin 0))) py_float) (\<lambda>loss.
     bind (bind (opt2 data ''audio'' ''max_queue_frames'' (PInt 4)) py_int) (\<lambda>maxq.
     bind (bind (opt2 data ''audio'' ''deadline_ms'' (PFloat (Fin 100))) py_float) (\<lambda>deadline.
     bind (bind (get_default protocol ''heartbeat_interval_ms'' (PFloat (Fin 100))) py_float) (\<lambda>hb_interval.
     bind (bind (get_default protocol ''heartbeat_timeout_ms'' (PFloat (Fin 300))) py_float) (\<lambda>hb_timeout.
     bind (bind (get_default protocol ''election_delay_ms'' (PFloat (Fin 50))) py_float) (\<lambda>election.
     bind (bind (get_default protocol ''initial_coordinator_id'' (PInt 1)) py_int) (\<lambda>coordinator.
     bind (bind (get_default data ''faults'' PNone) (faults_of show)) (\<lambda>faults.
       Inr \<lparr>sc_name = py_str show name, duration_seconds = duration, sc_nodes = nodes,
            frame_duration_ms = frame, encoded_bitrate_bps = encoded, radio_bitrate_bps = radio,
            sc_overhead_bytes = overhead, security_overhead_bytes = security,
            fixed_length_packets = py_truth fixed, sc_preamble_us = preamble,
            slot_spacing_us = slot, schedule_slots = slots, sc_propagation_delay_us = prop,
            random_seed = seed, packet_loss_probability = loss, sc_max_queue_frames = maxq,
            audio_deadline_ms = deadline, heartbeat_interval_ms = hb_interval,
            heartbeat_timeout_ms = hb_timeout, election_delay_ms = election,
            sc_initial_coordinator_id = coordinator, sc_faults = faults\<rparr>)))))))))))))))))))))))"

section \<open>Capacity\<close>

record capacity_estimate =
  ce_voice_airtime_us :: int
  ce_heartbeat_airtime_us :: int
  voice_channel_utilization :: pyfloat
  heartbeat_channel_utilization :: pyfloat
  ce_scheduled_channel_utilization :: pyfloat
  ce_slot_guard_us :: int
  ce_schedule_span_us :: int

definition estimate_capacity :: "scenario \<Rightarrow> capacity_estimate result" where
  "estimate_capacity sc =
     bind (bind (wire_payload_bytes sc) (\<lambda>p.
        packet_airtime_us p (radio_bitrate_bps sc) (sc_overhead_bytes sc) (sc_preamble_us sc))) (\<lambda>voice_airtime.
     bind (bind (heartbeat_wire_payload_bytes sc) (\<lambda>p.
        packet_airtime_us p (radio_bitrate_bps sc) (sc_overhead_bytes sc) (sc_preamble_us sc))) (\<lambda>heartbeat_airtime.
     bind (bind (frame_interval_us sc) (\<lambda>f. int_truediv (node_count sc * voice_airtime) f)) (\<lambda>voice_utilization.
     bind (bind (sc_heartbeat_interval_us sc) (int_truediv heartbeat_airtime)) (\<lambda>heartbeat_utilization.
       Inr \<lparr>ce_voice_airtime_us = voice_airtime, ce_heartbeat_airtime_us = heartbeat_airtime,
            voice_channel_utilization = voice_utilization,
            heartbeat_channel_utilization = heartbeat_utilization,
            ce_scheduled_channel_utilization = fadd voice_utilization heartbeat_utilization,
            ce_slot_guard_us = slot_spacing_us sc - voice_airtime,
            ce_schedule_span_us = (schedule_slots sc - 1) * slot_spacing_us sc + voice_airtime\<rparr>))))"

section \<open>Facts\<close>

lemma count_nodes_ids: "map ns_node_id (count_nodes n) = [1..n]"
proof -
  have "map (\<lambda>i. i + 1) [0..n - 1] = [1..n]"
    by (rule nth_equalityI) (auto simp: nth_upto)
  then show ?thesis by (simp add: count_nodes_def comp_def)
qed

lemma estimate_capacity_Inr:
  assumes "estimate_capacity sc = Inr ce"
  obtains p f where "wire_payload_bytes sc = Inr p" "frame_interval_us sc = Inr f" "f \<noteq> 0"
    and "packet_airtime_us p (radio_bitrate_bps sc) (sc_overhead_bytes sc) (sc_preamble_us sc)
           = Inr (ce_voice_airtime_us ce)"
    and "ce_slot_guard_us ce = slot_spacing_us sc - ce_voice_airtime_us ce"
    and "ce_schedule_span_us ce = (schedule_slots sc - 1) * slot_spacing_us sc + ce_voice_airtime_us ce"
  using assms by (auto simp: estimate_capacity_def bind_eq_Inr int_truediv_def split: if_splits)

text \<open>Slot windows of length \<open>a\<close> that start every \<open>s \<ge> a\<close> and whose span fits in the frame \<open>f\<close> never
  meet, within a frame or across frames.\<close>

lemma slots_disjoint:
  fixes s a f m :: int
  assumes "a \<le> s" and span: "(m - 1) * s + a \<le> f"
    and ij: "0 \<le> i" "i < m" "0 \<le> j" "j < m" and "0 \<le> a"
    and lex: "k < l \<or> k = l \<and> i < j"
  shows "k * f + i * s + a \<le> l * f + j * s"
proof (cases "k = l")
  case True
  with lex have "i + 1 \<le> j" by auto
  then have "(i + 1) * s \<le> j * s" using assms by (intro mult_right_mono) auto
  with True \<open>a \<le> s\<close> show ?thesis by (simp add: algebra_simps)
next
  case False
  with lex have "k + 1 \<le> l" by auto
  have "0 \<le> (m - 1) * s" using ij assms by (intro mult_nonneg_nonneg) auto
  then have "0 \<le> f" using span \<open>0 \<le> a\<close> by linarith
  then have "(k + 1) * f \<le> l * f" using \<open>k + 1 \<le> l\<close> by (intro mult_right_mono) auto
  moreover have "i * s \<le> (m - 1) * s" using ij assms by (intro mult_right_mono) auto
  moreover have "0 \<le> j * s" using ij assms by (intro mult_nonneg_nonneg) auto
  ultimately show ?thesis using span by (simp add: algebra_simps)
qed

end
