(* ===== verification/Run.thy ===== *)
theory Run
  imports Protocol Metrics Scenario
begin

text \<open>
  \<^verbatim>\<open>simulator/src/openref_sim/run.py\<close>: the assembly of a simulation from a scenario, its run and
  its summary.  The world is created with placeholder coordinator fields (\<open>no_coordinator\<close>), which
  no callback can read before \<open>attach_coordinator\<close> has filled them.
\<close>

section \<open>Assembling the world\<close>

definition voice_config_of :: "scenario \<Rightarrow> voice_config result" where
  "voice_config_of sc =
     bind (frame_interval_us sc) (\<lambda>frame. bind (wire_payload_bytes sc) (\<lambda>payload.
     bind (duration_us sc) (\<lambda>stop. bind (audio_deadline_us sc) (\<lambda>deadline.
       Inr \<lparr>vc_frame_interval_us = frame, vc_payload_bytes = payload,
            vc_bitrate_bps = radio_bitrate_bps sc, vc_overhead_bytes = sc_overhead_bytes sc,
            vc_preamble_us = sc_preamble_us sc, stop_generation_at_us = stop,
            max_queue_frames = sc_max_queue_frames sc, deadline_us = deadline\<rparr>))))"

definition coordinator_config_of :: "scenario \<Rightarrow> coordinator_config result" where
  "coordinator_config_of sc =
     bind (sc_heartbeat_interval_us sc) (\<lambda>interval. bind (sc_heartbeat_timeout_us sc) (\<lambda>timeout.
     bind (sc_election_delay_us sc) (\<lambda>delay. bind (heartbeat_wire_payload_bytes sc) (\<lambda>payload.
       Inr \<lparr>initial_coordinator_id = sc_initial_coordinator_id sc, heartbeat_interval_us = interval,
            heartbeat_timeout_us = timeout, election_delay_us = delay,
            cc_bitrate_bps = radio_bitrate_bps sc, cc_overhead_bytes = sc_overhead_bytes sc,
            cc_preamble_us = sc_preamble_us sc, heartbeat_payload_bytes = payload,
            first_heartbeat_delay_us = 16000\<rparr>))))"

definition no_coordinator :: coordinator_config where
  "no_coordinator = \<lparr>initial_coordinator_id = 0, heartbeat_interval_us = 0, heartbeat_timeout_us = 0,
     election_delay_us = 0, cc_bitrate_bps = 0, cc_overhead_bytes = 0, cc_preamble_us = 0,
     heartbeat_payload_bytes = 0, first_heartbeat_delay_us = 0\<rparr>"

definition new_world :: "scenario \<Rightarrow> world" where
  "new_world sc = \<lparr>now_us = 0, events = [], next_order = 0, trace = [],
     propagation_delay_us = sc_propagation_delay_us sc, base_loss = packet_loss_probability sc,
     loss_windows = [], active = [], transmissions = [], draws = 0,
     vnodes = [], next_packet_id = 1,
     proto = no_coordinator, nodes = [], coordinator_id = 0, last_heartbeat_us = 0, election_pending = False\<rparr>"

definition add_node :: "voice_config \<Rightarrow> scenario \<Rightarrow> nat \<times> node_spec \<Rightarrow> world \<Rightarrow> world result" where
  "add_node voice sc = (\<lambda>(index, spec) s.
     bind (new_voice_node \<lparr>nc_node_id = ns_node_id spec,
             nc_slot_offset_us = int index * slot_spacing_us sc, nc_drift_ppm = ns_drift_ppm spec\<rparr> voice) (\<lambda>node.
       let i = length (vnodes s)
       in start_node i (s\<lparr>vnodes := vnodes s @ [node], nodes := dict_set (ns_node_id spec) i (nodes s)\<rparr>)))"

definition attach_coordinator :: "coordinator_config \<Rightarrow> world \<Rightarrow> world" where
  "attach_coordinator config s =
     s\<lparr>proto := config, coordinator_id := initial_coordinator_id config, last_heartbeat_us := 0,
       election_pending := False\<rparr>"

definition require_fault_node :: "world \<Rightarrow> fault_spec \<Rightarrow> nat result" where
  "require_fault_node s fault =
     of_option (ValueError ''Fault references unknown node_id'')
       (case fs_node_id fault of None \<Rightarrow> None | Some k \<Rightarrow> map_of (nodes s) k)"

definition schedule_fault :: "fault_spec \<Rightarrow> world \<Rightarrow> world result" where
  "schedule_fault fault s =
     (if fs_action fault = ''disable_node''
      then bind (require_fault_node s fault) (\<lambda>n. schedule_at (fs_time_us fault) (SetEnabled n False) ''disable node'' s)
      else if fs_action fault = ''enable_node''
      then bind (require_fault_node s fault) (\<lambda>n. schedule_at (fs_time_us fault) (SetEnabled n True) ''enable node'' s)
      else if fs_action fault = ''packet_loss''
      then (case fs_probability fault of
              None \<Rightarrow> Inl (ValueError ''packet_loss faults require probability'')
            | Some p \<Rightarrow> Inr (add_loss_window (fs_time_us fault) (fs_duration_us fault) p s))
      else Inl (ValueError ''Unknown fault action''))"

definition schedule_faults :: "fault_spec list \<Rightarrow> world \<Rightarrow> world result" where
  "schedule_faults faults s = fold_res schedule_fault faults s"

definition build_world :: "scenario \<Rightarrow> world result" where
  "build_world sc =
     bind (voice_config_of sc) (\<lambda>voice.
     bind (fold_res (add_node voice sc) (zip [0..<length (sc_nodes sc)] (sc_nodes sc)) (new_world sc)) (\<lambda>s1.
     bind (coordinator_config_of sc) (\<lambda>config.
     bind (start_protocol (attach_coordinator config s1)) (schedule_faults (sc_faults sc)))))"

record run_result =
  final_world :: world
  rr_summary :: summary
  rr_capacity :: capacity_estimate

text \<open>\<^verbatim>\<open>run_scenario\<close>: \<open>None\<close> when the event loop does not end.\<close>

definition run_scenario :: "(int \<Rightarrow> nat \<Rightarrow> pyfloat) \<Rightarrow> scenario \<Rightarrow> run_result result option" where
  "run_scenario random sc =
     (case bind (build_world sc) (\<lambda>s. bind (estimate_capacity sc) (\<lambda>capacity.
             bind (duration_us sc) (\<lambda>duration. Inr (s, capacity, duration)))) of
        Inl e \<Rightarrow> Some (Inl e)
      | Inr (s, capacity, duration) \<Rightarrow>
          map_option (\<lambda>r. bind r (\<lambda>s'. bind (summarize (trace s')) (\<lambda>sm.
              Inr \<lparr>final_world = s', rr_summary = sm, rr_capacity = capacity\<rparr>)))
            (run (exec (random (random_seed sc))) (duration + ce_voice_airtime_us capacity) s))"

section \<open>The assembled world satisfies the invariant\<close>

definition setup_inv :: "world \<Rightarrow> bool" where
  "setup_inv s \<longleftrightarrow> sim_inv s \<and> med_inv {#} s \<and> net_inv s \<and> now_us s = 0 \<and>
     (\<forall>c \<in># pending {#} s. cb_valid (length (vnodes s)) c \<and> \<not> is_proto c) \<and>
     (\<forall>(k, i) \<in> set (nodes s). i < length (vnodes s))"

lemma setup_inv_new: "setup_inv (new_world sc)"
  by (simp add: setup_inv_def new_world_def sim_inv_def med_inv_def net_inv_def pending_def heap_ok_def
      accounted_def queued_def voice_in_flight_def live_ids_def)

lemma cb_valid_mono: "cb_valid k c \<Longrightarrow> k \<le> l \<Longrightarrow> cb_valid l c"
proof (cases c)
  case (Finish r oc)
  then show "cb_valid k c \<Longrightarrow> k \<le> l \<Longrightarrow> cb_valid l c" by (cases oc) auto
qed auto

lemma node_step_setup_inv:
  assumes st: "node_step s s'" "coord_same s s'" and inv: "setup_inv s"
  shows "setup_inv s'"
proof -
  obtain M where M: "pending {#} s' = M + pending {#} s"
    "\<forall>d \<in># M. \<not> is_proto d \<and> cb_valid (length (vnodes s)) d"
    using st(1) unfolding node_step_def by blast
  moreover have "sim_inv s'" "now_us s' = now_us s" "med_inv {#} s'" "net_inv s'" "length (vnodes s') = length (vnodes s)"
    using st(1) inv by (auto simp: node_step_def sim_step_ok_def setup_inv_def)
  ultimately show ?thesis using inv st(2) by (auto simp: setup_inv_def coord_same_def)
qed

lemma new_voice_node_ok:
  assumes "new_voice_node c v = Inr n"
  shows "node_ok now n" "vn_queue n = []" "vn_voice n = v" "vn_config n = c"
  using assms by (auto simp: new_voice_node_def bind_eq_Inr local_period_def node_ok_def)

lemma add_node_setup_inv:
  assumes add: "add_node voice sc ix s = Inr s'" and inv: "setup_inv s"
  shows "setup_inv s'"
proof -
  obtain index spec where ix: "ix = (index, spec)" by (cases ix)
  obtain node where node: "new_voice_node \<lparr>nc_node_id = ns_node_id spec,
      nc_slot_offset_us = int index * slot_spacing_us sc, nc_drift_ppm = ns_drift_ppm spec\<rparr> voice = Inr node"
    and st: "start_node (length (vnodes s))
      (s\<lparr>vnodes := vnodes s @ [node], nodes := dict_set (ns_node_id spec) (length (vnodes s)) (nodes s)\<rparr>) = Inr s'"
    using add by (auto simp: add_node_def ix Let_def bind_eq_Inr)
  let ?s = "s\<lparr>vnodes := vnodes s @ [node], nodes := dict_set (ns_node_id spec) (length (vnodes s)) (nodes s)\<rparr>"
  note N = new_voice_node_ok[OF node]
  have acc: "accounted ?s = accounted s" "live_ids ?s = live_ids s"
    using N(2) by (simp_all add: accounted_def queued_def voice_in_flight_def live_ids_def)
  have "net_inv ?s" using inv N(1) acc by (auto simp: net_inv_def setup_inv_def)
  moreover have "med_inv {#} ?s = med_inv {#} s" by (rule med_inv_cong) simp_all
  moreover have "sim_inv ?s = sim_inv s" by (simp add: sim_inv_def)
  moreover have "\<forall>c \<in># pending {#} ?s. cb_valid (length (vnodes ?s)) c \<and> \<not> is_proto c"
    using inv cb_valid_mono by (auto simp: setup_inv_def pending_def)
  moreover have "\<forall>(k, i) \<in> set (nodes ?s). i < length (vnodes ?s)"
    using inv by (auto simp: setup_inv_def dest!: dict_set_vals)
  ultimately have "setup_inv ?s" using inv by (simp add: setup_inv_def)
  moreover have "node_step ?s s'" using start_node_node_step[OF st] by simp
  moreover have "coord_same ?s s'"
    using st unfolding start_node_def Let_def bind_eq_Inr
    by (meson coord_same_trans schedule_at_same)
  ultimately show ?thesis by (blast intro: node_step_setup_inv)
qed

lemma start_protocol_world_inv:
  assumes st: "start_protocol (attach_coordinator cfg s) = Inr s'" and inv: "setup_inv s"
  shows "world_inv {#} s'" and "sim_inv s'" and "now_us s' = 0"
proof -
  let ?a = "attach_coordinator cfg s"
  let ?r = "record_event ''coordinator_selected'' (Some (coordinator_id ?a)) None [(''previous_id'', DNone)] ?a"
  obtain t where t: "schedule (first_heartbeat_delay_us (proto ?a)) Heartbeat '''' ?r = Inr t"
    and s': "schedule (heartbeat_timeout_us (proto ?a)) CheckTimeout '''' t = Inr s'"
    using st by (auto simp: start_protocol_def Let_def bind_eq_Inr)
  have "med_inv {#} ?a" using inv med_inv_cong[of ?a s "{#}"] by (simp add: setup_inv_def attach_coordinator_def)
  then have m: "med_inv {#} ?r" by (rule med_inv_record)
  have "net_inv ?a" using inv net_inv_cong[of ?a s] by (simp add: setup_inv_def attach_coordinator_def)
  then have n: "net_inv ?r" by (rule net_inv_record) (simp add: neutral_event_def)
  have "sim_inv ?a" using inv by (auto simp: setup_inv_def attach_coordinator_def sim_inv_def)
  then have si: "sim_inv ?r" using record_event_step[of ?a] by (simp add: sim_step_ok_def)
  have fr: "vnodes ?r = vnodes s" "now_us ?r = 0" "nodes ?r = nodes s" "proto ?r = cfg" "election_pending ?r = False"
    "last_heartbeat_us ?r = 0" "coordinator_id ?r = initial_coordinator_id cfg" "pending {#} ?r = pending {#} s"
    using inv by (simp_all add: record_event_def attach_coordinator_def setup_inv_def pending_def)
  have p: "pending {#} s' = {#CheckTimeout, Heartbeat#} + pending {#} s"
    using pending_schedule[OF t, of "{#}"] pending_schedule[OF s', of "{#}"] fr(8) by simp
  have z: "count (pending {#} s) Heartbeat = 0" "count (pending {#} s) CheckTimeout = 0" "count (pending {#} s) Elect = 0"
    using inv by (auto simp: setup_inv_def intro!: count_not_proto)
  have "med_inv {#} t" "net_inv t" using med_inv_schedule[OF m t] net_inv_schedule[OF n t] by simp_all
  then have m': "med_inv {#} s'" and n': "net_inv s'"
    using med_inv_schedule[OF _ s'] net_inv_schedule[OF _ s'] by simp_all
  have same: "coord_same ?r s'" using schedule_same[OF t] schedule_same[OF s'] by (rule coord_same_trans)
  have f: "vnodes s' = vnodes s" "now_us s' = 0" using schedule_fields[OF t] schedule_fields[OF s'] fr by simp_all
  have "proto_inv {#} s'"
    using same inv z fr unfolding proto_inv_def p f coord_same_def by (auto simp: setup_inv_def)
  with m' n' show "world_inv {#} s'" by (simp add: world_inv_def)
  show "sim_inv s'" using si schedule_step[OF t] schedule_step[OF s'] by (simp add: sim_step_ok_def)
  show "now_us s' = 0" by (rule f(2))
qed

lemma require_fault_node_valid:
  assumes "require_fault_node s f = Inr i" "world_inv {#} s"
  shows "i < length (vnodes s)"
proof -
  obtain k where "(k, i) \<in> set (nodes s)"
    using assms(1) by (auto simp: require_fault_node_def of_option_eq_Inr split: option.splits dest: map_of_SomeD)
  then show ?thesis using assms(2) by (auto simp: world_inv_def proto_inv_def)
qed

lemma schedule_fault_inv:
  assumes sf: "schedule_fault f s = Inr s'" and inv: "world_inv {#} s \<and> sim_inv s \<and> now_us s = 0"
  shows "world_inv {#} s' \<and> sim_inv s' \<and> now_us s' = 0"
proof -
  consider i en lab where "schedule_at (fs_time_us f) (SetEnabled i en) lab s = Inr s'" "i < length (vnodes s)"
    | p where "s' = add_loss_window (fs_time_us f) (fs_duration_us f) p s"
    using sf require_fault_node_valid[of s f] inv unfolding schedule_fault_def bind_eq_Inr
    by (auto split: if_splits option.splits)
  then show ?thesis
  proof cases
    case 1
    have st: "node_step s s'" using schedule_at_node_step[OF 1(1)] 1(2) by simp
    have "pending {#} s' = add_mset (SetEnabled i en) (pending {#} s)" using pending_schedule_at[OF 1(1)] .
    then have "proto_inv {#} s'"
      using inv 1(2) schedule_at_same[OF 1(1)] schedule_at_Inr[OF 1(1)]
      unfolding world_inv_def proto_inv_def coord_same_def by auto
    then show ?thesis using st inv by (auto simp: world_inv_def node_step_def sim_step_ok_def)
  next
    case 2
    have "med_inv {#} s' = med_inv {#} s" by (rule med_inv_cong) (simp_all add: 2 add_loss_window_def)
    moreover have "net_inv s' = net_inv s" by (rule net_inv_cong) (simp_all add: 2 add_loss_window_def)
    ultimately show ?thesis using inv
      by (auto simp: world_inv_def proto_inv_def sim_inv_def 2 add_loss_window_def pending_def)
  qed
qed

lemma build_world_inv:
  assumes "build_world sc = Inr s"
  shows "world_inv {#} s" "sim_inv s" "now_us s = 0"
proof -
  obtain voice s1 config s2 where
    s1: "fold_res (add_node voice sc) (zip [0..<length (sc_nodes sc)] (sc_nodes sc)) (new_world sc) = Inr s1"
    and s2: "start_protocol (attach_coordinator config s1) = Inr s2" and s: "fold_res schedule_fault (sc_faults sc) s2 = Inr s"
    using assms by (auto simp: build_world_def bind_eq_Inr schedule_faults_def)
  have "setup_inv s1"
    using s1 setup_inv_new by (rule fold_res_invariant) (rule add_node_setup_inv)
  then have "world_inv {#} s2 \<and> sim_inv s2 \<and> now_us s2 = 0"
    using start_protocol_world_inv[OF s2] by blast
  with s have "world_inv {#} s \<and> sim_inv s \<and> now_us s = 0"
    by (rule fold_res_invariant[where P = "\<lambda>t. world_inv {#} t \<and> sim_inv t \<and> now_us t = 0"]) (rule schedule_fault_inv)
  then show "world_inv {#} s" "sim_inv s" "now_us s = 0" by auto
qed

lemma run_scenario_Inr:
  assumes "run_scenario random sc = Some (Inr r)"
  obtains s duration t where "build_world sc = Inr s" "duration_us sc = Inr duration"
    and "estimate_capacity sc = Inr (rr_capacity r)"
    and "run_loop (exec (random (random_seed sc))) (duration + ce_voice_airtime_us (rr_capacity r)) s = Some (Inr t)"
    and "final_world r = t\<lparr>now_us := duration + ce_voice_airtime_us (rr_capacity r)\<rparr>"
    and "summarize (trace t) = Inr (rr_summary r)" and "world_inv {#} t" and "sim_inv t"
    and "\<forall>e \<in> set (events t). duration + ce_voice_airtime_us (rr_capacity r) < se_time_us e"
    and "now_us t \<le> duration + ce_voice_airtime_us (rr_capacity r)"
proof -
  let ?u = "\<lambda>d. d + ce_voice_airtime_us (rr_capacity r)"
  obtain s duration s' where b: "build_world sc = Inr s" and d: "duration_us sc = Inr duration"
    and c: "estimate_capacity sc = Inr (rr_capacity r)"
    and run: "run (exec (random (random_seed sc))) (?u duration) s = Some (Inr s')"
    and fin: "summarize (trace s') = Inr (rr_summary r)" "final_world r = s'"
    using assms unfolding run_scenario_def
    by (auto simp: bind_eq_Inr split: sum.splits prod.splits)
  note B = build_world_inv[OF b]
  obtain t where "run_loop (exec (random (random_seed sc))) (?u duration) s = Some (Inr t)"
    "s' = t\<lparr>now_us := ?u duration\<rparr>" "world_inv {#} t" "run_ok (?u duration) s t" "now_us t \<le> ?u duration"
    using run_world_inv[OF run B(1,2)] by blast
  then show ?thesis using that b d c fin by (auto simp: run_ok_def)
qed

end
