(* ===== verification/Progress.thy ===== *)
theory Progress
  imports Run
begin

text \<open>
  The event loop ends and raises nothing: each callback of the simulator re-schedules itself
  strictly later, so the total weight of the queue (\<open>queue_weight\<close>: for every event that will still
  run, how many callbacks it can cause before the end of the run) drops with every event.  The
  premises are those a scenario has to meet (\<open>workable\<close>): a positive heartbeat interval, a nonnegative
  election delay, airtimes that exist and are not negative, room for one frame per queue, and an
  initial coordinator that is one of the nodes.  Without the first one the loop cannot end.
\<close>

section \<open>What no callback changes\<close>

definition voices :: "'m network_state_scheme \<Rightarrow> voice_config list" where
  "voices s = map vn_voice (vnodes s)"

lemma voices_update:
  "i < length (vnodes s) \<Longrightarrow> vn_voice n = vn_voice (vnodes s ! i) \<Longrightarrow> vnodes s' = (vnodes s)[i := n] \<Longrightarrow>
   voices s' = voices s"
  by (simp add: voices_def map_update) (metis length_map list_update_id nth_map)

lemma voices_cong: "vnodes s' = vnodes s \<Longrightarrow> voices s' = voices s"
  by (simp add: voices_def)

lemma reschedule_voices: "reschedule i cb what s = Inr s' \<Longrightarrow> vnodes s' = vnodes s"
  by (auto simp: reschedule_def Let_def split: if_splits dest!: schedule_at_Inr(2))

lemma generate_voices:
  assumes "generate i s = Inr s'" "i < length (vnodes s)"
  shows "voices s' = voices s"
proof -
  obtain t where t: "(if vn_enabled (vnodes s ! i) then generate_frame i s else Inr s) = Inr t"
    "reschedule i (Generate i) '' next frame'' t = Inr s'"
    using assms(1) by (auto simp: generate_def bind_eq_Inr)
  have "voices t = voices s"
  proof (cases "vn_enabled (vnodes s ! i)")
    case True
    then have g: "generate_frame i s = Inr t" using t(1) by simp
    have "vnodes t = (vnodes s)[i := filled (vnodes s ! i) (make_packet (vnodes s ! i) (next_packet_id s) (now_us s))]"
      using generate_frame_Inr[OF g assms(2)] by simp
    then show ?thesis using assms(2) by (intro voices_update) (simp_all add: filled_def Let_def)
  qed (use t(1) in simp)
  then show ?thesis using reschedule_voices[OF t(2)] voices_cong by metis
qed

lemma send_head_vnodes:
  assumes "send_head i p rest s = Inr s'" and inv: "med_inv {#} s" and i: "i < length (vnodes s)"
  shows "vnodes s' = (vnodes s)[i := (vnodes s ! i)\<lparr>vn_queue := rest\<rparr>]"
proof -
  let ?s2 = "deadline_miss (vnodes s ! i) p (now_us s - created_at_us p) ''queue''
      (set_node i ((vnodes s ! i)\<lparr>vn_queue := rest\<rparr>) s)"
  obtain air where tr: "transmit p air (VoiceCompletion i p) ?s2 = Inr s'"
    using assms(1) by (auto simp: send_head_def Let_def bind_eq_Inr)
  have "med_inv {#} ?s2" using inv by (simp add: deadline_miss_frame med_inv_node_frame)
  then have "vnodes s' = vnodes ?s2" using transmit_effect(1)[OF tr] by blast
  then show ?thesis by (simp add: deadline_miss_frame)
qed

lemma slot_voices:
  assumes "slot i s = Inr s'" "i < length (vnodes s)" "med_inv {#} s"
  shows "voices s' = voices s"
proof -
  obtain t where t: "(case vn_queue (vnodes s ! i) of
             p # rest \<Rightarrow> if vn_enabled (vnodes s ! i) then send_head i p rest s else Inr s
           | [] \<Rightarrow> Inr s) = Inr t" "reschedule i (Slot i) '' next slot'' t = Inr s'"
    using assms(1) by (auto simp: slot_def bind_eq_Inr)
  have "voices t = voices s" if "send_head i p rest s = Inr t" for p rest
    using send_head_vnodes[OF that assms(3,2)] assms(2) by (intro voices_update) simp_all
  then have "voices t = voices s" using t(1) by (auto split: if_splits list.splits)
  then show ?thesis using reschedule_voices[OF t(2)] voices_cong by metis
qed

lemma heartbeat_vnodes:
  assumes "heartbeat s = Inr s'" "med_inv {#} s"
  shows "vnodes s' = vnodes s"
proof -
  obtain t where t: "schedule (heartbeat_interval_us (proto s)) Heartbeat '''' t = Inr s'"
    and c: "t = s \<or> (\<exists>air. transmit (heartbeat_packet s) air (HeartbeatCompletion (heartbeat_packet s))
         (s\<lparr>next_packet_id := next_packet_id s + 1\<rparr>) = Inr t)"
    using heartbeat_Inr[OF assms(1)] by metis
  have "med_inv {#} (s\<lparr>next_packet_id := next_packet_id s + 1\<rparr>)" using assms(2) by (simp add: med_inv_node_frame)
  with c have "vnodes t = vnodes s" using transmit_effect(1) by fastforce
  then show ?thesis using schedule_fields[OF t] by simp
qed

lemma heartbeat_same:
  assumes "heartbeat s = Inr s'"
  shows "coord_same s s'"
proof -
  obtain t where t: "schedule (heartbeat_interval_us (proto s)) Heartbeat '''' t = Inr s'"
    and c: "t = s \<or> (\<exists>air. transmit (heartbeat_packet s) air (HeartbeatCompletion (heartbeat_packet s))
         (s\<lparr>next_packet_id := next_packet_id s + 1\<rparr>) = Inr t)"
    using heartbeat_Inr[OF assms(1)] by metis
  have "coord_same s t" using c transmit_same by (fastforce simp: coord_same_def)
  then show ?thesis using schedule_same[OF t] by (rule coord_same_trans)
qed

lemma check_timeout_fields:
  assumes "check_timeout s = Inr s'"
  shows "vnodes s' = vnodes s" "proto s' = proto s" "nodes s' = nodes s" "coordinator_id s' = coordinator_id s"
proof -
  let ?s1 = "record_event ''heartbeat_timeout'' (Some (coordinator_id s)) None [] (s\<lparr>election_pending := True\<rparr>)"
  obtain t where t: "schedule (max 1 (heartbeat_interval_us (proto s) div 2)) CheckTimeout '''' t = Inr s'"
    and c: "t = s \<or> schedule (election_delay_us (proto s)) Elect '''' ?s1 = Inr t"
    using assms by (auto simp: check_timeout_def bind_eq_Inr split: if_splits)
  have fr: "vnodes ?s1 = vnodes s" "nodes ?s1 = nodes s" "proto ?s1 = proto s" "coordinator_id ?s1 = coordinator_id s"
    by (simp_all add: record_event_def)
  have "vnodes t = vnodes s \<and> proto t = proto s \<and> nodes t = nodes s \<and> coordinator_id t = coordinator_id s"
    using c
  proof
    assume e: "schedule (election_delay_us (proto s)) Elect '''' ?s1 = Inr t"
    show ?thesis using schedule_fields[OF e] schedule_same[OF e] fr by (simp add: coord_same_def)
  qed simp
  then show "vnodes s' = vnodes s" "proto s' = proto s" "nodes s' = nodes s" "coordinator_id s' = coordinator_id s"
    using schedule_fields[OF t] schedule_same[OF t] by (simp_all add: coord_same_def)
qed

definition same_config :: "world \<Rightarrow> world \<Rightarrow> bool" where
  "same_config s s' \<longleftrightarrow> voices s' = voices s \<and> proto s' = proto s \<and> nodes s' = nodes s"

lemma complete_fields:
  "vnodes (complete oc d s) = vnodes s" "proto (complete oc d s) = proto s" "nodes (complete oc d s) = nodes s"
  "coordinator_id (complete oc d s) = coordinator_id s" "events (complete oc d s) = events s"
  by (auto simp: complete_def voice_complete_def heartbeat_complete_def deadline_miss_def node_event_def
      record_event_def split: completion.split)

lemma exec_same_config:
  assumes ex: "exec rnd cb s = Inr s'" and inv: "world_inv {#cb#} s"
  shows "same_config s s' \<and> (coordinator_id s' = coordinator_id s \<or> coordinator_id s' \<in> fst ` set (nodes s))"
proof -
  have valid: "cb_valid (length (vnodes s)) cb"
    using inv by (simp add: world_inv_def proto_inv_def pending_add)
  have drop: "\<not> is_Finish cb \<Longrightarrow> med_inv {#} s" using inv med_inv_drop_X by (auto simp: world_inv_def)
  show ?thesis
  proof (cases cb)
    case (Generate i)
    then show ?thesis using ex valid generate_voices generate_same by (force simp: same_config_def coord_same_def)
  next
    case (Slot i)
    then show ?thesis using ex valid drop slot_voices slot_same by (force simp: same_config_def coord_same_def)
  next
    case (SetEnabled i en)
    then have s': "s' = set_enabled i en s" and i: "i < length (vnodes s)" using ex valid by simp_all
    have "voices s' = voices s"
      using i by (intro voices_update[of i s "(vnodes s ! i)\<lparr>vn_enabled := en\<rparr>"]) (simp_all add: s' set_enabled_def Let_def)
    then show ?thesis using node_ops_same(6)[of s i en] by (simp add: s' same_config_def coord_same_def)
  next
    case (Finish tx oc)
    then obtain s1 d r where fin: "finish rnd tx s = Inr (s1, d, r)" and s': "s' = complete oc d s1"
      using ex by (auto simp: bind_eq_Inr)
    have m: "med_inv {#Finish tx oc#} s" "net_inv s" using inv Finish by (simp_all add: world_inv_def)
    have "vnodes s1 = vnodes s" using finish_effect(2)[OF m fin] .
    then show ?thesis using finish_same[OF fin] complete_fields
      by (simp add: s' same_config_def voices_def coord_same_def)
  next
    case Heartbeat
    then show ?thesis using ex drop heartbeat_vnodes[of s s'] heartbeat_same[of s s']
      by (simp add: same_config_def voices_def coord_same_def)
  next
    case CheckTimeout
    then show ?thesis using ex check_timeout_fields by (simp add: same_config_def voices_def)
  next
    case Elect
    then show ?thesis using ex elect_frame(4,5,6,10)[of s] by (auto simp: same_config_def voices_def)
  qed
qed

section \<open>Callbacks do not raise\<close>

definition workable :: "world \<Rightarrow> bool" where
  "workable s \<longleftrightarrow> 0 \<le> heartbeat_interval_us (proto s) \<and> 0 \<le> election_delay_us (proto s) \<and>
     (\<exists>a. 0 \<le> a \<and> heartbeat_airtime_us (proto s) = Inr a) \<and> coordinator_id s \<in> fst ` set (nodes s) \<and>
     (\<forall>v \<in> set (voices s). 1 \<le> max_queue_frames v \<and> (\<exists>a. 0 \<le> a \<and> vc_airtime_us v = Inr a))"

lemma workable_exec: "exec rnd cb s = Inr s' \<Longrightarrow> world_inv {#cb#} s \<Longrightarrow> workable s \<Longrightarrow> workable s'"
  using exec_same_config[of rnd cb s s'] unfolding workable_def same_config_def by metis

lemma schedule_total: "0 \<le> d \<Longrightarrow> \<exists>s'. schedule d cb lab s = Inr s'"
  by (simp add: schedule_def schedule_at_def)

lemma transmit_total: "0 \<le> air \<Longrightarrow> \<exists>s'. transmit p air oc s = Inr s'"
  by (simp add: transmit_def Let_def schedule_total)

lemma reschedule_total: "1 \<le> local_period_us (vnodes s ! i) \<Longrightarrow> \<exists>s'. reschedule i cb what s = Inr s'"
  by (simp add: reschedule_def schedule_at_def Let_def)

lemma voice_at: "i < length (vnodes s) \<Longrightarrow> vn_voice (vnodes s ! i) \<in> set (voices s)"
  by (simp add: voices_def)

lemma generate_total:
  assumes i: "i < length (vnodes s)" and inv: "net_inv s" and r: "workable s"
  shows "\<exists>s'. generate i s = Inr s'"
proof -
  have m: "1 \<le> max_queue_frames (vn_voice (vnodes s ! i))" using r voice_at[OF i] by (simp add: workable_def)
  have period: "1 \<le> local_period_us (vnodes t ! i)" if "net_inv t" "i < length (vnodes t)" for t :: world
    using that by (simp add: net_inv_def node_ok_def)
  have "\<exists>t. generate_frame i s = Inr t"
    unfolding generate_frame_def drop_oldest_def Let_def using m i
    by (cases "vn_queue (vnodes s ! i)") auto
  moreover have "1 \<le> local_period_us (vnodes t ! i)" if "generate_frame i s = Inr t" for t
    using period[OF generate_frame_net_inv[OF that i inv]] generate_frame_med_inv(4)[OF that i] i by simp
  ultimately show ?thesis
    using reschedule_total period[OF inv i] unfolding generate_def by (auto simp: bind_def split: sum.splits)
qed

lemma slot_total:
  assumes i: "i < length (vnodes s)" and inv: "med_inv {#} s" "net_inv s" and r: "workable s"
  shows "\<exists>s'. slot i s = Inr s'"
proof -
  obtain a where a: "0 \<le> a" "vc_airtime_us (vn_voice (vnodes s ! i)) = Inr a"
    using r voice_at[OF i] unfolding workable_def by blast
  have send: "\<exists>t. send_head i p rest s = Inr t" for p rest
    using transmit_total[OF a(1)] by (simp add: send_head_def Let_def a(2))
  have p0: "1 \<le> local_period_us (vnodes s ! i)" using inv(2) i by (simp add: net_inv_def node_ok_def)
  have p1: "1 \<le> local_period_us (vnodes t ! i)" if "send_head i p rest s = Inr t" for t p rest
    using send_head_vnodes[OF that inv(1) i] p0 i by simp
  show ?thesis
  proof (cases "vn_queue (vnodes s ! i)")
    case Nil
    then show ?thesis using reschedule_total[OF p0] by (simp add: slot_def)
  next
    case (Cons p rest)
    obtain t where t: "send_head i p rest s = Inr t" using send by blast
    then show ?thesis using Cons reschedule_total[OF p0] reschedule_total[OF p1[OF t]] by (simp add: slot_def)
  qed
qed

lemma heartbeat_total:
  assumes r: "workable s"
  shows "\<exists>s'. heartbeat s = Inr s'"
proof -
  obtain i where "map_of (nodes s) (coordinator_id s) = Some i"
    using r unfolding workable_def by (metis map_of_eq_None_iff not_None_eq)
  moreover obtain a where "0 \<le> a" "heartbeat_airtime_us (proto s) = Inr a" using r unfolding workable_def by blast
  moreover have "0 \<le> heartbeat_interval_us (proto s)" using r by (simp add: workable_def)
  ultimately show ?thesis
    using transmit_total[of a "heartbeat_packet s" "HeartbeatCompletion (heartbeat_packet s)" "s\<lparr>next_packet_id := next_packet_id s + 1\<rparr>"]
      schedule_total[of "heartbeat_interval_us (proto s)"]
    by (auto simp: heartbeat_def Let_def)
qed

lemma check_timeout_total:
  assumes r: "workable s"
  shows "\<exists>s'. check_timeout s = Inr s'"
proof -
  have d: "0 \<le> election_delay_us (proto s)" using r by (simp add: workable_def)
  let ?s1 = "record_event ''heartbeat_timeout'' (Some (coordinator_id s)) None [] (s\<lparr>election_pending := True\<rparr>)"
  obtain t where t: "schedule (election_delay_us (proto s)) Elect '''' ?s1 = Inr t"
    using schedule_total[OF d, of Elect "''''" ?s1] by blast
  have loop: "\<exists>u. schedule (max 1 (heartbeat_interval_us (proto s) div 2)) CheckTimeout '''' v = Inr u" for v :: world
    by (rule schedule_total) simp
  show ?thesis unfolding check_timeout_def
    using loop[of t] loop[of s] by (simp add: t)
qed

lemma exec_total:
  assumes inv: "world_inv {#cb#} s" and r: "workable s"
  shows "\<exists>s'. exec rnd cb s = Inr s'"
proof -
  have valid: "cb_valid (length (vnodes s)) cb"
    using inv by (simp add: world_inv_def proto_inv_def pending_add)
  have drop: "\<not> is_Finish cb \<Longrightarrow> med_inv {#} s" using inv med_inv_drop_X by (auto simp: world_inv_def)
  have net: "net_inv s" using inv by (simp add: world_inv_def)
  show ?thesis
  proof (cases cb)
    case (Finish tx oc)
    then have "med_inv {#Finish tx oc#} s" using inv by (simp add: world_inv_def)
    then show ?thesis using finish_total[of tx oc s rnd] by (auto simp: Finish)
  qed (use valid drop net r generate_total slot_total heartbeat_total check_timeout_total in auto)
qed

section \<open>The weight of the queue\<close>

text \<open>How many callbacks an event can still cause before the end of the run \<open>u\<close>, itself included.\<close>

fun cb_weight :: "nat \<Rightarrow> callback \<Rightarrow> nat" where
  "cb_weight k (Generate i) = k"
| "cb_weight k (Slot i) = 2 * k"
| "cb_weight k Heartbeat = 2 * k"
| "cb_weight k CheckTimeout = 2 * k"
| "cb_weight k _ = 1"

definition weight_at :: "int \<Rightarrow> int \<Rightarrow> callback \<Rightarrow> nat" where
  "weight_at u t cb = (if u < t then 0 else cb_weight (nat (u - t) + 1) cb)"

definition queue_weight :: "int \<Rightarrow> (callback, 'm) simulation_scheme \<Rightarrow> nat" where
  "queue_weight u s = sum_mset (image_mset (\<lambda>e. weight_at u (se_time_us e) (se_callback e)) (mset (events s)))"

lemma queue_weight_schedule_at:
  "schedule_at t cb d s = Inr s' \<Longrightarrow> queue_weight u s' = weight_at u t cb + queue_weight u s"
  using schedule_at_Inr[of t cb d s s'] by (simp add: queue_weight_def heappush_contents)

lemma queue_weight_schedule:
  "schedule d cb lab s = Inr s' \<Longrightarrow> queue_weight u s' = weight_at u (now_us s + d) cb + queue_weight u s"
  by (rule queue_weight_schedule_at[OF schedule_Inr(2)])

lemma queue_weight_cong: "events s' = events s \<Longrightarrow> queue_weight u s' = queue_weight u s"
  by (simp add: queue_weight_def)

lemma queue_weight_transmit:
  assumes "transmit p air oc s = Inr s'" "med_inv X s"
  shows "queue_weight u s' \<le> 1 + queue_weight u s"
proof -
  have "\<forall>r \<in> set (active s). r < length (transmissions s)" using assms(2) by (simp add: med_inv_def)
  then have "events s' = heappush \<lparr>se_time_us = now_us s + air, se_order = next_order s,
        se_callback = Finish (length (transmissions s)) oc, se_description = ''transmission complete''\<rparr> (events s)"
    using transmit_Inr[OF assms(1)] by force
  then show ?thesis by (simp add: queue_weight_def heappush_contents weight_at_def)
qed

text \<open>A periodic callback put back at least one microsecond later weighs that much less.\<close>

lemma weight_later:
  assumes "t \<le> u" "t + 1 \<le> t'"
  shows "weight_at u t' (Generate i) + 1 \<le> weight_at u t (Generate i)"
    "weight_at u t' (Slot i) + 2 \<le> weight_at u t (Slot i)"
    "weight_at u t' Heartbeat + 2 \<le> weight_at u t Heartbeat"
    "weight_at u t' CheckTimeout + 2 \<le> weight_at u t CheckTimeout"
  using assms by (auto simp: weight_at_def)

lemma reschedule_weight:
  assumes "reschedule i cb what s = Inr s'"
  shows "queue_weight u s' \<le> weight_at u (now_us s + local_period_us (vnodes s ! i)) cb + queue_weight u s"
  using assms queue_weight_schedule_at[of "now_us s + local_period_us (vnodes s ! i)" cb "node_label (vnodes s ! i) what" s s' u]
  by (auto simp: reschedule_def Let_def split: if_splits)

lemma generate_weight:
  assumes g: "generate i s = Inr s'" and i: "i < length (vnodes s)" and inv: "net_inv s" and u: "now_us s \<le> u"
  shows "queue_weight u s' < queue_weight u s + weight_at u (now_us s) (Generate i)"
proof -
  obtain t where t: "(if vn_enabled (vnodes s ! i) then generate_frame i s else Inr s) = Inr t"
    "reschedule i (Generate i) '' next frame'' t = Inr s'"
    using g by (auto simp: generate_def bind_eq_Inr)
  have "net_inv t \<and> now_us t = now_us s \<and> events t = events s \<and> length (vnodes t) = length (vnodes s)"
  proof (cases "vn_enabled (vnodes s ! i)")
    case True
    then have gf: "generate_frame i s = Inr t" using t(1) by simp
    show ?thesis using generate_frame_net_inv[OF gf i inv] generate_frame_med_inv(2-4)[OF gf i] by simp
  qed (use t(1) inv in simp)
  then have f: "net_inv t" "now_us t = now_us s" "events t = events s" "i < length (vnodes t)" using i by auto
  have "1 \<le> local_period_us (vnodes t ! i)" using f(1,4) by (simp add: net_inv_def node_ok_def)
  then have "weight_at u (now_us t + local_period_us (vnodes t ! i)) (Generate i) + 1 \<le> weight_at u (now_us s) (Generate i)"
    using weight_later(1)[OF u] f(2) by simp
  then show ?thesis using reschedule_weight[OF t(2), of u] queue_weight_cong[OF f(3), of u] by linarith
qed

lemma send_head_weight:
  assumes "send_head i p rest s = Inr s'" and inv: "med_inv {#} s" and i: "i < length (vnodes s)"
  shows "queue_weight u s' \<le> 1 + queue_weight u s \<and> now_us s' = now_us s"
proof -
  let ?s2 = "deadline_miss (vnodes s ! i) p (now_us s - created_at_us p) ''queue''
      (set_node i ((vnodes s ! i)\<lparr>vn_queue := rest\<rparr>) s)"
  obtain air where tr: "transmit p air (VoiceCompletion i p) ?s2 = Inr s'"
    using assms(1) by (auto simp: send_head_def Let_def bind_eq_Inr)
  have m: "med_inv {#} ?s2" using inv by (simp add: deadline_miss_frame med_inv_node_frame)
  have "queue_weight u ?s2 = queue_weight u s" by (rule queue_weight_cong) (simp add: deadline_miss_frame)
  then show ?thesis using queue_weight_transmit[OF tr m, of u] transmit_effect(3)[OF tr m] by (simp add: deadline_miss_frame)
qed

lemma slot_weight:
  assumes sl: "slot i s = Inr s'" and i: "i < length (vnodes s)" and inv: "med_inv {#} s" "net_inv s" and u: "now_us s \<le> u"
  shows "queue_weight u s' < queue_weight u s + weight_at u (now_us s) (Slot i)"
proof -
  obtain t where t: "(case vn_queue (vnodes s ! i) of
             p # rest \<Rightarrow> if vn_enabled (vnodes s ! i) then send_head i p rest s else Inr s
           | [] \<Rightarrow> Inr s) = Inr t" "reschedule i (Slot i) '' next slot'' t = Inr s'"
    using sl by (auto simp: slot_def bind_eq_Inr)
  have p: "1 \<le> local_period_us (vnodes s ! i)" using inv(2) i by (simp add: net_inv_def node_ok_def)
  have "queue_weight u t \<le> 1 + queue_weight u s \<and> now_us t = now_us s \<and> local_period_us (vnodes t ! i) = local_period_us (vnodes s ! i)"
  proof -
    have "t = s \<or> (\<exists>q rest. send_head i q rest s = Inr t)"
    proof (cases "vn_queue (vnodes s ! i)")
      case (Cons q rest)
      then show ?thesis using t(1) by (cases "vn_enabled (vnodes s ! i)") (simp, blast, simp)
    qed (use t(1) in simp)
    then consider "t = s" | q rest where "send_head i q rest s = Inr t" by blast
    then show ?thesis
    proof cases
      case 2
      show ?thesis using send_head_weight[OF 2 inv(1) i, of u] send_head_vnodes[OF 2 inv(1) i] i by simp
    qed simp
  qed
  then have f: "queue_weight u t \<le> 1 + queue_weight u s" "now_us t = now_us s" "1 \<le> local_period_us (vnodes t ! i)" using p by auto
  have "weight_at u (now_us t + local_period_us (vnodes t ! i)) (Slot i) + 2 \<le> weight_at u (now_us s) (Slot i)"
    using weight_later(2)[OF u] f by simp
  then show ?thesis using reschedule_weight[OF t(2), of u] f(1) by linarith
qed

lemma heartbeat_weight:
  assumes hb: "heartbeat s = Inr s'" and inv: "med_inv {#} s" and u: "now_us s \<le> u" and r: "1 \<le> heartbeat_interval_us (proto s)"
  shows "queue_weight u s' < queue_weight u s + weight_at u (now_us s) Heartbeat"
proof -
  let ?s1 = "s\<lparr>next_packet_id := next_packet_id s + 1\<rparr>"
  obtain t where t: "schedule (heartbeat_interval_us (proto s)) Heartbeat '''' t = Inr s'"
    and c: "t = s \<or> (\<exists>air. transmit (heartbeat_packet s) air (HeartbeatCompletion (heartbeat_packet s)) ?s1 = Inr t)"
    using heartbeat_Inr[OF hb] by metis
  have m: "med_inv {#} ?s1" using inv by (simp add: med_inv_node_frame)
  have "queue_weight u ?s1 = queue_weight u s" by (rule queue_weight_cong) simp
  then have f: "queue_weight u t \<le> 1 + queue_weight u s \<and> now_us t = now_us s"
    using c
  proof (elim disjE exE)
    fix air assume tr: "transmit (heartbeat_packet s) air (HeartbeatCompletion (heartbeat_packet s)) ?s1 = Inr t"
    show ?thesis if "queue_weight u ?s1 = queue_weight u s"
      using queue_weight_transmit[OF tr m, of u] transmit_effect(3)[OF tr m] that by simp
  qed simp
  have "weight_at u (now_us s + heartbeat_interval_us (proto s)) Heartbeat + 2 \<le> weight_at u (now_us s) Heartbeat"
    using weight_later(3)[OF u] r by simp
  then show ?thesis using queue_weight_schedule[OF t, of u] f by simp
qed

lemma check_timeout_weight:
  assumes ct: "check_timeout s = Inr s'" and u: "now_us s \<le> u"
  shows "queue_weight u s' < queue_weight u s + weight_at u (now_us s) CheckTimeout"
proof -
  let ?s1 = "record_event ''heartbeat_timeout'' (Some (coordinator_id s)) None [] (s\<lparr>election_pending := True\<rparr>)"
  let ?d = "max 1 (heartbeat_interval_us (proto s) div 2)"
  obtain t where t: "schedule ?d CheckTimeout '''' t = Inr s'"
    and c: "t = s \<or> schedule (election_delay_us (proto s)) Elect '''' ?s1 = Inr t"
    using ct by (auto simp: check_timeout_def bind_eq_Inr split: if_splits)
  have "queue_weight u ?s1 = queue_weight u s" "now_us ?s1 = now_us s"
    by (simp_all add: record_event_def queue_weight_def)
  then have f: "queue_weight u t \<le> 1 + queue_weight u s \<and> now_us t = now_us s"
    using c queue_weight_schedule[of "election_delay_us (proto s)" Elect "''''" ?s1 t u]
      schedule_fields[of "election_delay_us (proto s)" Elect "''''" ?s1 t] by (auto simp: weight_at_def)
  have "weight_at u (now_us s + ?d) CheckTimeout + 2 \<le> weight_at u (now_us s) CheckTimeout"
    using weight_later(4)[OF u] by simp
  then show ?thesis using queue_weight_schedule[OF t, of u] f by simp
qed

lemma exec_weight:
  assumes ex: "exec rnd cb s = Inr s'" and inv: "world_inv {#cb#} s" and r: "heartbeat_interval_us (proto s) \<noteq> 0"
    and u: "now_us s \<le> u"
  shows "queue_weight u s' < queue_weight u s + weight_at u (now_us s) cb"
proof -
  have valid: "cb_valid (length (vnodes s)) cb"
    using inv by (simp add: world_inv_def proto_inv_def pending_add)
  have drop: "\<not> is_Finish cb \<Longrightarrow> med_inv {#} s" using inv med_inv_drop_X by (auto simp: world_inv_def)
  have net: "net_inv s" using inv by (simp add: world_inv_def)
  have pos: "0 < weight_at u (now_us s) cb" using u by (cases cb) (simp_all add: weight_at_def)
  show ?thesis
  proof (cases cb)
    case (Generate i)
    then show ?thesis using ex valid generate_weight[OF _ _ net u] by simp
  next
    case (Slot i)
    then show ?thesis using ex valid drop slot_weight[OF _ _ _ net u] by simp
  next
    case (SetEnabled i en)
    then have "queue_weight u s' = queue_weight u s"
      using ex by (intro queue_weight_cong) (auto simp: set_enabled_def Let_def)
    then show ?thesis using pos by simp
  next
    case (Finish tx oc)
    then obtain s1 d rs where fin: "finish rnd tx s = Inr (s1, d, rs)" and s': "s' = complete oc d s1"
      using ex by (auto simp: bind_eq_Inr)
    have m: "med_inv {#Finish tx oc#} s" using inv Finish by (simp add: world_inv_def)
    have "queue_weight u s' = queue_weight u s"
      using finish_effect(3)[OF m net fin] by (intro queue_weight_cong) (simp add: s' complete_fields)
    then show ?thesis using pos by simp
  next
    case Heartbeat
    then have hb: "heartbeat s = Inr s'" and m: "med_inv {#} s" using ex drop by simp_all
    have "0 \<le> heartbeat_interval_us (proto s)" using heartbeat_Inr[OF hb] schedule_Inr(1) by metis
    then show ?thesis using heartbeat_weight[OF hb m u] r by (simp add: Heartbeat)
  next
    case CheckTimeout
    then show ?thesis using ex check_timeout_weight[OF _ u] by simp
  next
    case Elect
    have "events (elect s) = events s" using elect_cases[of s] by (auto simp: elected_frame)
    then show ?thesis using ex pos queue_weight_cong[of "elect s" s u] by (simp add: Elect)
  qed
qed

lemma queue_weight_after_pop:
  assumes "heappop (events s) = Some (e, rest)"
  shows "queue_weight u s = queue_weight u (after_pop e rest s) + weight_at u (se_time_us e) (se_callback e)"
  using assms by (simp add: heappop_Some queue_weight_def after_pop_def)


lemma workable_after_pop: "workable s \<Longrightarrow> workable (after_pop e rest s)"
  by (simp add: workable_def after_pop_def voices_def)

section \<open>The loop returns\<close>

lemma loop_step:
  assumes "world_inv {#} t" "sim_inv t" and pop: "heappop (events t) = Some (e, rest)"
    and le: "se_time_us e \<le> u" and r: "heartbeat_interval_us (proto t) \<noteq> 0"
    and ex: "exec rnd (se_callback e) (after_pop e rest t) = Inr t'"
  shows "world_inv {#} t' \<and> heartbeat_interval_us (proto t') \<noteq> 0 \<and> queue_weight u t' < queue_weight u t"
proof -
  let ?a = "after_pop e rest t"
  have w: "world_inv {#se_callback e#} ?a" using assms(1,2) pop by (rule world_inv_after_pop)
  have a: "proto ?a = proto t" "now_us ?a = se_time_us e" by (simp_all add: after_pop_def)
  have "queue_weight u t' < queue_weight u ?a + weight_at u (now_us ?a) (se_callback e)"
    using exec_weight[OF ex w] r le by (simp add: a)
  then have "queue_weight u t' < queue_weight u t" using queue_weight_after_pop[OF pop, of u] by (simp add: a)
  then show ?thesis using exec_world_inv[OF ex w] exec_same_config[OF ex w] r by (simp add: same_config_def a)
qed

lemma run_loop_returns:
  assumes inv: "world_inv {#} s" "sim_inv s" and r: "heartbeat_interval_us (proto s) \<noteq> 0"
  shows "run_loop (exec rnd) u s \<noteq> None"
  by (rule sim.run_loop_defined[where P = "\<lambda>t. world_inv {#} t \<and> heartbeat_interval_us (proto t) \<noteq> 0"
      and W = "queue_weight u"]) (use inv r loop_step in blast)+

lemma run_loop_no_exception:
  assumes inv: "world_inv {#} s" "sim_inv s" and r: "workable s"
  shows "run_loop (exec rnd) u s \<noteq> Some (Inl err)"
proof (rule sim.run_loop_no_error[where P = "\<lambda>t. world_inv {#} t \<and> workable t"])
  show "world_inv {#} s \<and> workable s" using inv r by simp
  show "sim_inv s" by (rule inv)
  fix e rest and t :: world
  assume P: "world_inv {#} t \<and> workable t" and si: "sim_inv t" and pop: "heappop (events t) = Some (e, rest)"
  have w: "world_inv {#se_callback e#} (after_pop e rest t)" using P si pop by (blast intro: world_inv_after_pop)
  have rd: "workable (after_pop e rest t)" using P workable_after_pop by blast
  obtain t' where t': "exec rnd (se_callback e) (after_pop e rest t) = Inr t'" using exec_total[OF w rd] by blast
  then show "\<exists>t'. exec rnd (se_callback e) (after_pop e rest t) = Inr t' \<and> (world_inv {#} t' \<and> workable t')"
    using exec_world_inv[OF t' w] workable_exec[OF t' w rd] by blast
qed

lemma run_loop_result:
  assumes "world_inv {#} s" "sim_inv s" "workable s" "heartbeat_interval_us (proto s) \<noteq> 0"
  shows "\<exists>t. run_loop (exec rnd) u s = Some (Inr t)"
  using run_loop_returns[OF assms(1,2,4), of rnd u] run_loop_no_exception[OF assms(1-3), of rnd u]
  by (cases "run_loop (exec rnd) u s") (auto, metis sum.exhaust)

section \<open>A heartbeat interval of zero\<close>

text \<open>A heartbeat whose interval is zero schedules the next one at the current time; the loop could
  return only when no such event is left, so it never returns.\<close>

definition beating :: "int \<Rightarrow> world \<Rightarrow> bool" where
  "beating u s \<longleftrightarrow> heartbeat_interval_us (proto s) = 0 \<and>
     (\<exists>e \<in> set (events s). se_callback e = Heartbeat \<and> se_time_us e \<le> u)"

lemma exec_keeps_events:
  assumes "exec rnd cb s = Inr s'" "e \<in> set (events s)"
  shows "e \<in> set (events s')"
proof -
  have "mset (events s) \<subseteq># mset (events s')" using sim.exec_step[OF assms(1)] by (simp add: sim_step_ok_def)
  then show ?thesis using assms(2) by (metis mset_subset_eqD set_mset_mset)
qed

lemma beating_step:
  assumes b: "beating u s" and inv: "world_inv {#} s" "sim_inv s" and pop: "heappop (events s) = Some (e, rest)"
    and le: "se_time_us e \<le> u" and ex: "exec rnd (se_callback e) (after_pop e rest s) = Inr s'"
  shows "beating u s'"
proof -
  let ?a = "after_pop e rest s"
  have w: "world_inv {#se_callback e#} ?a" by (rule world_inv_after_pop[OF inv pop])
  have a: "proto ?a = proto s" "now_us ?a = se_time_us e" "events ?a = rest" by (simp_all add: after_pop_def)
  have pr: "proto s' = proto s" using exec_same_config[OF ex w] by (simp add: same_config_def a)
  obtain h where h: "h \<in> set (events s)" "se_callback h = Heartbeat" "se_time_us h \<le> u"
    using b by (auto simp: beating_def)
  have "\<exists>h \<in> set (events s'). se_callback h = Heartbeat \<and> se_time_us h \<le> u"
  proof (cases "se_callback e = Heartbeat")
    case True
    then have hb: "heartbeat ?a = Inr s'" using ex by simp
    obtain t where t: "schedule (heartbeat_interval_us (proto ?a)) Heartbeat '''' t = Inr s'"
      and c: "t = ?a \<or> (\<exists>air. transmit (heartbeat_packet ?a) air (HeartbeatCompletion (heartbeat_packet ?a))
         (?a\<lparr>next_packet_id := next_packet_id ?a + 1\<rparr>) = Inr t)"
      using heartbeat_Inr[OF hb] by metis
    have "med_inv {#} ?a" using w True med_inv_drop_X[of Heartbeat ?a] by (simp add: world_inv_def)
    then have m: "med_inv {#} (?a\<lparr>next_packet_id := next_packet_id ?a + 1\<rparr>)" by (simp add: med_inv_node_frame)
    have "now_us t = se_time_us e" using c transmit_effect(3)[OF _ m] a(2) by fastforce
    moreover have "heartbeat_interval_us (proto ?a) = 0" using b by (simp add: beating_def a)
    ultimately show ?thesis using schedule_at_Inr(2)[OF schedule_Inr(2)[OF t]] le by (simp add: set_heappush)
  next
    case False
    then have "h \<in> set (events ?a)" using h pop by (auto simp: heappop_Some a)
    then show ?thesis using exec_keeps_events[OF ex] h by blast
  qed
  then show ?thesis using b pr by (simp add: beating_def)
qed

lemma zero_interval_no_result:
  assumes inv: "world_inv {#} s" "sim_inv s" and b: "beating u s"
  shows "run_loop (exec rnd) u s \<noteq> Some (Inr t)"
proof
  assume run: "run_loop (exec rnd) u s = Some (Inr t)"
  have "(world_inv {#} t \<and> beating u t) \<and> run_ok u s t"
    using run by (rule sim.run_loop_rule)
      (use inv b in \<open>auto intro: beating_step exec_world_inv world_inv_after_pop\<close>)
  then show False by (force simp: run_ok_def beating_def)
qed

lemma zero_interval_diverges:
  assumes "world_inv {#} s" "sim_inv s" "beating u s" "workable s"
  shows "run_loop (exec rnd) u s = None"
  using zero_interval_no_result[OF assms(1-3), of rnd] run_loop_no_exception[OF assms(1,2,4), of rnd u]
  by (cases "run_loop (exec rnd) u s") (auto, metis sum.exhaust)

section \<open>Assembled worlds\<close>

text \<open>What \<^verbatim>\<open>run_scenario\<close> has built before it runs the loop.\<close>

lemma add_node_fields:
  assumes "add_node voice sc ix s = Inr s'"
  shows "set (voices s') \<subseteq> insert voice (set (voices s))" "fst ` set (nodes s') = insert (ns_node_id (snd ix)) (fst ` set (nodes s))"
proof -
  obtain index spec where ix: "ix = (index, spec)" by (cases ix)
  obtain node where node: "new_voice_node \<lparr>nc_node_id = ns_node_id spec,
      nc_slot_offset_us = int index * slot_spacing_us sc, nc_drift_ppm = ns_drift_ppm spec\<rparr> voice = Inr node"
    and st: "start_node (length (vnodes s))
      (s\<lparr>vnodes := vnodes s @ [node], nodes := dict_set (ns_node_id spec) (length (vnodes s)) (nodes s)\<rparr>) = Inr s'"
    using assms by (auto simp: add_node_def ix Let_def bind_eq_Inr)
  have "vnodes s' = vnodes s @ [node] \<and> nodes s' = dict_set (ns_node_id spec) (length (vnodes s)) (nodes s)"
    using st unfolding start_node_def Let_def bind_eq_Inr by (auto dest!: schedule_at_Inr(2))
  then show "set (voices s') \<subseteq> insert voice (set (voices s))" "fst ` set (nodes s') = insert (ns_node_id (snd ix)) (fst ` set (nodes s))"
    using new_voice_node_ok(3)[OF node] dict_set_keys[of "ns_node_id spec" "length (vnodes s)" "nodes s"]
    by (auto simp: voices_def ix)
qed

lemma add_nodes_fields:
  assumes "fold_res (add_node voice sc) ixs s = Inr s'"
  shows "set (voices s') \<subseteq> insert voice (set (voices s)) \<and>
    fst ` set (nodes s') = (ns_node_id \<circ> snd) ` set ixs \<union> fst ` set (nodes s)"
  using assms
proof (induction ixs arbitrary: s)
  case (Cons ix ixs)
  then obtain t where t: "add_node voice sc ix s = Inr t" "fold_res (add_node voice sc) ixs t = Inr s'"
    by (auto simp: bind_eq_Inr)
  show ?case using Cons.IH[OF t(2)] add_node_fields[OF t(1)] by auto
qed auto

lemma schedule_fault_fields:
  assumes "schedule_fault f s = Inr s'"
  shows "vnodes s' = vnodes s \<and> nodes s' = nodes s \<and> proto s' = proto s \<and> coordinator_id s' = coordinator_id s \<and>
    set (events s) \<subseteq> set (events s')"
  using assms unfolding schedule_fault_def bind_eq_Inr
  by (auto simp: add_loss_window_def set_heappush split: if_splits option.splits dest!: schedule_at_Inr(2))

lemma schedule_faults_fields:
  assumes "schedule_faults fs s = Inr s'"
  shows "vnodes s' = vnodes s \<and> nodes s' = nodes s \<and> proto s' = proto s \<and> coordinator_id s' = coordinator_id s \<and>
    set (events s) \<subseteq> set (events s')"
  using assms unfolding schedule_faults_def
proof (induction fs arbitrary: s)
  case (Cons f fs)
  then obtain t where t: "schedule_fault f s = Inr t" "fold_res schedule_fault fs t = Inr s'" by (auto simp: bind_eq_Inr)
  show ?case using Cons.IH[OF t(2)] schedule_fault_fields[OF t(1)] by auto
qed simp

lemma start_protocol_fields:
  assumes "start_protocol s = Inr s'"
  shows "vnodes s' = vnodes s \<and> nodes s' = nodes s \<and> proto s' = proto s \<and> coordinator_id s' = coordinator_id s \<and>
    (\<exists>e \<in> set (events s'). se_callback e = Heartbeat \<and> se_time_us e = now_us s + first_heartbeat_delay_us (proto s))"
proof -
  let ?r = "record_event ''coordinator_selected'' (Some (coordinator_id s)) None [(''previous_id'', DNone)] s"
  obtain t where t: "schedule (first_heartbeat_delay_us (proto s)) Heartbeat '''' ?r = Inr t"
    and s': "schedule (heartbeat_timeout_us (proto s)) CheckTimeout '''' t = Inr s'"
    using assms by (auto simp: start_protocol_def Let_def bind_eq_Inr)
  show ?thesis
    using schedule_at_Inr(2)[OF schedule_Inr(2)[OF t]] schedule_at_Inr(2)[OF schedule_Inr(2)[OF s']]
    by (simp add: set_heappush record_event_def)
qed

lemma build_world_fields:
  assumes "build_world sc = Inr s"
  obtains voice config where "voice_config_of sc = Inr voice" "coordinator_config_of sc = Inr config"
    and "proto s = config" "set (voices s) \<subseteq> {voice}" "fst ` set (nodes s) = ns_node_id ` set (sc_nodes sc)"
    and "coordinator_id s = initial_coordinator_id config"
    and "\<exists>e \<in> set (events s). se_callback e = Heartbeat \<and> se_time_us e = first_heartbeat_delay_us config"
proof -
  let ?ixs = "zip [0..<length (sc_nodes sc)] (sc_nodes sc)"
  obtain voice s1 config s2 where v: "voice_config_of sc = Inr voice" and c: "coordinator_config_of sc = Inr config"
    and s1: "fold_res (add_node voice sc) ?ixs (new_world sc) = Inr s1"
    and s2: "start_protocol (attach_coordinator config s1) = Inr s2" and s: "schedule_faults (sc_faults sc) s2 = Inr s"
    using assms by (auto simp: build_world_def bind_eq_Inr)
  have "setup_inv s1" using s1 setup_inv_new by (rule fold_res_invariant) (rule add_node_setup_inv)
  then have now: "now_us s1 = 0" by (simp add: setup_inv_def)
  have "snd ` set ?ixs = set (sc_nodes sc)" by (simp flip: set_map)
  then have ids: "(ns_node_id \<circ> snd) ` set ?ixs = ns_node_id ` set (sc_nodes sc)" by (simp only: image_comp[symmetric])
  have "voices (new_world sc) = []" "nodes (new_world sc) = []" by (simp_all add: new_world_def voices_def)
  then have n: "set (voices s1) \<subseteq> {voice}" "fst ` set (nodes s1) = ns_node_id ` set (sc_nodes sc)"
    using add_nodes_fields[OF s1] ids by auto
  have a: "voices (attach_coordinator config s1) = voices s1" "nodes (attach_coordinator config s1) = nodes s1"
    "proto (attach_coordinator config s1) = config" "now_us (attach_coordinator config s1) = 0"
    "coordinator_id (attach_coordinator config s1) = initial_coordinator_id config"
    using now by (simp_all add: attach_coordinator_def voices_def)
  show ?thesis
    by (rule that[OF v c]) (use start_protocol_fields[OF s2] schedule_faults_fields[OF s] n a in \<open>auto simp: voices_def\<close>)
qed

lemma estimate_capacity_interval:
  assumes "estimate_capacity sc = Inr ce" "coordinator_config_of sc = Inr c"
  shows "heartbeat_interval_us c \<noteq> 0"
  using assms by (auto simp: estimate_capacity_def coordinator_config_of_def bind_eq_Inr int_truediv_def split: if_splits)

lemma run_scenario_defined: "run_scenario random sc \<noteq> None"
proof (cases "bind (build_world sc) (\<lambda>s. bind (estimate_capacity sc) (\<lambda>capacity.
             bind (duration_us sc) (\<lambda>duration. Inr (s, capacity, duration))))")
  case (Inr p)
  then obtain s ce d where b: "build_world sc = Inr s" and c: "estimate_capacity sc = Inr ce" and p: "p = (s, ce, d)"
    by (auto simp: bind_eq_Inr)
  obtain config where "coordinator_config_of sc = Inr config" "proto s = config"
    using build_world_fields[OF b] by metis
  then have "heartbeat_interval_us (proto s) \<noteq> 0" using estimate_capacity_interval[OF c] by simp
  then have "run_loop (exec rnd) u s \<noteq> None" for rnd u
    using build_world_inv(1,2)[OF b] by (rule run_loop_returns[rotated 2])
  then have "run (exec rnd) u s \<noteq> None" for rnd u by (simp add: run_def)
  then show ?thesis using Inr p by (simp add: run_scenario_def)
qed (simp add: run_scenario_def)

lemma airtimes_of:
  assumes "voice_config_of sc = Inr v" "coordinator_config_of sc = Inr c" "estimate_capacity sc = Inr ce"
  shows "vc_airtime_us v = Inr (ce_voice_airtime_us ce)" "heartbeat_airtime_us c = Inr (ce_heartbeat_airtime_us ce)"
  using assms
  by (auto simp: voice_config_of_def coordinator_config_of_def estimate_capacity_def vc_airtime_us_def
      heartbeat_airtime_us_def bind_eq_Inr)

lemma build_world_workable:
  assumes b: "build_world sc = Inr s" and ce: "estimate_capacity sc = Inr ce"
    and pos: "0 \<le> ce_voice_airtime_us ce" "0 \<le> ce_heartbeat_airtime_us ce" "1 \<le> sc_max_queue_frames sc"
    and h: "sc_heartbeat_interval_us sc = Inr h" "0 \<le> h" and e: "sc_election_delay_us sc = Inr e" "0 \<le> e"
    and init: "sc_initial_coordinator_id sc \<in> ns_node_id ` set (sc_nodes sc)"
  shows "workable s"
proof -
  obtain v c where v: "voice_config_of sc = Inr v" and c: "coordinator_config_of sc = Inr c"
    and s: "proto s = c" "set (voices s) \<subseteq> {v}" "fst ` set (nodes s) = ns_node_id ` set (sc_nodes sc)"
      "coordinator_id s = initial_coordinator_id c"
    using build_world_fields[OF b] by metis
  have m: "max_queue_frames v = sc_max_queue_frames sc" using v by (auto simp: voice_config_of_def bind_eq_Inr)
  have cf: "heartbeat_interval_us c = h" "election_delay_us c = e" "initial_coordinator_id c = sc_initial_coordinator_id sc"
    using c h(1) e(1) by (auto simp: coordinator_config_of_def bind_eq_Inr)
  show ?thesis
    using airtimes_of[OF v c ce] pos h(2) e(2) init s m cf unfolding workable_def by auto
qed

lemma run_scenario_runs:
  assumes b: "build_world sc = Inr s" and ce: "estimate_capacity sc = Inr ce" and d: "duration_us sc = Inr d"
    and w: "workable s" and pos: "0 \<le> d + ce_voice_airtime_us ce"
  shows "\<exists>t. run_scenario random sc = Some (bind (summarize (trace t)) (\<lambda>sm.
      Inr \<lparr>final_world = t, rr_summary = sm, rr_capacity = ce\<rparr>)) \<and> now_us t = d + ce_voice_airtime_us ce"
proof -
  let ?u = "d + ce_voice_airtime_us ce"
  obtain c where "coordinator_config_of sc = Inr c" "proto s = c" using build_world_fields[OF b] by metis
  then have nz: "heartbeat_interval_us (proto s) \<noteq> 0" using estimate_capacity_interval[OF ce] by simp
  obtain t where t: "run_loop (exec (random (random_seed sc))) ?u s = Some (Inr t)"
    using run_loop_result[OF build_world_inv(1,2)[OF b] w nz] by blast
  then have "run (exec (random (random_seed sc))) ?u s = Some (Inr (t\<lparr>now_us := ?u\<rparr>))"
    using pos build_world_inv(3)[OF b] by (simp add: run_def)
  then show ?thesis
    by (intro exI[of _ "t\<lparr>now_us := ?u\<rparr>"]) (simp add: run_scenario_def b ce d)
qed

end
