(* ===== verification/Sample_Run.thy ===== *)
theory Sample_Run
  imports Progress
begin

text \<open>
  A small scenario whose every derived quantity is an integer, and its complete run, evaluated by
  rewriting: the state with which the properties of runs are instantiated.  One node sends one
  frame at time 0, whose airtime of 20 ms the first heartbeat (at 16 ms) overlaps.
\<close>

definition tiny :: scenario where
  "tiny = \<lparr>sc_name = ''tiny'', duration_seconds = Fin 0, sc_nodes = [\<lparr>ns_node_id = 1, ns_drift_ppm = Fin 0\<rparr>],
     frame_duration_ms = Fin 20, encoded_bitrate_bps = 16000, radio_bitrate_bps = 20000, sc_overhead_bytes = 10,
     security_overhead_bytes = 0, fixed_length_packets = True, sc_preamble_us = 0, slot_spacing_us = 20000,
     schedule_slots = 1, sc_propagation_delay_us = 2, random_seed = 1, packet_loss_probability = Fin 0,
     sc_max_queue_frames = 4, audio_deadline_ms = Fin 100, heartbeat_interval_ms = Fin 20,
     heartbeat_timeout_ms = Fin 300, election_delay_ms = Fin 50, sc_initial_coordinator_id = 1, sc_faults = []\<rparr>"

text \<open>The same with a radio fast enough for the frame to be delivered before the first heartbeat.\<close>

definition tiny_fast :: scenario where
  "tiny_fast = tiny\<lparr>radio_bitrate_bps := 400000, heartbeat_interval_ms := Fin 1, sc_nodes := sc_nodes tiny @ sc_nodes tiny,
     frame_duration_ms := Fin 2\<rparr>"

lemmas scenario_eval = round_scaled_def wire_payload_bytes_def scenario_payload_bytes_def node_count_def
  heartbeat_wire_payload_bytes_def frame_interval_us_def packet_airtime_us_def fint_def
  sc_heartbeat_interval_us_def py_round_def int_truediv_def duration_us_def audio_deadline_us_def
  sc_heartbeat_timeout_us_def sc_election_delay_us_def to_float_eval float_of_int_eval round_half_even_eval

lemmas world_eval = build_world_def voice_config_of_def coordinator_config_of_def new_world_def
  add_node_def new_voice_node_def local_period_def start_node_def Let_def schedule_at_def attach_coordinator_def
  start_protocol_def record_event_def schedule_def schedule_faults_def se_key_def

lemmas exec_eval = generate_def generate_frame_def drop_oldest_def append_frame_def set_node_def node_event_def
  make_packet_def reschedule_def slot_def send_head_def deadline_miss_def vc_airtime_us_def transmit_def collide_def
  mark_collision_def packet_kind_value.simps finish_def outcome_event_def complete_def voice_complete_def
  heartbeat_def heartbeat_packet_def heartbeat_airtime_us_def heartbeat_complete_def check_timeout_def
  loss_probability_def

lemma tiny_capacity:
  "estimate_capacity tiny = Inr \<lparr>ce_voice_airtime_us = 20000, ce_heartbeat_airtime_us = 20000,
     voice_channel_utilization = Fin 1, heartbeat_channel_utilization = Fin 1,
     ce_scheduled_channel_utilization = Fin 2, ce_slot_guard_us = 0, ce_schedule_span_us = 20000\<rparr>"
  by (simp add: estimate_capacity_def tiny_def scenario_eval)

lemma tiny_duration: "duration_us tiny = Inr 0"
  by (simp add: tiny_def scenario_eval)

lemma tiny_world: "\<exists>s. build_world tiny = Inr s"
  by (simp add: world_eval tiny_def scenario_eval)

lemma tiny_run:
  "case run_scenario (\<lambda>_ _. Fin 0) tiny of
     Some (Inr r) \<Rightarrow> length (trace (final_world r)) = 7 | _ \<Rightarrow> False"
  by (simp add: run_scenario_def tiny_capacity tiny_duration)
     (simp add: tiny_def scenario_eval world_eval exec_eval run_def run_loop.simps summarize_def
       ratio_opt_def percentile_def ev_count_def is_voice_event_def voice_count_def detail_at_def
       is_coordinator_change_def max_opt_def)

end
