(* ===== verification/Outcomes.thy ===== *)
theory Outcomes
  imports Sample_Run
begin

text \<open>
  What the trace says of the medium, and the states a scenario can reach.  \<open>reachable\<close> is the step
  relation of the engine read as an inductive predicate: the assembled world, and whatever one more
  callback makes of a reachable state.  \<open>outcome_inv\<close>: an outcome event names a transmission that is
  over, and tells whether it collided.
\<close>

section \<open>Outcome events\<close>

definition outcome_names :: "string set" where
  "outcome_names = {''packet_delivered'', ''packet_collided'', ''packet_lost''}"

definition outcome_of :: "'m medium_state_scheme \<Rightarrow> trace_event \<Rightarrow> nat \<Rightarrow> bool" where
  "outcome_of s e r \<longleftrightarrow> r < length (transmissions s) \<and> r \<notin> set (active s) \<and>
     te_packet_id e = Some (packet_id (tx_packet (transmissions s ! r))) \<and>
     te_time_us e = end_us (transmissions s ! r) \<and>
     (te_event e = ''packet_collided'' \<longleftrightarrow> collided (transmissions s ! r))"

definition outcome_inv :: "'m medium_state_scheme \<Rightarrow> bool" where
  "outcome_inv s \<longleftrightarrow> (\<forall>e \<in> set (trace s). te_event e \<in> outcome_names \<longrightarrow> (\<exists>r. outcome_of s e r)) \<and>
     (\<forall>r < length (transmissions s). r \<notin> set (active s) \<longrightarrow>
        (\<exists>e \<in> set (trace s). te_event e \<in> outcome_names \<and> outcome_of s e r))"

text \<open>A state change that reports no outcome and leaves finished transmissions alone.\<close>

definition quiet :: "'m medium_state_scheme \<Rightarrow> 'm medium_state_scheme \<Rightarrow> bool" where
  "quiet s s' \<longleftrightarrow>
     (\<exists>tl. trace s' = trace s @ tl \<and> (\<forall>e \<in> set tl. te_event e \<notin> outcome_names)) \<and>
     length (transmissions s) \<le> length (transmissions s') \<and>
     (\<forall>r < length (transmissions s). r \<notin> set (active s) \<longrightarrow>
        r \<notin> set (active s') \<and> transmissions s' ! r = transmissions s ! r) \<and>
     (\<forall>r < length (transmissions s'). r \<notin> set (active s') \<longrightarrow> r < length (transmissions s) \<and> r \<notin> set (active s))"

lemma quiet_outcome: "quiet s s' \<Longrightarrow> outcome_of s e r \<Longrightarrow> outcome_of s' e r"
proof -
  assume q: "quiet s s'" and o: "outcome_of s e r"
  have "r < length (transmissions s)" "r \<notin> set (active s)" using o by (simp_all add: outcome_of_def)
  then have "r \<notin> set (active s') \<and> transmissions s' ! r = transmissions s ! r" "r < length (transmissions s')"
    using q unfolding quiet_def by (blast, linarith)
  then show ?thesis using o by (simp add: outcome_of_def)
qed

lemma quiet_inv:
  assumes "quiet s s'" "outcome_inv s"
  shows "outcome_inv s'"
  unfolding outcome_inv_def
proof (intro conjI ballI impI allI)
  fix e assume e: "e \<in> set (trace s')" "te_event e \<in> outcome_names"
  then have "e \<in> set (trace s)" using assms(1) by (auto simp: quiet_def)
  then show "\<exists>r. outcome_of s' e r" using assms e quiet_outcome unfolding outcome_inv_def by blast
next
  fix r assume r: "r < length (transmissions s')" "r \<notin> set (active s')"
  then have "r < length (transmissions s)" "r \<notin> set (active s)" using assms(1) by (auto simp: quiet_def)
  then obtain e where "e \<in> set (trace s)" "te_event e \<in> outcome_names" "outcome_of s e r"
    using assms(2) unfolding outcome_inv_def by blast
  moreover have "set (trace s) \<subseteq> set (trace s')" using assms(1) by (auto simp: quiet_def)
  ultimately show "\<exists>e \<in> set (trace s'). te_event e \<in> outcome_names \<and> outcome_of s' e r"
    using quiet_outcome[OF assms(1)] by blast
qed

lemma quiet_refl [simp]: "quiet s s"
  by (simp add: quiet_def)

lemma quiet_trans:
  assumes "quiet a b" "quiet b c"
  shows "quiet a c"
proof -
  obtain t1 t2 where t: "trace b = trace a @ t1" "\<forall>e \<in> set t1. te_event e \<notin> outcome_names"
    "trace c = trace b @ t2" "\<forall>e \<in> set t2. te_event e \<notin> outcome_names"
    using assms unfolding quiet_def by blast
  then have "trace c = trace a @ (t1 @ t2) \<and> (\<forall>e \<in> set (t1 @ t2). te_event e \<notin> outcome_names)" by auto
  moreover have "\<forall>r < length (transmissions a). r \<notin> set (active a) \<longrightarrow>
        r \<notin> set (active c) \<and> transmissions c ! r = transmissions a ! r"
    using assms unfolding quiet_def by (metis order_less_le_trans)
  moreover have "length (transmissions a) \<le> length (transmissions c)" using assms unfolding quiet_def by linarith
  moreover have "\<forall>r < length (transmissions c). r \<notin> set (active c) \<longrightarrow> r < length (transmissions a) \<and> r \<notin> set (active a)"
    using assms unfolding quiet_def by blast
  ultimately show ?thesis unfolding quiet_def by blast
qed

lemma quiet_same:
  assumes "transmissions s' = transmissions s" "active s' = active s" "trace s' = trace s @ evs"
    "\<forall>e \<in> set evs. te_event e \<notin> outcome_names"
  shows "quiet s s'"
  using assms by (auto simp: quiet_def)

lemma quiet_frame: "transmissions s' = transmissions s \<Longrightarrow> active s' = active s \<Longrightarrow> trace s' = trace s \<Longrightarrow> quiet s s'"
  by (rule quiet_same[where evs = "[]"]) simp_all

lemma quiet_schedule_at: "schedule_at t cb d s = Inr s' \<Longrightarrow> quiet s s'"
  using schedule_at_Inr(2)[of t cb d s s'] by (intro quiet_frame) simp_all

lemma quiet_schedule: "schedule t cb d s = Inr s' \<Longrightarrow> quiet s s'"
  by (rule quiet_schedule_at[OF schedule_Inr(2)])

lemma quiet_record: "ev \<notin> outcome_names \<Longrightarrow> quiet s (record_event ev n p d s)"
  by (auto simp: quiet_def record_event_def)

lemma quiet_node_event: "ev \<notin> outcome_names \<Longrightarrow> quiet s (node_event ev n p d s)"
  unfolding node_event_def by (rule quiet_record)

lemma quiet_deadline_miss: "quiet s (deadline_miss n p age st s)"
  by (auto simp: deadline_miss_def outcome_names_def intro!: quiet_node_event)

lemma quiet_reschedule: "reschedule i cb what s = Inr s' \<Longrightarrow> quiet s s'"
  by (auto simp: reschedule_def Let_def split: if_splits intro: quiet_schedule_at)

lemma quiet_transmit:
  assumes tr: "transmit p air oc s = Inr s'" and inv: "med_inv X s"
  shows "quiet s s'"
proof -
  let ?n = "length (transmissions s)"
  have act: "\<forall>r \<in> set (active s). r < ?n" using inv by (simp add: med_inv_def)
  obtain evs where s': "transmissions s' = marked ?n (active s) (transmissions s @ [new_tx p air s])"
      "trace s' = trace s @ evs @ [tx_start_event p air (now_us s)]" "active s' = active s @ [?n]"
    and ce: "collision_events evs"
    using transmit_Inr[OF tr act] by auto
  have "marked ?n (active s) (transmissions s @ [new_tx p air s]) ! r = transmissions s ! r"
    if "r < ?n" "r \<notin> set (active s)" for r
    using marked_append_nth(1)[of "active s" "transmissions s" "new_tx p air s" "now_us s" r] act that
    by (auto simp: new_tx_def lessThan_def subset_iff)
  moreover have "\<forall>e \<in> set (evs @ [tx_start_event p air (now_us s)]). te_event e \<notin> outcome_names"
    using ce by (auto simp: collision_events_def outcome_names_def tx_start_event_def)
  ultimately show ?thesis unfolding quiet_def s'(1,3) using s'(2) by auto
qed

lemma quiet_generate_frame:
  assumes "generate_frame i s = Inr s'" "i < length (vnodes s)"
  shows "quiet s s'"
  by (rule quiet_same[where evs = "drop (length (trace s)) (trace s')"])
    (use generate_frame_Inr[OF assms] in \<open>auto simp: node_rec_def overflow_events_def outcome_names_def split: if_splits\<close>)

lemma quiet_send_head:
  assumes "send_head i p rest s = Inr s'" and inv: "med_inv {#} s"
  shows "quiet s s'"
proof -
  let ?s1 = "set_node i ((vnodes s ! i)\<lparr>vn_queue := rest\<rparr>) s"
  let ?s2 = "deadline_miss (vnodes s ! i) p (now_us s - created_at_us p) ''queue'' ?s1"
  obtain air where tr: "transmit p air (VoiceCompletion i p) ?s2 = Inr s'"
    using assms(1) by (auto simp: send_head_def Let_def bind_eq_Inr)
  have "med_inv {#} ?s2" using inv by (simp add: deadline_miss_frame med_inv_node_frame)
  then have "quiet ?s2 s'" using quiet_transmit[OF tr] by blast
  moreover have "quiet s ?s1" by (rule quiet_frame) simp_all
  ultimately show ?thesis using quiet_deadline_miss quiet_trans by blast
qed

lemma quiet_complete: "quiet s (complete oc d s)"
proof (cases oc)
  case (VoiceCompletion i p)
  then show ?thesis by (auto simp: complete_def voice_complete_def intro: quiet_deadline_miss)
next
  case (HeartbeatCompletion p)
  have "quiet s (record_event ''heartbeat_received'' n pid det (s\<lparr>last_heartbeat_us := l\<rparr>))" for n pid det l
    by (rule quiet_trans[OF quiet_frame quiet_record]) (simp_all add: outcome_names_def)
  then show ?thesis by (simp add: HeartbeatCompletion complete_def heartbeat_complete_def)
qed (simp add: complete_def)

lemma quiet_heartbeat:
  assumes "heartbeat s = Inr s'" "med_inv {#} s"
  shows "quiet s s'"
proof -
  let ?s1 = "s\<lparr>next_packet_id := next_packet_id s + 1\<rparr>"
  obtain t where t: "schedule (heartbeat_interval_us (proto s)) Heartbeat '''' t = Inr s'"
    and c: "t = s \<or> (\<exists>air. transmit (heartbeat_packet s) air (HeartbeatCompletion (heartbeat_packet s)) ?s1 = Inr t)"
    using heartbeat_Inr[OF assms(1)] by metis
  have m: "med_inv {#} ?s1" using assms(2) by (simp add: med_inv_node_frame)
  have "quiet s ?s1" by (rule quiet_frame) simp_all
  then have "quiet s t" using c quiet_transmit[OF _ m] quiet_trans by (metis quiet_refl)
  then show ?thesis using quiet_schedule[OF t] by (rule quiet_trans)
qed

lemma quiet_check_timeout:
  assumes "check_timeout s = Inr s'"
  shows "quiet s s'"
proof -
  let ?e = "s\<lparr>election_pending := True\<rparr>"
  let ?s1 = "record_event ''heartbeat_timeout'' (Some (coordinator_id s)) None [] ?e"
  obtain t where t: "schedule (max 1 (heartbeat_interval_us (proto s) div 2)) CheckTimeout '''' t = Inr s'"
    and c: "t = s \<or> schedule (election_delay_us (proto s)) Elect '''' ?s1 = Inr t"
    using assms by (auto simp: check_timeout_def bind_eq_Inr split: if_splits)
  have "quiet s ?e" by (rule quiet_frame) simp_all
  moreover have "quiet ?e ?s1" by (rule quiet_record) (simp add: outcome_names_def)
  ultimately have "quiet s ?s1" by (rule quiet_trans)
  then have "quiet s t"
    using c quiet_trans[of s ?s1 t] quiet_schedule[of "election_delay_us (proto s)" Elect "''''" ?s1 t] by auto
  then show ?thesis using quiet_schedule[OF t] by (rule quiet_trans)
qed

lemma quiet_elect: "quiet s (elect s)"
proof -
  have "quiet s (elected w s)" for w
    unfolding elected_def by (rule quiet_trans[OF quiet_frame quiet_record]) (simp_all add: outcome_names_def)
  moreover have "quiet t (t\<lparr>election_pending := b\<rparr>)" for t :: world and b by (rule quiet_frame) simp_all
  ultimately show ?thesis using elect_cases[of s] quiet_trans by metis
qed

lemma finish_outcome_inv:
  assumes fin: "finish rnd tx s = Inr (s', dlv, reason)" and med: "med_inv {#Finish tx oc#} s"
    and inv: "outcome_inv s"
  shows "outcome_inv s'"
proof -
  note F = med_inv_Finish[OF med]
  let ?t = "transmissions s ! tx"
  obtain e where s': "transmissions s' = transmissions s" "active s' = remove1 tx (active s)" "trace s' = trace s @ [e]"
    and e: "te_packet_id e = Some (packet_id (tx_packet ?t))" "te_time_us e = now_us s"
      "te_event e = ''packet_collided'' \<longleftrightarrow> collided ?t" and nm: "te_event e \<in> outcome_names"
    using finish_Inr[OF med fin] unfolding finish_post_def Let_def by (auto simp: outcome_name_def outcome_names_def)
  have "distinct (active s)" using med by (simp add: med_inv_def)
  then have act: "set (active s') = set (active s) - {tx}" by (simp add: s' set_remove1_eq)
  have new: "outcome_of s' e tx" using e F(2,3) act by (simp add: outcome_of_def s'(1))
  have name: "te_event e \<in> outcome_names" using nm .
  moreover have old: "outcome_of s' d r" if "outcome_of s d r" for d r
    using that act by (auto simp: outcome_of_def s'(1))
  moreover have "\<exists>d \<in> set (trace s @ [e]). te_event d \<in> outcome_names \<and> outcome_of s' d r"
    if "r < length (transmissions s)" "r \<notin> set (active s) - {tx}" for r
  proof (cases "r = tx")
    case True then show ?thesis using new name by auto
  next
    case False
    then obtain d where "d \<in> set (trace s)" "te_event d \<in> outcome_names" "outcome_of s d r"
      using inv \<open>r < _\<close> \<open>r \<notin> _\<close> unfolding outcome_inv_def by blast
    then show ?thesis using old by auto
  qed
  moreover have "\<exists>r. outcome_of s' d r" if "d \<in> set (trace s @ [e])" "te_event d \<in> outcome_names" for d
  proof (cases "d = e")
    case True then show ?thesis using new by blast
  next
    case False
    then have "d \<in> set (trace s)" using that(1) by simp
    then show ?thesis using inv that(2) old unfolding outcome_inv_def by blast
  qed
  ultimately show ?thesis unfolding outcome_inv_def s'(1,3) act by blast
qed

lemma exec_outcome_inv:
  assumes ex: "exec rnd cb s = Inr s'" and inv: "world_inv {#cb#} s" and o: "outcome_inv s"
  shows "outcome_inv s'"
proof -
  have valid: "cb_valid (length (vnodes s)) cb"
    using inv by (simp add: world_inv_def proto_inv_def pending_add)
  have drop: "\<not> is_Finish cb \<Longrightarrow> med_inv {#} s" using inv med_inv_drop_X by (auto simp: world_inv_def)
  show ?thesis
  proof (cases cb)
    case (Generate i)
    obtain t where t: "(if vn_enabled (vnodes s ! i) then generate_frame i s else Inr s) = Inr t"
      "reschedule i (Generate i) '' next frame'' t = Inr s'"
      using ex Generate by (auto simp: generate_def bind_eq_Inr)
    have "quiet s t"
    proof (cases "vn_enabled (vnodes s ! i)")
      case True
      then show ?thesis using t(1) valid Generate quiet_generate_frame by simp
    qed (use t(1) in simp)
    then show ?thesis using quiet_reschedule[OF t(2)] quiet_trans quiet_inv o by blast
  next
    case (Slot i)
    have m: "med_inv {#} s" using drop Slot by simp
    obtain t where t: "(case vn_queue (vnodes s ! i) of
             p # rest \<Rightarrow> if vn_enabled (vnodes s ! i) then send_head i p rest s else Inr s
           | [] \<Rightarrow> Inr s) = Inr t" "reschedule i (Slot i) '' next slot'' t = Inr s'"
      using ex Slot by (auto simp: slot_def bind_eq_Inr)
    have "quiet s t"
    proof (cases "vn_queue (vnodes s ! i)")
      case (Cons q rest)
      then show ?thesis using t(1) quiet_send_head[OF _ m] by (cases "vn_enabled (vnodes s ! i)") simp_all
    qed (use t(1) in simp)
    then show ?thesis using quiet_reschedule[OF t(2)] quiet_trans quiet_inv o by blast
  next
    case (SetEnabled i en)
    have "quiet s (set_enabled i en s)" unfolding set_enabled_def Let_def
      by (rule quiet_trans[OF quiet_frame quiet_node_event]) (simp_all add: outcome_names_def)
    then show ?thesis using ex SetEnabled o quiet_inv by auto
  next
    case (Finish tx oc)
    then obtain s1 d r where fin: "finish rnd tx s = Inr (s1, d, r)" and s': "s' = complete oc d s1"
      using ex by (auto simp: bind_eq_Inr)
    have m: "med_inv {#Finish tx oc#} s" using inv Finish by (simp add: world_inv_def)
    have "outcome_inv s1" by (rule finish_outcome_inv[OF fin m o])
    then show ?thesis unfolding s' using quiet_complete quiet_inv by blast
  next
    case Heartbeat
    then have "heartbeat s = Inr s'" "med_inv {#} s" using ex drop by simp_all
    then show ?thesis using quiet_inv[OF quiet_heartbeat o] by blast
  next
    case CheckTimeout
    then have "check_timeout s = Inr s'" using ex by simp
    then show ?thesis using quiet_inv[OF quiet_check_timeout o] by blast
  next
    case Elect
    then have "s' = elect s" using ex by simp
    then show ?thesis using quiet_inv[OF quiet_elect o] by simp
  qed
qed

section \<open>Reachable states\<close>

inductive reachable :: "(nat \<Rightarrow> pyfloat) \<Rightarrow> scenario \<Rightarrow> world \<Rightarrow> bool" for rnd sc where
  start: "build_world sc = Inr s \<Longrightarrow> reachable rnd sc s"
| step: "reachable rnd sc s \<Longrightarrow> heappop (events s) = Some (e, rest) \<Longrightarrow>
     exec rnd (se_callback e) (after_pop e rest s) = Inr s' \<Longrightarrow> reachable rnd sc s'"

text \<open>The whole invariant, at every reachable state.\<close>

definition state_ok :: "world \<Rightarrow> bool" where
  "state_ok s \<longleftrightarrow> world_inv {#} s \<and> sim_inv s \<and> outcome_inv s"

lemma state_ok_step:
  assumes ok: "state_ok s" and pop: "heappop (events s) = Some (e, rest)"
    and ex: "exec rnd (se_callback e) (after_pop e rest s) = Inr s'"
  shows "state_ok s'"
proof -
  have inv: "world_inv {#} s" "sim_inv s" "outcome_inv s" using ok by (simp_all add: state_ok_def)
  have w: "world_inv {#se_callback e#} (after_pop e rest s)" by (rule world_inv_after_pop[OF inv(1,2) pop])
  have "outcome_inv (after_pop e rest s)" using inv(3) by (simp add: outcome_inv_def outcome_of_def after_pop_def)
  then have "outcome_inv s'" by (rule exec_outcome_inv[OF ex w])
  moreover have "sim_inv s'" using sim.exec_step[OF ex] after_pop_inv[OF inv(2) pop] by (simp add: sim_step_ok_def)
  ultimately show ?thesis using exec_world_inv[OF ex w] by (simp add: state_ok_def)
qed

lemma no_outcome_inv: "(\<forall>e \<in> set (trace s). te_event e \<notin> outcome_names) \<Longrightarrow> transmissions s = [] \<Longrightarrow> outcome_inv s"
  by (simp add: outcome_inv_def)

lemma build_world_trace:
  assumes "build_world sc = Inr s"
  shows "(\<forall>e \<in> set (trace s). te_event e = ''coordinator_selected'') \<and> transmissions s = []"
proof -
  let ?P = "\<lambda>s. (\<forall>e \<in> set (trace s). te_event e = ''coordinator_selected'') \<and> transmissions s = []"
  obtain voice s1 config s2 where
    s1: "fold_res (add_node voice sc) (zip [0..<length (sc_nodes sc)] (sc_nodes sc)) (new_world sc) = Inr s1"
    and s2: "start_protocol (attach_coordinator config s1) = Inr s2" and s: "schedule_faults (sc_faults sc) s2 = Inr s"
    using assms by (auto simp: build_world_def bind_eq_Inr)
  have "?P s1" using s1
  proof (rule fold_res_invariant[where P = ?P])
    show "?P (new_world sc)" by (simp add: new_world_def)
    fix x t t' assume "?P t" "add_node voice sc x t = Inr t'"
    then show "?P t'"
      by (auto simp: add_node_def start_node_def Let_def bind_eq_Inr split: prod.splits dest!: schedule_at_Inr(2))
  qed
  then have "?P s2" using s2
    by (auto simp: start_protocol_def Let_def bind_eq_Inr attach_coordinator_def record_event_def
        dest!: schedule_Inr(2) schedule_at_Inr(2))
  with s[unfolded schedule_faults_def] show ?thesis
  proof (rule fold_res_invariant[where P = ?P])
    fix x t t' assume "?P t" "schedule_fault x t = Inr t'"
    then show "?P t'"
      unfolding schedule_fault_def bind_eq_Inr
      by (auto simp: add_loss_window_def split: if_splits option.splits dest!: schedule_at_Inr(2))
  qed
qed

lemma reachable_ok: "reachable rnd sc s \<Longrightarrow> state_ok s"
proof (induction rule: reachable.induct)
  case (start s)
  then show ?case using build_world_inv build_world_trace
    by (auto simp: state_ok_def outcome_names_def intro!: no_outcome_inv)
next
  case (step s e rest s')
  then show ?case using state_ok_step by blast
qed

lemma run_scenario_reachable:
  assumes "run_scenario random sc = Some (Inr r)"
  shows "\<exists>t u. reachable (random (random_seed sc)) sc t \<and> final_world r = t\<lparr>now_us := u\<rparr> \<and> now_us t \<le> u \<and>
    (\<forall>e \<in> set (events t). u < se_time_us e) \<and> summarize (trace t) = Inr (rr_summary r)"
proof (rule run_scenario_Inr[OF assms])
  fix s d t
  let ?u = "d + ce_voice_airtime_us (rr_capacity r)" and ?rnd = "random (random_seed sc)"
  assume b: "build_world sc = Inr s" and run: "run_loop (exec ?rnd) ?u s = Some (Inr t)"
    and f: "final_world r = t\<lparr>now_us := ?u\<rparr>" "summarize (trace t) = Inr (rr_summary r)" "now_us t \<le> ?u"
      "\<forall>e \<in> set (events t). ?u < se_time_us e"
  have "reachable ?rnd sc t \<and> run_ok ?u s t"
    using run reachable.start[OF b] build_world_inv(2)[OF b]
    by (rule sim.run_loop_rule) (rule reachable.step)
  then show ?thesis using f by blast
qed

lemmas reachable_inv = reachable_ok[unfolded state_ok_def world_inv_def]

text \<open>While anything on the air is still to finish, its last instant is a pending event.\<close>

lemma active_finishes_later:
  assumes "med_inv {#} s" "\<forall>e \<in> set (events s). u < se_time_us e" "r \<in> set (active s)"
  shows "u < end_us (transmissions s ! r)"
proof -
  have "mset (active s) = finish_refs (pending {#} s)" using assms(1) by (simp add: med_inv_def)
  then have "r \<in># finish_refs (pending {#} s)" using assms(3) by (metis set_mset_mset)
  then obtain e where "e \<in> set (events s)" "is_Finish (se_callback e)" "r = cb_ref (se_callback e)"
    by (auto simp: finish_refs_def pending_def)
  then show ?thesis using assms(1,2) by (auto simp: med_inv_def)
qed

text \<open>The end of the small run is a reachable state in which both packets have been on the air.\<close>

lemma tiny_final:
  "\<exists>r. run_scenario (\<lambda>_ _. Fin 0) tiny = Some (Inr r) \<and> 0 < length (transmissions (final_world r)) \<and>
     end_us (transmissions (final_world r) ! 0) \<le> now_us (final_world r)"
proof -
  have "case run_scenario (\<lambda>_ _. Fin 0) tiny of Some (Inr r) \<Rightarrow> 0 < length (transmissions (final_world r)) \<and>
      end_us (transmissions (final_world r) ! 0) \<le> now_us (final_world r) | _ \<Rightarrow> False"
    by (simp add: run_scenario_def tiny_capacity tiny_duration)
       (simp add: tiny_def scenario_eval world_eval exec_eval run_def run_loop.simps summarize_def
         ratio_opt_def percentile_def ev_count_def is_voice_event_def voice_count_def detail_at_def
         is_coordinator_change_def max_opt_def)
  then show ?thesis by (auto split: option.splits sum.splits)
qed

lemma tiny_reachable:
  "\<exists>s. reachable (\<lambda>_. Fin 0) tiny s \<and> length (transmissions s) = 2 \<and> length (trace s) = 7 \<and> length (vnodes s) = 1 \<and>
     te_event (trace s ! 6) = ''packet_collided''"
proof -
  have ex: "case run_scenario (\<lambda>_ _. Fin 0) tiny of Some (Inr r) \<Rightarrow> length (transmissions (final_world r)) = 2 \<and>
      length (trace (final_world r)) = 7 \<and> length (vnodes (final_world r)) = 1 \<and>
      te_event (trace (final_world r) ! 6) = ''packet_collided'' | _ \<Rightarrow> False"
    by (simp add: run_scenario_def tiny_capacity tiny_duration)
       (simp add: tiny_def scenario_eval world_eval exec_eval run_def run_loop.simps summarize_def
         ratio_opt_def percentile_def ev_count_def is_voice_event_def voice_count_def detail_at_def
         is_coordinator_change_def max_opt_def)
  then obtain r where r: "run_scenario (\<lambda>_ _. Fin 0) tiny = Some (Inr r)" by (auto split: option.splits sum.splits)
  show ?thesis using run_scenario_reachable[OF r] ex r by auto
qed

end
