(* ===== verification/Leader_Spec.thy ===== *)
theory Leader_Spec
  imports Outcomes
begin

text \<open>
  The coordinator protocol's abstract specification, and the refinement of it by the model of
  \<^verbatim>\<open>protocol.py\<close>.  A leader is heard, suspected when it has been silent for longer than the timeout, and
  then replaced by the least of the nodes alive.  The specification knows neither packets nor timers.
\<close>

record leader =
  chief :: int
  heard_us :: int
  suspected :: bool

inductive leader_step :: "int \<Rightarrow> int \<Rightarrow> int set \<Rightarrow> leader \<Rightarrow> leader \<Rightarrow> bool" for timeout t alive where
  idle: "leader_step timeout t alive l l"
| hear: "leader_step timeout t alive l (l\<lparr>heard_us := t\<rparr>)"
| suspect: "timeout < t - heard_us l \<Longrightarrow> \<not> suspected l \<Longrightarrow> leader_step timeout t alive l (l\<lparr>suspected := True\<rparr>)"
| replace: "suspected l \<Longrightarrow> alive \<noteq> {} \<Longrightarrow>
     leader_step timeout t alive l \<lparr>chief = Min alive, heard_us = t, suspected = False\<rparr>"
| give_up: "suspected l \<Longrightarrow> alive = {} \<Longrightarrow> leader_step timeout t alive l (l\<lparr>suspected := False\<rparr>)"

inductive_simps leader_step_iff: "leader_step timeout t alive l l'"

definition leader_of :: "world \<Rightarrow> leader" where
  "leader_of s = \<lparr>chief = coordinator_id s, heard_us = last_heartbeat_us s, suspected = election_pending s\<rparr>"

definition alive_ids :: "world \<Rightarrow> int set" where
  "alive_ids s = {k. \<exists>i. (k, i) \<in> set (nodes s) \<and> vn_enabled (vnodes s ! i)}"

lemma coord_same_leader: "coord_same s s' \<Longrightarrow> leader_of s' = leader_of s"
  by (simp add: coord_same_def leader_of_def)

lemma leader_of_after_pop: "leader_of (after_pop e rest s) = leader_of s" "alive_ids (after_pop e rest s) = alive_ids s"
  by (simp_all add: after_pop_def leader_of_def alive_ids_def)

lemma set_enabled_ids: "set (enabled_ids s) = alive_ids s"
  by (force simp: enabled_ids_def alive_ids_def)

text \<open>The three closures of the protocol and the completion of a heartbeat, one abstract step each.\<close>

lemma elect_refines:
  assumes "election_pending s"
  shows "leader_step T (now_us s) (alive_ids s) (leader_of s) (leader_of (elect s))"
proof (cases "enabled_ids s")
  case Nil
  then have "alive_ids s = {}" using set_enabled_ids[of s] by simp
  moreover have "leader_of (elect s) = (leader_of s)\<lparr>suspected := False\<rparr>"
    by (simp add: elect_def Nil leader_of_def)
  ultimately show ?thesis using assms leader_step.give_up[of "leader_of s" "alive_ids s" T "now_us s"] by (simp add: leader_of_def)
next
  case (Cons k ks)
  have "sorted (enabled_ids s)" by (simp add: enabled_ids_def)
  then have "\<forall>x \<in> set (enabled_ids s). k \<le> x" "k \<in> set (enabled_ids s)" by (simp_all add: Cons)
  then have "Min (alive_ids s) = k" "alive_ids s \<noteq> {}"
    unfolding set_enabled_ids[symmetric] by (auto intro!: Min_eqI)
  moreover have "leader_of (elect s) = \<lparr>chief = k, heard_us = now_us s, suspected = False\<rparr>"
    by (simp add: elect_def Cons leader_of_def record_event_def)
  ultimately show ?thesis using assms leader_step.replace[of "leader_of s" "alive_ids s" T "now_us s"] by (simp add: leader_of_def)
qed

lemma check_timeout_refines:
  assumes "check_timeout s = Inr s'"
  shows "leader_step (heartbeat_timeout_us (proto s)) (now_us s) A (leader_of s) (leader_of s')"
proof -
  let ?s1 = "record_event ''heartbeat_timeout'' (Some (coordinator_id s)) None [] (s\<lparr>election_pending := True\<rparr>)"
  have fr: "leader_of ?s1 = (leader_of s)\<lparr>suspected := True\<rparr>" by (simp add: leader_of_def record_event_def)
  obtain t where t: "schedule (max 1 (heartbeat_interval_us (proto s) div 2)) CheckTimeout '''' t = Inr s'"
    and c: "t = s \<or> heartbeat_timeout_us (proto s) < now_us s - last_heartbeat_us s \<and> \<not> election_pending s \<and>
      schedule (election_delay_us (proto s)) Elect '''' ?s1 = Inr t"
    using assms by (auto simp: check_timeout_def bind_eq_Inr split: if_splits)
  have s': "leader_of s' = leader_of t" using coord_same_leader[OF schedule_same[OF t]] .
  from c show ?thesis
  proof
    assume "t = s" then show ?thesis by (simp add: s' leader_step.idle)
  next
    assume e: "heartbeat_timeout_us (proto s) < now_us s - last_heartbeat_us s \<and> \<not> election_pending s \<and>
      schedule (election_delay_us (proto s)) Elect '''' ?s1 = Inr t"
    then have "leader_of t = (leader_of s)\<lparr>suspected := True\<rparr>"
      using coord_same_leader[OF schedule_same] fr by metis
    moreover have "heartbeat_timeout_us (proto s) < now_us s - heard_us (leader_of s)" "\<not> suspected (leader_of s)"
      using e by (simp_all add: leader_of_def)
    ultimately show ?thesis by (simp add: s' leader_step.suspect)
  qed
qed

lemma heartbeat_refines: "heartbeat s = Inr s' \<Longrightarrow> leader_of s' = leader_of s"
proof -
  assume hb: "heartbeat s = Inr s'"
  obtain t where t: "schedule (heartbeat_interval_us (proto s)) Heartbeat '''' t = Inr s'"
    and c: "t = s \<or> (\<exists>air. transmit (heartbeat_packet s) air (HeartbeatCompletion (heartbeat_packet s))
         (s\<lparr>next_packet_id := next_packet_id s + 1\<rparr>) = Inr t)"
    using heartbeat_Inr[OF hb] by metis
  have "coord_same s t" using c node_ops_same(4) transmit_same coord_same_trans coord_same_refl by blast
  then show ?thesis using schedule_same[OF t] coord_same_trans coord_same_leader by blast
qed

lemma complete_refines: "leader_step T (now_us s) A (leader_of s) (leader_of (complete oc d s))"
proof (cases oc)
  case (HeartbeatCompletion p)
  have "leader_of (heartbeat_complete p d s) = (if d then (leader_of s)\<lparr>heard_us := now_us s\<rparr> else leader_of s)"
    by (simp add: heartbeat_complete_def leader_of_def record_event_def)
  then show ?thesis by (simp add: HeartbeatCompletion complete_def leader_step.idle leader_step.hear)
next
  case (VoiceCompletion i p)
  then show ?thesis using coord_same_leader[OF node_ops_same(7)] by (simp add: complete_def leader_step.idle)
qed (simp add: complete_def leader_step.idle)

text \<open>C13 (refinement). The coordinator protocol refines its specification: whatever closure the engine runs in a
  reachable state, the protocol's part of the state makes one step of the abstract leader machine (or
  none), at the closure's time and for the nodes then enabled.  So a leader changes only after having been
  silent for longer than the timeout, and then to the least enabled node.\<close>

theorem protocol_refines:
  assumes "reachable rnd sc s" "heappop (events s) = Some (e, rest)"
    and "exec rnd (se_callback e) (after_pop e rest s) = Inr s'"
  shows "leader_step (heartbeat_timeout_us (proto s)) (se_time_us e) (alive_ids s) (leader_of s) (leader_of s')"
proof -
  let ?t = "after_pop e rest s"
  have inv: "world_inv {#se_callback e#} ?t"
    using world_inv_after_pop[OF _ _ assms(2)] reachable_ok[OF assms(1)] by (simp add: state_ok_def)
  have f: "now_us ?t = se_time_us e" "proto ?t = proto s" "vnodes ?t = vnodes s" by (simp_all add: after_pop_def)
  have idle: "leader_of s' = leader_of ?t \<Longrightarrow> ?thesis" by (simp add: leader_of_after_pop leader_step.idle)
  show ?thesis
  proof (cases "se_callback e")
    case (Generate i)
    then have "i < length (vnodes ?t)" using inv by (auto simp: world_inv_def proto_inv_def pending_def)
    then show ?thesis using assms(3) Generate by (intro idle coord_same_leader) (auto intro: generate_same)
  next
    case (Slot i) then show ?thesis using assms(3) by (intro idle coord_same_leader) (auto intro: slot_same)
  next
    case (SetEnabled i en) then show ?thesis using assms(3) node_ops_same(6) by (intro idle coord_same_leader) auto
  next
    case (Finish tx oc)
    then obtain u d r where u: "finish rnd tx ?t = Inr (u, d, r)" "s' = complete oc d u" using assms(3) by (auto simp: bind_eq_Inr)
    have "now_us u = now_us ?t" using finish_step[OF u(1)] by (simp add: sim_step_ok_def)
    moreover have "leader_of u = leader_of s" using coord_same_leader[OF finish_same[OF u(1)]] by (simp add: leader_of_after_pop)
    ultimately show ?thesis using complete_refines[of _ u] u(2) f by metis
  next
    case Heartbeat then show ?thesis using assms(3) by (intro idle heartbeat_refines) simp
  next
    case CheckTimeout
    then show ?thesis using check_timeout_refines[of ?t s'] assms(3) f by (simp add: leader_of_after_pop)
  next
    case Elect
    then have "election_pending ?t" using inv by (auto simp: world_inv_def proto_inv_def pending_def split: if_splits)
    then show ?thesis using elect_refines[of ?t] assms(3) f Elect by (simp add: leader_of_after_pop)
  qed
qed

theorem protocol_refines_witness:
  "\<exists>s e rest s'. reachable (\<lambda>_. Fin 0) tiny s \<and> heappop (events s) = Some (e, rest) \<and>
     exec (\<lambda>_. Fin 0) (se_callback e) (after_pop e rest s) = Inr s' \<and>
     leader_step (heartbeat_timeout_us (proto s)) (se_time_us e) (alive_ids s) (leader_of s) (leader_of s')"
proof -
  obtain u where u: "reachable (\<lambda>_. Fin 0) tiny u" "length (trace u) = 7" "te_event (trace u ! 6) = ''packet_collided''"
    using tiny_reachable by blast
  from u(1) show ?thesis
  proof cases
    case start
    have "trace u ! 6 \<in> set (trace u)" using u(2) by simp
    then show ?thesis using build_world_trace[OF start] u(3) by auto
  next
    case (step s e rest)
    then show ?thesis using protocol_refines[OF step] by blast
  qed
qed

end
