(* ===== verification/Py_Format.thy ===== *)
theory Py_Format
  imports Py_Value
begin

text \<open>
  Format specifications \<^verbatim>\<open>.nf\<close> and \<^verbatim>\<open>g\<close> of Python's floats (correctly rounded, ties to even, from the
  exact value), and the stable \<^verbatim>\<open>sorted\<close> for an arbitrary comparison \<open>lt\<close>.
\<close>

section \<open>Formatting floats\<close>

definition zero_pad :: "nat \<Rightarrow> string \<Rightarrow> string" where
  "zero_pad k s = replicate (k - length s) (CHR ''0'') @ s"

definition fixed_digits :: "nat \<Rightarrow> nat \<Rightarrow> string" where
  "fixed_digits k n =
     (let s = zero_pad (Suc k) (nat_digits n); i = length s - k
      in if k = 0 then s else take i s @ ''.'' @ drop i s)"

fun show_fixed :: "nat \<Rightarrow> pyfloat \<Rightarrow> string" where
  "show_fixed k (Fin x) =
     (if x < 0 then ''-'' else '''') @ fixed_digits k (nat (round_half_even (\<bar>x\<bar> * 10 ^ k)))"
| "show_fixed k PInf = ''inf''"
| "show_fixed k NInf = ''-inf''"
| "show_fixed k NaN = ''nan''"

text \<open>The decimal exponent of \<open>x > 0\<close>: the \<open>e\<close> with \<open>10 ^ e \<le> x < 10 ^ (e + 1)\<close>.\<close>

definition ilog10 :: "rat \<Rightarrow> int" where
  "ilog10 x =
     (if 1 \<le> x then int (length (nat_digits (nat \<lfloor>x\<rfloor>))) - 1
      else - int (length (nat_digits (nat (\<lceil>1 / x\<rceil> - 1)))))"

definition strip_zeros :: "string \<Rightarrow> string" where
  "strip_zeros s = rev (dropWhile (\<lambda>c. c = CHR ''0'') (rev s))"

definition join_point :: "string \<Rightarrow> string \<Rightarrow> string" where
  "join_point a b = (let b' = strip_zeros b in if b' = [] then a else a @ ''.'' @ b')"

fun show_g :: "pyfloat \<Rightarrow> string" where
  "show_g (Fin x) =
     (if x = 0 then ''0''
      else let e0 = ilog10 \<bar>x\<bar>; m0 = round_half_even (\<bar>x\<bar> * ten_pow (5 - e0));
               (m, e) = (if m0 = 1000000 then (100000, e0 + 1) else (m0, e0));
               d = nat_digits (nat m)
        in (if x < 0 then ''-'' else '''') @
           (if -4 \<le> e \<and> e < 6
            then if 0 \<le> e then join_point (take (nat e + 1) d) (drop (nat e + 1) d)
                 else join_point ''0'' (replicate (nat (- e) - 1) (CHR ''0'') @ d)
            else join_point (take 1 d) (drop 1 d) @ ''e'' @ (if e < 0 then ''-'' else ''+'') @
                 zero_pad 2 (nat_digits (nat \<bar>e\<bar>))))"
| "show_g PInf = ''inf''"
| "show_g NInf = ''-inf''"
| "show_g NaN = ''nan''"

definition join_lines :: "string list \<Rightarrow> string" where
  "join_lines ls = (case ls of [] \<Rightarrow> [] | l # r \<Rightarrow> l @ concat (map (\<lambda>x. CHR 0x0A # x) r))"

section \<open>Stable sorting by a comparison\<close>

fun py_insert :: "('a \<Rightarrow> 'a \<Rightarrow> bool) \<Rightarrow> 'a \<Rightarrow> 'a list \<Rightarrow> 'a list" where
  "py_insert lt x [] = [x]"
| "py_insert lt x (y # ys) = (if lt y x then y # py_insert lt x ys else x # y # ys)"

definition py_sorted :: "('a \<Rightarrow> 'a \<Rightarrow> bool) \<Rightarrow> 'a list \<Rightarrow> 'a list" where
  "py_sorted lt xs = foldr (py_insert lt) xs []"

lemma mset_py_insert: "mset (py_insert lt x ys) = add_mset x (mset ys)"
  by (induction ys) auto

lemma mset_py_sorted: "mset (py_sorted lt xs) = mset xs"
  by (induction xs) (simp_all add: py_sorted_def mset_py_insert)

lemma set_py_sorted: "set (py_sorted lt xs) = set xs"
  using mset_py_sorted[of lt xs] by (metis set_mset_mset)

text \<open>Where the comparison is that of a linearly ordered key, \<open>py_sorted\<close> is the library's stable sort.\<close>

lemma py_insert_key:
  "(\<forall>y \<in> set (x # ys). \<forall>z \<in> set (x # ys). lt y z \<longleftrightarrow> f y < f z) \<Longrightarrow> py_insert lt x ys = insort_key f x ys"
  for f :: "'a \<Rightarrow> 'b :: linorder"
  by (induction ys) (auto simp: not_le)

lemma py_sorted_key:
  fixes f :: "'a \<Rightarrow> 'b :: linorder"
  assumes "\<forall>y \<in> set xs. \<forall>z \<in> set xs. lt y z \<longleftrightarrow> f y < f z"
  shows "py_sorted lt xs = sort_key f xs"
  using assms
proof (induction xs)
  case (Cons x xs)
  have "py_sorted lt (x # xs) = py_insert lt x (sort_key f xs)"
    using Cons by (simp add: py_sorted_def)
  also have "\<dots> = insort_key f x (sort_key f xs)" using Cons.prems by (intro py_insert_key) simp
  finally show ?case by simp
qed (simp add: py_sorted_def)

section \<open>Floats without NaN are linearly ordered\<close>

instantiation pyfloat :: linorder
begin

definition less_eq_pyfloat :: "pyfloat \<Rightarrow> pyfloat \<Rightarrow> bool" where
  "less_eq_pyfloat a b \<longleftrightarrow> b = NaN \<or> a \<noteq> NaN \<and> fle a b"

definition less_pyfloat :: "pyfloat \<Rightarrow> pyfloat \<Rightarrow> bool" where
  "less_pyfloat a b \<longleftrightarrow> a \<noteq> NaN \<and> (b = NaN \<or> flt a b)"

instance
proof
  fix a b c :: pyfloat
  show "(a < b) = (a \<le> b \<and> \<not> b \<le> a)"
    by (cases a; cases b) (auto simp: less_eq_pyfloat_def less_pyfloat_def)
  show "a \<le> a" by (cases a) (auto simp: less_eq_pyfloat_def)
  show "a \<le> b \<Longrightarrow> b \<le> c \<Longrightarrow> a \<le> c"
    by (cases a; cases b; cases c) (auto simp: less_eq_pyfloat_def)
  show "a \<le> b \<Longrightarrow> b \<le> a \<Longrightarrow> a = b"
    by (cases a; cases b) (auto simp: less_eq_pyfloat_def)
  show "a \<le> b \<or> b \<le> a"
    by (cases a; cases b) (auto simp: less_eq_pyfloat_def)
qed

end

lemma flt_less: "a \<noteq> NaN \<Longrightarrow> b \<noteq> NaN \<Longrightarrow> flt a b \<longleftrightarrow> a < b"
  by (simp add: less_pyfloat_def)

lemma fle_less_eq: "a \<noteq> NaN \<Longrightarrow> b \<noteq> NaN \<Longrightarrow> fle a b \<longleftrightarrow> a \<le> b"
  by (simp add: less_eq_pyfloat_def)

end
