(* ===== verification/Sweep.thy ===== *)
theory Sweep
  imports Progress Py_Format
begin

text \<open>
  \<^verbatim>\<open>simulator/src/openref_sim/sweep.py\<close>: the parameter sweep, its screening criteria, its ranking and
  the Markdown table.  Writing the files and the command line are not modelled; the rows of the CSV
  file are (\<open>as_dict\<close> against \<open>csv_fields\<close>).
\<close>

section \<open>Results and parameters\<close>

record sweep_result =
  feasible :: bool
  scenario_name :: string
  sr_frame_duration_ms :: pyfloat
  sr_encoded_bitrate_bps :: int
  sr_radio_bitrate_bps :: int
  sr_slot_spacing_us :: int
  sr_payload_bytes :: int
  sr_voice_airtime_us :: int
  sr_heartbeat_airtime_us :: int
  sr_slot_guard_us :: int
  sr_schedule_span_us :: int
  sr_scheduled_channel_utilization :: pyfloat
  sr_delivery_ratio :: "pyfloat option"
  sr_mean_latency_us :: "pyfloat option"
  sr_p95_latency_us :: "pyfloat option"
  sr_p99_latency_us :: "pyfloat option"
  sr_max_latency_us :: "int option"
  sr_collided :: int
  sr_randomly_lost :: int
  sr_queue_overflows :: int
  sr_audio_deadline_misses :: int
  sr_max_queue_depth :: int

definition csv_fields :: "string list" where
  "csv_fields = [''feasible'', ''scenario_name'', ''frame_duration_ms'', ''encoded_bitrate_bps'', ''radio_bitrate_bps'',
     ''slot_spacing_us'', ''payload_bytes'', ''voice_airtime_us'', ''heartbeat_airtime_us'', ''slot_guard_us'',
     ''schedule_span_us'', ''scheduled_channel_utilization'', ''delivery_ratio'', ''mean_latency_us'',
     ''p95_latency_us'', ''p99_latency_us'', ''max_latency_us'', ''collided'', ''randomly_lost'',
     ''queue_overflows'', ''audio_deadline_misses'', ''max_queue_depth'']"

fun opt_float :: "pyfloat option \<Rightarrow> pyval" where
  "opt_float None = PNone"
| "opt_float (Some f) = PFloat f"

fun opt_int :: "int option \<Rightarrow> pyval" where
  "opt_int None = PNone"
| "opt_int (Some n) = PInt n"

definition as_dict :: "sweep_result \<Rightarrow> (string \<times> pyval) list" where
  "as_dict r = [(''feasible'', PBool (feasible r)), (''scenario_name'', PStr (scenario_name r)),
     (''frame_duration_ms'', PFloat (sr_frame_duration_ms r)), (''encoded_bitrate_bps'', PInt (sr_encoded_bitrate_bps r)),
     (''radio_bitrate_bps'', PInt (sr_radio_bitrate_bps r)), (''slot_spacing_us'', PInt (sr_slot_spacing_us r)),
     (''payload_bytes'', PInt (sr_payload_bytes r)), (''voice_airtime_us'', PInt (sr_voice_airtime_us r)),
     (''heartbeat_airtime_us'', PInt (sr_heartbeat_airtime_us r)), (''slot_guard_us'', PInt (sr_slot_guard_us r)),
     (''schedule_span_us'', PInt (sr_schedule_span_us r)),
     (''scheduled_channel_utilization'', PFloat (sr_scheduled_channel_utilization r)),
     (''delivery_ratio'', opt_float (sr_delivery_ratio r)), (''mean_latency_us'', opt_float (sr_mean_latency_us r)),
     (''p95_latency_us'', opt_float (sr_p95_latency_us r)), (''p99_latency_us'', opt_float (sr_p99_latency_us r)),
     (''max_latency_us'', opt_int (sr_max_latency_us r)), (''collided'', PInt (sr_collided r)),
     (''randomly_lost'', PInt (sr_randomly_lost r)), (''queue_overflows'', PInt (sr_queue_overflows r)),
     (''audio_deadline_misses'', PInt (sr_audio_deadline_misses r)), (''max_queue_depth'', PInt (sr_max_queue_depth r))]"

definition parse_values :: "(string \<Rightarrow> 'a result) \<Rightarrow> string \<Rightarrow> 'a list result" where
  "parse_values conv raw =
     bind (map_res (\<lambda>part. conv (strip part)) (filter (\<lambda>part. strip part \<noteq> []) (split_on (CHR '','') raw))) (\<lambda>values.
       if values = [] then Inl (ArgumentTypeError ''at least one value is required'') else Inr values)"

definition parse_float_values :: "string \<Rightarrow> pyfloat list result" where
  "parse_float_values = parse_values parse_float"

definition parse_int_values :: "string \<Rightarrow> int list result" where
  "parse_int_values = parse_values parse_int"

section \<open>Variants\<close>

record sweep_point =
  pt_frame_ms :: pyfloat
  pt_codec_bps :: int
  pt_radio_bps :: int
  pt_slot_us :: int

definition variant_name :: "string \<Rightarrow> sweep_point \<Rightarrow> string" where
  "variant_name base_name pt =
     (let frame_label = map (\<lambda>c. if c = CHR ''.'' then CHR ''p'' else c) (show_g (pt_frame_ms pt))
      in base_name @ ''-f'' @ frame_label @ ''ms-c'' @ show_int (pt_codec_bps pt) @
         ''-r'' @ show_int (pt_radio_bps pt) @ ''-s'' @ show_int (pt_slot_us pt))"

definition variant_scenario :: "scenario \<Rightarrow> sweep_point \<Rightarrow> scenario" where
  "variant_scenario base pt =
     base\<lparr>sc_name := variant_name (sc_name base) pt, frame_duration_ms := pt_frame_ms pt,
          encoded_bitrate_bps := pt_codec_bps pt, radio_bitrate_bps := pt_radio_bps pt,
          slot_spacing_us := pt_slot_us pt\<rparr>"

definition sweep_points :: "pyfloat list \<Rightarrow> int list \<Rightarrow> int list \<Rightarrow> int list \<Rightarrow> sweep_point list" where
  "sweep_points frames codecs radios slots =
     concat (map (\<lambda>f. concat (map (\<lambda>c. concat (map (\<lambda>r. map (\<lambda>s.
       \<lparr>pt_frame_ms = f, pt_codec_bps = c, pt_radio_bps = r, pt_slot_us = s\<rparr>) slots) radios)) codecs)) frames)"

section \<open>Screening\<close>

text \<open>The conjunction is evaluated left to right and stops at the first conjunct that fails, so the
  later conversions raise only when they are reached.\<close>

definition is_feasible :: "scenario \<Rightarrow> summary \<Rightarrow> pyfloat \<Rightarrow> pyfloat \<Rightarrow> bool result" where
  "is_feasible sc sm max_utilization min_delivery_ratio =
     bind (estimate_capacity sc) (\<lambda>capacity.
       if (case delivery_ratio sm of None \<Rightarrow> False | Some d \<Rightarrow> fle min_delivery_ratio d)
          \<and> sm_collided sm = 0 \<and> queue_overflows sm = 0 \<and> audio_deadline_misses sm = 0
          \<and> fle (ce_scheduled_channel_utilization capacity) max_utilization
       then bind (frame_interval_us sc) (\<lambda>frame.
              if ce_schedule_span_us capacity \<le> frame
              then (case p95_latency_us sm of
                      None \<Rightarrow> Inr True
                    | Some p \<Rightarrow> bind (audio_deadline_us sc) (\<lambda>deadline. Inr (fle p (fint deadline))))
              else Inr False)
       else Inr False)"

definition result_from_summary :: "scenario \<Rightarrow> summary \<Rightarrow> pyfloat \<Rightarrow> pyfloat \<Rightarrow> sweep_result result" where
  "result_from_summary sc sm max_utilization min_delivery_ratio =
     bind (estimate_capacity sc) (\<lambda>capacity.
     bind (is_feasible sc sm max_utilization min_delivery_ratio) (\<lambda>ok.
     bind (scenario_payload_bytes sc) (\<lambda>payload.
       Inr \<lparr>feasible = ok, scenario_name = sc_name sc, sr_frame_duration_ms = frame_duration_ms sc,
            sr_encoded_bitrate_bps = encoded_bitrate_bps sc, sr_radio_bitrate_bps = radio_bitrate_bps sc,
            sr_slot_spacing_us = slot_spacing_us sc, sr_payload_bytes = payload,
            sr_voice_airtime_us = ce_voice_airtime_us capacity,
            sr_heartbeat_airtime_us = ce_heartbeat_airtime_us capacity,
            sr_slot_guard_us = ce_slot_guard_us capacity, sr_schedule_span_us = ce_schedule_span_us capacity,
            sr_scheduled_channel_utilization = ce_scheduled_channel_utilization capacity,
            sr_delivery_ratio = delivery_ratio sm, sr_mean_latency_us = mean_latency_us sm,
            sr_p95_latency_us = p95_latency_us sm, sr_p99_latency_us = p99_latency_us sm,
            sr_max_latency_us = max_latency_us sm, sr_collided = int (sm_collided sm),
            sr_randomly_lost = int (randomly_lost sm), sr_queue_overflows = int (queue_overflows sm),
            sr_audio_deadline_misses = int (audio_deadline_misses sm), sr_max_queue_depth = sm_max_queue_depth sm\<rparr>)))"

section \<open>Ranking\<close>

type_synonym rank = "bool \<times> pyfloat \<times> pyfloat \<times> int \<times> int \<times> int"

definition rank_key :: "sweep_result \<Rightarrow> rank" where
  "rank_key r = (\<not> feasible r, case sr_p95_latency_us r of None \<Rightarrow> PInf | Some p \<Rightarrow> p,
     sr_scheduled_channel_utilization r, sr_radio_bitrate_bps r, sr_encoded_bitrate_bps r, sr_slot_spacing_us r)"

text \<open>\<^verbatim>\<open><\<close> of two tuples: the first pair of elements that are not \<^verbatim>\<open>==\<close> decides.\<close>

fun key_lt :: "rank \<Rightarrow> rank \<Rightarrow> bool" where
  "key_lt (a, b, c, d, e, f) (a', b', c', d', e', f') =
     (if a \<noteq> a' then a < a'
      else if \<not> (b = b' \<and> b \<noteq> NaN) then flt b b'
      else if \<not> (c = c' \<and> c \<noteq> NaN) then flt c c'
      else if d \<noteq> d' then d < d' else if e \<noteq> e' then e < e' else f < f')"

definition rank_results :: "sweep_result list \<Rightarrow> sweep_result list" where
  "rank_results = py_sorted (\<lambda>x y. key_lt (rank_key x) (rank_key y))"

section \<open>The sweep\<close>

fun run_cases :: "(sweep_point \<Rightarrow> sweep_result result option) \<Rightarrow> sweep_point list \<Rightarrow> sweep_result list result option" where
  "run_cases one [] = Some (Inr [])"
| "run_cases one (pt # pts) =
     (case one pt of
        None \<Rightarrow> None
      | Some (Inl e) \<Rightarrow> Some (Inl e)
      | Some (Inr r) \<Rightarrow> map_option (\<lambda>m. bind m (\<lambda>rs. Inr (r # rs))) (run_cases one pts))"

definition sweep_case ::
  "(int \<Rightarrow> nat \<Rightarrow> pyfloat) \<Rightarrow> scenario \<Rightarrow> pyfloat \<Rightarrow> pyfloat \<Rightarrow> sweep_point \<Rightarrow> sweep_result result option" where
  "sweep_case random base max_utilization min_delivery_ratio pt =
     (let sc = variant_scenario base pt
      in map_option (\<lambda>m. bind m (\<lambda>r. result_from_summary sc (rr_summary r) max_utilization min_delivery_ratio))
           (run_scenario random sc))"

definition sweep_scenario ::
  "(int \<Rightarrow> nat \<Rightarrow> pyfloat) \<Rightarrow> scenario \<Rightarrow> sweep_point list \<Rightarrow> pyfloat \<Rightarrow> pyfloat \<Rightarrow> sweep_result list result option" where
  "sweep_scenario random base points max_utilization min_delivery_ratio =
     map_option (\<lambda>m. bind m (\<lambda>rs. Inr (rank_results rs)))
       (run_cases (sweep_case random base max_utilization min_delivery_ratio) points)"

definition default_points :: "sweep_point list" where
  "default_points = sweep_points [Fin 10, Fin 20] [16000, 24000, 32000] [250000, 500000, 1000000]
     [1000, 1500, 2000, 2500, 3000]"

section \<open>The table\<close>

definition format_percent :: "pyfloat option \<Rightarrow> string" where
  "format_percent v = (case v of None \<Rightarrow> '''' | Some x \<Rightarrow> show_fixed 1 (fmul x (fint 100)) @ ''%'')"

definition format_ms :: "pyfloat option \<Rightarrow> string result" where
  "format_ms v = (case v of None \<Rightarrow> Inr '''' | Some x \<Rightarrow> bind (fdiv x (fint 1000)) (\<lambda>q. Inr (show_fixed 1 q)))"

definition sweep_row :: "sweep_result \<Rightarrow> string result" where
  "sweep_row r =
     bind (format_ms (sr_p95_latency_us r)) (\<lambda>ms.
       Inr (''| '' @ (if feasible r then ''yes'' else ''no'') @ '' | '' @ show_g (sr_frame_duration_ms r) @ '' | '' @
         show_int (sr_encoded_bitrate_bps r div 1000) @ '' | '' @ show_int (sr_radio_bitrate_bps r div 1000) @ '' | '' @
         show_int (sr_slot_spacing_us r) @ '' | '' @
         format_percent (Some (sr_scheduled_channel_utilization r)) @ '' | '' @ show_int (sr_slot_guard_us r) @ '' | '' @
         ms @ '' | '' @ format_percent (sr_delivery_ratio r) @ '' | '' @ show_int (sr_collided r) @ '' | '' @
         show_int (sr_audio_deadline_misses r) @ '' |''))"

definition py_take :: "int option \<Rightarrow> 'a list \<Rightarrow> 'a list" where
  "py_take limit xs = (case limit of None \<Rightarrow> xs
     | Some n \<Rightarrow> take (nat (if n < 0 then int (length xs) + n else n)) xs)"

definition format_sweep_markdown :: "sweep_result list \<Rightarrow> int option \<Rightarrow> string result" where
  "format_sweep_markdown results limit =
     bind (map_res sweep_row (py_take limit results)) (\<lambda>rows.
       Inr (join_lines (
         ''| ok | frame_ms | codec_kbps | radio_kbps | slot_us | util | guard_us | p95_ms | delivery | collisions | deadline_misses |''
         # ''|---|---:|---:|---:|---:|---:|---:|---:|---:|---:|---:|'' # rows)))"

section \<open>Facts\<close>

lemma csv_rows: "map fst (as_dict r) = csv_fields" "distinct csv_fields"
  by (simp_all add: as_dict_def csv_fields_def)

fun join_with :: "char \<Rightarrow> string list \<Rightarrow> string" where
  "join_with c [] = []"
| "join_with c [s] = s"
| "join_with c (s # t # ss) = s @ c # join_with c (t # ss)"

lemma split_on_nonempty: "split_on c s \<noteq> []"
  by (induction s) (auto split: list.splits)

lemma split_on_plain: "c \<notin> set s \<Longrightarrow> split_on c (s @ rest) = (case split_on c rest of [] \<Rightarrow> [s] | y # ys \<Rightarrow> (s @ y) # ys)"
proof (induction s)
  case Nil
  then show ?case using split_on_nonempty[of c rest] by (cases "split_on c rest") auto
next
  case (Cons x s)
  then show ?case by (auto split: list.splits)
qed



lemma split_join: "(\<forall>s \<in> set ss. c \<notin> set s) \<Longrightarrow> ss \<noteq> [] \<Longrightarrow> split_on c (join_with c ss) = ss"
proof (induction c ss rule: join_with.induct)
  case (2 c s)
  then show ?case using split_on_plain[of c s "[]"] by simp
next
  case (3 c s t ss)
  then show ?case using split_on_plain[of c s "c # join_with c (t # ss)"] by simp
qed simp

lemma show_int_chars: "c \<in> set (show_int n) \<Longrightarrow> is_digit c \<or> c = CHR ''-''"
  using nat_digits_all_digits by (auto simp: show_int_def list_all_iff split: if_splits)

lemma strip_show_int: "strip (show_int n) = show_int n" "show_int n \<noteq> []"
proof -
  show ne: "show_int n \<noteq> []" by (simp add: show_int_def nat_digits_nonempty)
  have "\<not> is_space (hd (show_int n))" "\<not> is_space (last (show_int n))"
    using show_int_chars[of "hd (show_int n)" n] show_int_chars[of "last (show_int n)" n] ne is_digit_not_space
    by (auto simp: is_space_def)
  then show "strip (show_int n) = show_int n" using ne by (intro strip_id)
qed

lemma parse_int_values_join:
  assumes "ns \<noteq> []"
  shows "parse_int_values (join_with (CHR '','') (map show_int ns)) = Inr ns"
proof -
  have "CHR '','' \<notin> set (show_int n)" for n
    using show_int_chars[of "CHR '',''" n] by (auto simp: is_digit_def)
  then have "split_on (CHR '','') (join_with (CHR '','') (map show_int ns)) = map show_int ns"
    using assms by (intro split_join) auto
  moreover have "filter (\<lambda>part. strip part \<noteq> []) (map show_int ns) = map show_int ns"
    by (simp add: filter_id_conv strip_show_int)
  moreover have "map_res (\<lambda>part. parse_int (strip part)) (map show_int ns) = Inr ns"
    by (induction ns) (simp_all add: strip_show_int parse_int_show_int)
  ultimately show ?thesis using assms by (simp add: parse_int_values_def parse_values_def)
qed

lemma sweep_points_set:
  "set (sweep_points fs cs rs ss) = {\<lparr>pt_frame_ms = f, pt_codec_bps = c, pt_radio_bps = r, pt_slot_us = s\<rparr> |f c r s.
     f \<in> set fs \<and> c \<in> set cs \<and> r \<in> set rs \<and> s \<in> set ss}"
  by (auto simp: sweep_points_def)

lemma sweep_points_length: "length (sweep_points fs cs rs ss) = length fs * length cs * length rs * length ss"
  by (simp add: sweep_points_def length_concat comp_def sum_list_triv)

lemma is_feasible_True:
  assumes "is_feasible sc sm u d = Inr True"
  shows "\<exists>ce frame ratio. estimate_capacity sc = Inr ce \<and> frame_interval_us sc = Inr frame \<and>
     delivery_ratio sm = Some ratio \<and> fle d ratio \<and> sm_collided sm = 0 \<and> queue_overflows sm = 0 \<and>
     audio_deadline_misses sm = 0 \<and> fle (ce_scheduled_channel_utilization ce) u \<and> ce_schedule_span_us ce \<le> frame \<and>
     (\<forall>p. p95_latency_us sm = Some p \<longrightarrow> (\<exists>dl. audio_deadline_us sc = Inr dl \<and> fle p (fint dl)))"
  using assms by (auto simp: is_feasible_def bind_eq_Inr split: if_splits option.splits)

lemma run_cases_Inr:
  "run_cases one pts = Some (Inr rs) \<longleftrightarrow> list_all2 (\<lambda>pt r. one pt = Some (Inr r)) pts rs"
proof (induction pts arbitrary: rs)
  case (Cons pt pts)
  show ?case
    by (cases rs) (auto simp: Cons.IH[symmetric] bind_eq_Inr split: option.splits sum.splits)
qed auto

lemma run_cases_defined: "(\<And>pt. one pt \<noteq> None) \<Longrightarrow> run_cases one pts \<noteq> None"
  by (induction pts) (auto split: option.splits sum.splits)

lemma sweep_scenario_total: "sweep_scenario random base points u d \<noteq> None"
proof -
  have "sweep_case random base u d pt \<noteq> None" for pt
    using run_scenario_defined by (simp add: sweep_case_def Let_def)
  then show ?thesis using run_cases_defined[of "sweep_case random base u d" points]
    by (simp add: sweep_scenario_def)
qed

lemma rank_results_mset: "mset (rank_results rs) = mset rs"
  by (simp add: rank_results_def mset_py_sorted)

lemma sweep_scenario_Inr:
  assumes "sweep_scenario random base points u d = Some (Inr rs)"
  shows "\<exists>raw. list_all2 (\<lambda>pt r. sweep_case random base u d pt = Some (Inr r)) points raw \<and>
     rs = rank_results raw \<and> mset rs = mset raw"
  using assms by (auto simp: sweep_scenario_def bind_eq_Inr run_cases_Inr rank_results_mset)

definition no_nan :: "sweep_result \<Rightarrow> bool" where
  "no_nan r \<longleftrightarrow> sr_p95_latency_us r \<noteq> Some NaN \<and> sr_scheduled_channel_utilization r \<noteq> NaN"

lemma key_lt_less:
  assumes "no_nan x" "no_nan y"
  shows "key_lt (rank_key x) (rank_key y) \<longleftrightarrow> rank_key x < rank_key y"
  using assms by (auto simp: no_nan_def rank_key_def less_prod_def less_eq_prod_def flt_less split: option.splits)

lemma rank_results_sort_key:
  assumes "\<forall>r \<in> set rs. no_nan r"
  shows "rank_results rs = sort_key rank_key rs"
  unfolding rank_results_def by (rule py_sorted_key) (use assms key_lt_less in blast)

lemma py_insert_sorted_bool:
  fixes b :: "'a \<Rightarrow> bool"
  assumes "sorted (map b ys)" "\<And>x y. b x < b y \<Longrightarrow> lt x y" "\<And>x y. b y < b x \<Longrightarrow> \<not> lt x y"
  shows "sorted (map b (py_insert lt x ys))"
  using assms(1)
proof (induction ys)
  case (Cons y ys)
  have "set (py_insert lt x ys) = insert x (set ys)" using mset_py_insert[of lt x ys]
    by (metis set_mset_add_mset_insert set_mset_mset)
  with Cons show ?case using assms(2)[of x y] assms(3)[of x y] assms(2)[of y x] assms(3)[of y x] by auto
qed simp

lemma rank_results_feasible_first: "sorted (map (\<lambda>r. \<not> feasible r) (rank_results rs))"
proof (induction rs)
  case (Cons r rs)
  have "rank_results (r # rs) = py_insert (\<lambda>x y. key_lt (rank_key x) (rank_key y)) r (rank_results rs)"
    by (simp add: rank_results_def py_sorted_def)
  moreover have "sorted (map (\<lambda>r. \<not> feasible r) (py_insert (\<lambda>x y. key_lt (rank_key x) (rank_key y)) r (rank_results rs)))"
    using Cons by (rule py_insert_sorted_bool) (simp_all add: rank_key_def)
  ultimately show ?case by (simp only:)
qed (simp add: rank_results_def py_sorted_def)


text \<open>C19 (functional). A completed sweep reports every point of its grid exactly once, each with the result of its
  own run, and lists the feasible points before the infeasible ones.\<close>

theorem sweep_reports_all:
  "case sweep_scenario random base points u d of
     Some (Inr rs) \<Rightarrow> length rs = length points \<and> sorted (map (\<lambda>r. \<not> feasible r) rs) \<and>
       (\<exists>raw. mset raw = mset rs \<and> list_all2 (\<lambda>pt r. sweep_case random base u d pt = Some (Inr r)) points raw)
   | _ \<Rightarrow> True"
proof (cases "sweep_scenario random base points u d")
  case (Some x)
  show ?thesis
  proof (cases x)
    case (Inr rs)
    obtain raw where raw: "list_all2 (\<lambda>pt r. sweep_case random base u d pt = Some (Inr r)) points raw" "rs = rank_results raw"
      "mset rs = mset raw" using sweep_scenario_Inr Some Inr by blast
    have "length rs = length points" using list_all2_lengthD[OF raw(1)] raw(3) by (metis mset_eq_length)
    then show ?thesis using raw rank_results_feasible_first[of raw] Some Inr by auto
  qed (simp add: Some)
qed simp

end
