(* ===== verification/Security_Envelope.thy ===== *)
theory Security_Envelope
  imports Prelude
begin

text \<open>
  \<^verbatim>\<open>simulator/src/openref_sim/security.py\<close>: the nonce and the security envelope.  The AEAD of
  \<^verbatim>\<open>cryptography\<close> is not part of the repository: its two operations are arguments \<open>enc\<close> and \<open>dec\<close>
  (key, tag length, nonce, data, associated data), and \<open>aead_laws\<close> names what the envelope relies
  on: sealing appends a tag of the requested length, opening a sealed message returns it, and
  a message that opens is the sealing of what it opens to (AES-CCM is deterministic, and opening
  recomputes the tag of the recovered plaintext).
\<close>

type_synonym aead_op =
  "byte list \<Rightarrow> nat \<Rightarrow> byte list \<Rightarrow> byte list \<Rightarrow> byte list \<Rightarrow> byte list result"

definition PREFIX_BYTES :: nat where "PREFIX_BYTES = 8"
definition TAG_BYTES :: nat where "TAG_BYTES = 8"
definition NONCE_BYTES :: nat where "NONCE_BYTES = 13"
definition PREFIX_FIELDS :: "nat list" where "PREFIX_FIELDS = [4, 4]"
definition NONCE_FIELDS :: "nat list" where "NONCE_FIELDS = [4, 1, 4, 4]"

lemmas security_consts = PREFIX_BYTES_def TAG_BYTES_def NONCE_BYTES_def PREFIX_FIELDS_def
  NONCE_FIELDS_def

definition build_nonce :: "int \<Rightarrow> int \<Rightarrow> int \<Rightarrow> int \<Rightarrow> byte list result" where
  "build_nonce crew_session_id src boot_counter packet_counter =
     (if \<not> (0 \<le> crew_session_id \<and> crew_session_id \<le> 0xFFFFFFFF)
      then Inl (ValueError ''crew_session_id must fit in 32 bits'')
      else if \<not> (1 \<le> src \<and> src \<le> 0xFE)
      then Inl (ValueError ''source_id must identify a node from 1 through 254'')
      else if \<not> (0 \<le> boot_counter \<and> boot_counter \<le> 0xFFFFFFFF)
      then Inl (ValueError ''boot_counter must fit in 32 bits'')
      else if \<not> (0 \<le> packet_counter \<and> packet_counter \<le> 0xFFFFFFFF)
      then Inl (ValueError ''packet_counter must fit in 32 bits'')
      else pack_fields (zip NONCE_FIELDS [crew_session_id, src, boot_counter, packet_counter]))"

definition protect_payload ::
  "aead_op \<Rightarrow> byte list \<Rightarrow> byte list \<Rightarrow> byte list \<Rightarrow> int \<Rightarrow> int \<Rightarrow> int \<Rightarrow> int \<Rightarrow> byte list result" where
  "protect_payload enc key header plaintext crew_session_id src boot_counter packet_counter =
     bind (build_nonce crew_session_id src boot_counter packet_counter) (\<lambda>nonce.
     bind (enc key TAG_BYTES nonce plaintext header) (\<lambda>protected.
     bind (pack_fields (zip PREFIX_FIELDS [boot_counter, packet_counter])) (\<lambda>prefix.
       Inr (prefix @ protected))))"

definition open_payload ::
  "aead_op \<Rightarrow> byte list \<Rightarrow> byte list \<Rightarrow> byte list \<Rightarrow> int \<Rightarrow> int \<Rightarrow> (int \<times> int \<times> byte list) result" where
  "open_payload dec key header envelope crew_session_id src =
     (if length envelope < PREFIX_BYTES + TAG_BYTES
      then Inl (ValueError ''security envelope is truncated'')
      else case unpack_fields PREFIX_FIELDS envelope of
        [boot_counter, packet_counter] \<Rightarrow>
          bind (build_nonce crew_session_id src boot_counter packet_counter) (\<lambda>nonce.
          bind (dec key TAG_BYTES nonce (drop PREFIX_BYTES envelope) header) (\<lambda>plaintext.
            Inr (boot_counter, packet_counter, plaintext)))
      | _ \<Rightarrow> Inl StructError)"

definition aead_laws :: "aead_op \<Rightarrow> aead_op \<Rightarrow> bool" where
  "aead_laws enc dec \<longleftrightarrow>
     (\<forall>k t n p a c. enc k t n p a = Inr c \<longrightarrow> length c = length p + t \<and> dec k t n c a = Inr p) \<and>
     (\<forall>k t n p a c. dec k t n c a = Inr p \<longrightarrow> enc k t n p a = Inr c)"

section \<open>The nonce\<close>

definition nonce_args_ok :: "int \<Rightarrow> int \<Rightarrow> int \<Rightarrow> int \<Rightarrow> bool" where
  "nonce_args_ok c s b p \<longleftrightarrow> 0 \<le> c \<and> c < 2 ^ 32 \<and> 1 \<le> s \<and> s \<le> 254 \<and>
     0 \<le> b \<and> b < 2 ^ 32 \<and> 0 \<le> p \<and> p < 2 ^ 32"

lemma nonce_fields_fit:
  "nonce_args_ok c s b p \<Longrightarrow> fields_fit (zip NONCE_FIELDS [c, s, b, p])"
  by (auto simp: fields_fit_def security_consts nonce_args_ok_def)

lemma build_nonce_Inr_iff:
  "build_nonce c s b p = Inr n \<longleftrightarrow>
   nonce_args_ok c s b p \<and> n = field_bytes (zip NONCE_FIELDS [c, s, b, p])"
proof -
  have "build_nonce c s b p =
      (if nonce_args_ok c s b p then pack_fields (zip NONCE_FIELDS [c, s, b, p]) else build_nonce c s b p)"
    by (auto simp: build_nonce_def nonce_args_ok_def)
  moreover have "\<not> nonce_args_ok c s b p \<Longrightarrow> \<exists>e. build_nonce c s b p = Inl e"
    by (auto simp: build_nonce_def nonce_args_ok_def)
  ultimately show ?thesis using nonce_fields_fit pack_fields_fit by (metis Inl_Inr_False sum.inject(2))
qed

lemma nonce_unpack:
  "build_nonce c s b p = Inr n \<Longrightarrow> unpack_fields NONCE_FIELDS n = [c, s, b, p] \<and> length n = NONCE_BYTES"
  using unpack_field_bytes[OF nonce_fields_fit[of c s b p], of "[]"]
  by (auto simp: build_nonce_Inr_iff security_consts)

lemma prefix_fields_fit:
  "nonce_args_ok c s b p \<Longrightarrow> fields_fit (zip PREFIX_FIELDS [b, p])"
  by (auto simp: fields_fit_def security_consts nonce_args_ok_def)

section \<open>The envelope\<close>

lemma protect_payload_Inr:
  assumes "protect_payload enc key header pt c s b p = Inr env"
  obtains n sealed where "build_nonce c s b p = Inr n" "enc key TAG_BYTES n pt header = Inr sealed"
    "env = field_bytes (zip PREFIX_FIELDS [b, p]) @ sealed" "nonce_args_ok c s b p"
proof -
  from assms obtain n sealed pre where
    n: "build_nonce c s b p = Inr n" and sealed: "enc key TAG_BYTES n pt header = Inr sealed"
    and pre: "pack_fields (zip PREFIX_FIELDS [b, p]) = Inr pre" and env: "env = pre @ sealed"
    unfolding protect_payload_def by (auto simp only: bind_eq_Inr sum.inject)
  have ok: "nonce_args_ok c s b p" using n by (simp add: build_nonce_Inr_iff)
  have "pre = field_bytes (zip PREFIX_FIELDS [b, p])"
    using pre pack_fields_fit[OF prefix_fields_fit[OF ok]] by simp
  with that n sealed env ok show ?thesis by blast
qed

lemma length_prefix [simp]: "sum_list (map fst (zip PREFIX_FIELDS [b, p])) = PREFIX_BYTES"
  by (simp add: security_consts)

lemma unpack_prefix:
  "nonce_args_ok c s b p \<Longrightarrow>
   unpack_fields PREFIX_FIELDS (field_bytes (zip PREFIX_FIELDS [b, p]) @ rest) = [b, p]"
  using unpack_field_bytes[OF prefix_fields_fit[of c s b p], of rest] by (simp add: security_consts)

lemma open_protected:
  assumes "aead_laws enc dec" and "protect_payload enc key header pt c s b p = Inr env"
  shows "open_payload dec key header env c s = Inr (b, p, pt)"
proof -
  from assms(2) obtain n sealed where
    n: "build_nonce c s b p = Inr n" and sealed: "enc key TAG_BYTES n pt header = Inr sealed"
    and env: "env = field_bytes (zip PREFIX_FIELDS [b, p]) @ sealed" and ok: "nonce_args_ok c s b p"
    by (rule protect_payload_Inr)
  have "length sealed = length pt + TAG_BYTES \<and> dec key TAG_BYTES n sealed header = Inr pt"
    using assms(1) sealed unfolding aead_laws_def by blast
  then have len: "length sealed = length pt + TAG_BYTES"
    and dec: "dec key TAG_BYTES n sealed header = Inr pt" by auto
  show ?thesis
    using n dec len unpack_prefix[OF ok, of sealed] by (simp add: open_payload_def env)
qed

lemma protect_opened:
  assumes "aead_laws enc dec" and "open_payload dec key header env c s = Inr (b, p, pt)"
  shows "protect_payload enc key header pt c s b p = Inr env"
proof -
  from assms(2) obtain n where
    l: "PREFIX_BYTES + TAG_BYTES \<le> length env" and u: "unpack_fields PREFIX_FIELDS env = [b, p]"
    and n: "build_nonce c s b p = Inr n"
    and d: "dec key TAG_BYTES n (drop PREFIX_BYTES env) header = Inr pt"
    by (auto simp: open_payload_def res_simps split: if_splits list.splits)
  have ok: "nonce_args_ok c s b p" using n by (simp add: build_nonce_Inr_iff)
  have "field_bytes (zip PREFIX_FIELDS [b, p]) = take PREFIX_BYTES env"
    using field_bytes_unpack[of PREFIX_FIELDS env] l u by (simp add: security_consts)
  moreover have "enc key TAG_BYTES n pt header = Inr (drop PREFIX_BYTES env)"
    using assms(1) d unfolding aead_laws_def by blast
  ultimately show ?thesis
    using n by (simp add: protect_payload_def pack_fields_fit[OF prefix_fields_fit[OF ok]])
qed


text \<open>C15 (roundtrip). With an AEAD that keeps its documented laws, an envelope opens to a payload and its counters
  exactly when protecting that payload under those counters gives the envelope: whatever was protected
  opens again, and nothing else opens.\<close>

theorem envelope_roundtrip:
  assumes "aead_laws enc dec"
  shows "protect_payload enc key header pt c s b p = Inr env \<longleftrightarrow> open_payload dec key header env c s = Inr (b, p, pt)"
  using open_protected[OF assms] protect_opened[OF assms] by blast

text \<open>An instance of the laws: a tag of zero bytes.\<close>

definition zero_seal :: aead_op where
  "zero_seal key t nonce pt ad = Inr (pt @ replicate t 0)"

definition zero_open :: aead_op where
  "zero_open key t nonce c ad =
     (if t \<le> length c \<and> drop (length c - t) c = replicate t 0 then Inr (take (length c - t) c) else Inl InvalidTag)"

lemma zero_aead_laws: "aead_laws zero_seal zero_open"
proof -
  have "take (length c - t) c @ replicate t 0 = c" if "t \<le> length c" "drop (length c - t) c = replicate t 0" for t and c :: "byte list"
    using that by (metis append_take_drop_id)
  then show ?thesis by (auto simp: aead_laws_def zero_seal_def zero_open_def split: if_splits)
qed

theorem envelope_roundtrip_witness:
  "\<exists>env. protect_payload zero_seal [] [] [7] 1 2 3 4 = Inr env \<and> open_payload zero_open [] [] env 1 2 = Inr (3, 4, [7])"
proof -
  obtain n where n: "build_nonce 1 2 3 4 = Inr n" by (simp add: build_nonce_Inr_iff nonce_args_ok_def)
  have "pack_fields (zip PREFIX_FIELDS [3, 4]) = Inr (field_bytes (zip PREFIX_FIELDS [3, 4]))"
    by (rule pack_fields_fit, rule prefix_fields_fit[of 1 2]) (simp add: nonce_args_ok_def)
  then have "\<exists>env. protect_payload zero_seal [] [] [7] 1 2 3 4 = Inr env"
    by (simp add: protect_payload_def n zero_seal_def)
  then show ?thesis using envelope_roundtrip[OF zero_aead_laws] by blast
qed

end
