(* ===== verification/Sha256.thy ===== *)
theory Sha256
  imports Prelude
begin

text \<open>
  \<^verbatim>\<open>hashlib.sha256\<close> and \<^verbatim>\<open>hmac.new(..., hashlib.sha256)\<close> as FIPS 180-4 and RFC 2104 define them: the
  library functions the release tooling rests on.  Words are 32 bits wide and their addition wraps.
\<close>

unbundle bit_operations_syntax

type_synonym w32 = "32 word"

definition sha_k :: "w32 list" where
  "sha_k = [1116352408, 1899447441, 3049323471, 3921009573, 961987163, 1508970993, 2453635748, 2870763221,
     3624381080, 310598401, 607225278, 1426881987, 1925078388, 2162078206, 2614888103, 3248222580,
     3835390401, 4022224774, 264347078, 604807628, 770255983, 1249150122, 1555081692, 1996064986,
     2554220882, 2821834349, 2952996808, 3210313671, 3336571891, 3584528711, 113926993, 338241895,
     666307205, 773529912, 1294757372, 1396182291, 1695183700, 1986661051, 2177026350, 2456956037,
     2730485921, 2820302411, 3259730800, 3345764771, 3516065817, 3600352804, 4094571909, 275423344,
     430227734, 506948616, 659060556, 883997877, 958139571, 1322822218, 1537002063, 1747873779,
     1955562222, 2024104815, 2227730452, 2361852424, 2428436474, 2756734187, 3204031479, 3329325298]"

definition sha_init :: "w32 list" where
  "sha_init = [1779033703, 3144134277, 1013904242, 2773480762, 1359893119, 2600822924, 528734635, 1541459225]"

definition rotr :: "nat \<Rightarrow> w32 \<Rightarrow> w32" where
  "rotr n x = drop_bit n x OR push_bit (32 - n) x"

definition sha_pad :: "byte list \<Rightarrow> byte list" where
  "sha_pad m = m @ [0x80] @ replicate ((119 - length m mod 64) mod 64) 0 @ be_bytes 8 (8 * int (length m))"

fun words_of :: "byte list \<Rightarrow> w32 list" where
  "words_of (a # b # c # d # bs) = word_of_int (be_int [a, b, c, d]) # words_of bs"
| "words_of _ = []"

text \<open>The message schedule, most recent word first.\<close>

definition schedule_word :: "w32 list \<Rightarrow> w32" where
  "schedule_word ws =
     (let x = ws ! 14; y = ws ! 1;
          s0 = rotr 7 x XOR rotr 18 x XOR drop_bit 3 x;
          s1 = rotr 17 y XOR rotr 19 y XOR drop_bit 10 y
      in ws ! 15 + s0 + ws ! 6 + s1)"

definition message_schedule :: "w32 list \<Rightarrow> w32 list" where
  "message_schedule block = rev (((\<lambda>ws. schedule_word ws # ws) ^^ 48) (rev block))"

fun sha_round :: "w32 \<times> w32 \<Rightarrow> w32 list \<Rightarrow> w32 list" where
  "sha_round (k, w) [a, b, c, d, e, f, g, h] =
     (let s1 = rotr 6 e XOR rotr 11 e XOR rotr 25 e;
          ch = (e AND f) XOR (NOT e AND g);
          t1 = h + s1 + ch + k + w;
          s0 = rotr 2 a XOR rotr 13 a XOR rotr 22 a;
          maj = (a AND b) XOR (a AND c) XOR (b AND c)
      in [t1 + (s0 + maj), a, b, c, d + t1, e, f, g])"
| "sha_round _ st = st"

definition compress :: "w32 list \<Rightarrow> w32 list \<Rightarrow> w32 list" where
  "compress block st = map2 (+) st (fold sha_round (zip sha_k (message_schedule block)) st)"

fun blocks_of :: "w32 list \<Rightarrow> w32 list list" where
  "blocks_of [] = []"
| "blocks_of (w # ws) = take 16 (w # ws) # blocks_of (drop 15 ws)"

definition sha256 :: "byte list \<Rightarrow> byte list" where
  "sha256 m = concat (map (\<lambda>w. be_bytes 4 (uint w)) (fold compress (blocks_of (words_of (sha_pad m))) sha_init))"

definition hmac_sha256 :: "byte list \<Rightarrow> byte list \<Rightarrow> byte list" where
  "hmac_sha256 key msg =
     (let k0 = (if 64 < length key then sha256 key else key); k = k0 @ replicate (64 - length k0) 0
      in sha256 (map (\<lambda>b. b XOR 0x5C) k @ sha256 (map (\<lambda>b. b XOR 0x36) k @ msg)))"

section \<open>Lengths\<close>

lemma sha_round_length: "length (sha_round kw st) = length st"
  by (induction kw st rule: sha_round.induct) (simp_all add: Let_def)

lemma fold_sha_round_length: "length (fold sha_round kws st) = length st"
  by (induction kws arbitrary: st) (simp_all add: sha_round_length)

lemma compress_length: "length (compress block st) = length st"
  by (simp add: compress_def fold_sha_round_length)

lemma fold_compress_length: "length (fold compress bs st) = length st"
  by (induction bs arbitrary: st) (simp_all add: compress_length)

lemma sha256_length [simp]: "length (sha256 m) = 32"
  by (simp add: sha256_def length_concat comp_def sum_list_triv fold_compress_length sha_init_def)

lemma hmac_length [simp]: "length (hmac_sha256 key msg) = 32"
  by (simp add: hmac_sha256_def Let_def)

end
