(* ===== verification/P256.thy ===== *)
theory P256
  imports Sha256
begin

text \<open>
  The P-256 arithmetic and ECDSA of \<^verbatim>\<open>tools/package_rt595_signed_slot.py\<close>: \<^verbatim>\<open>_point_add\<close>,
  \<^verbatim>\<open>_point_mul\<close>, \<^verbatim>\<open>_rfc6979\<close>, \<^verbatim>\<open>_sign\<close> and \<^verbatim>\<open>_verify\<close>.  A point is a pair of integers or \<open>None\<close>, the
  point at infinity.  \<^verbatim>\<open>pow(x, -1, m)\<close> is \<open>mod_inverse\<close>, the extended Euclidean loop of CPython, which
  raises when the base is not invertible.  That every point computed is on the curve needs no fact
  about the modulus: where \<^verbatim>\<open>pow\<close> has not raised, its result is an inverse.
\<close>

section \<open>Constants\<close>

definition curve_p :: int where
  "curve_p = 0xFFFFFFFF00000001000000000000000000000000FFFFFFFFFFFFFFFFFFFFFFFF"

definition curve_a :: int where
  "curve_a = curve_p - 3"

definition curve_b :: int where
  "curve_b = 0x5AC635D8AA3A93E7B3EBBD55769886BC651D06B0CC53B0F63BCE3C3E27D2604B"

definition curve_n :: int where
  "curve_n = 0xFFFFFFFF00000000FFFFFFFFFFFFFFFFBCE6FAADA7179E84F3B9CAC2FC632551"

type_synonym point = "(int \<times> int) option"

definition curve_g :: "int \<times> int" where
  "curve_g = (0x6B17D1F2E12C4247F8BCE6E563A440F277037D812DEB33A0F4A13945D898C296,
     0x4FE342E2FE1A7F9B8EE7EB4A7C0F9E162BCE33576B315ECECBB6406837BF51F5)"

section \<open>Modular inverse\<close>

function inv_loop :: "int \<Rightarrow> int \<Rightarrow> int \<Rightarrow> int \<Rightarrow> int \<times> int" where
  "inv_loop a n b c = (if n = 0 then (a, b) else inv_loop n (a mod n) c (b - a div n * c))"
  by pat_completeness auto

termination
  by (relation "measure (\<lambda>(a, n, b, c). nat \<bar>n\<bar>)") (auto simp: abs_mod_less)

declare inv_loop.simps [simp del]

definition mod_inverse :: "int \<Rightarrow> int \<Rightarrow> int result" where
  "mod_inverse x m =
     (let (g, b) = inv_loop x m 1 0
      in if g = 1 then Inr (b mod m) else Inl (ValueError ''base is not invertible for the given modulus''))"

lemma inv_loop_congruences:
  assumes "inv_loop a n b c = (g, b')" "m dvd b * x - a" "m dvd c * x - n"
  shows "m dvd b' * x - g"
  using assms
proof (induction a n b c rule: inv_loop.induct)
  case (1 a n b c)
  show ?case
  proof (cases "n = 0")
    case True
    with 1 show ?thesis by (simp add: inv_loop.simps)
  next
    case False
    have "(b - a div n * c) * x - a mod n = (b * x - a) - a div n * (c * x - n)"
      by (simp add: algebra_simps minus_div_mult_eq_mod[symmetric])
    then have "m dvd (b - a div n * c) * x - a mod n" using 1(3,4) by simp
    then show ?thesis using 1 False by (simp add: inv_loop.simps)
  qed
qed

lemma inv_loop_gcd:
  assumes "inv_loop a n b c = (g, b')" "0 \<le> n"
  shows "\<bar>g\<bar> = gcd a n \<and> (0 < n \<longrightarrow> 0 < g)"
  using assms
proof (induction a n b c rule: inv_loop.induct)
  case (1 a n b c)
  show ?case
  proof (cases "n = 0")
    case True
    with 1 show ?thesis by (simp add: inv_loop.simps)
  next
    case False
    then have IH: "\<bar>g\<bar> = gcd n (a mod n) \<and> (0 < a mod n \<longrightarrow> 0 < g)"
      using 1 by (simp add: inv_loop.simps)
    have "0 < g"
    proof (cases "a mod n = 0")
      case True
      then have "inv_loop n 0 c (b - a div n * c) = (g, b')" using 1(2) False by (subst (asm) inv_loop.simps) simp
      then show ?thesis using 1(3) False by (simp add: inv_loop.simps)
    next
      case nz: False
      then show ?thesis using IH 1(3) False pos_mod_sign[of n a] by (simp add: order_less_le)
    qed
    then show ?thesis using IH by (metis gcd.commute gcd_red_int)
  qed
qed

lemma mod_inverse_Inr:
  assumes "mod_inverse x m = Inr r" "0 < m"
  shows "0 \<le> r \<and> r < m \<and> m dvd r * x - 1"
proof -
  obtain b where b: "inv_loop x m 1 0 = (1, b)" "r = b mod m"
    using assms(1) by (auto simp: mod_inverse_def split: prod.splits if_splits)
  have "m dvd b * x - 1" using inv_loop_congruences[OF b(1), of m x] by simp
  moreover have "r * x - 1 = (b * x - 1) - m * (b div m * x)"
    by (simp add: b(2) algebra_simps minus_mult_div_eq_mod[symmetric])
  ultimately have "m dvd r * x - 1" by (metis dvd_diff dvd_triv_left)
  then show ?thesis using b(2) assms(2) by simp
qed

lemma mod_inverse_total:
  assumes "coprime x m" "0 < m"
  shows "\<exists>r. mod_inverse x m = Inr r"
proof -
  obtain g b where gb: "inv_loop x m 1 0 = (g, b)" by fastforce
  then have "g = 1" using inv_loop_gcd[OF gb] assms by (auto simp: coprime_iff_gcd_eq_1)
  then show ?thesis by (simp add: mod_inverse_def gb)
qed

section \<open>Points\<close>

definition point_add :: "point \<Rightarrow> point \<Rightarrow> point result" where
  "point_add p1 p2 =
     (case (p1, p2) of
        (None, _) \<Rightarrow> Inr p2
      | (_, None) \<Rightarrow> Inr p1
      | (Some (x1, y1), Some (x2, y2)) \<Rightarrow>
          if x1 = x2 \<and> (y1 + y2) mod curve_p = 0 then Inr None
          else bind (if p1 = p2
                     then bind (mod_inverse (2 * y1) curve_p) (\<lambda>i. Inr ((3 * x1 * x1 + curve_a) * i mod curve_p))
                     else bind (mod_inverse ((x2 - x1) mod curve_p) curve_p) (\<lambda>i. Inr ((y2 - y1) * i mod curve_p)))
               (\<lambda>slope. let x3 = (slope * slope - x1 - x2) mod curve_p
                  in Inr (Some (x3, (slope * (x1 - x3) - y1) mod curve_p))))"

fun point_mul_loop :: "nat \<Rightarrow> point \<Rightarrow> point \<Rightarrow> point result" where
  "point_mul_loop k res pt =
     (if k = 0 then Inr res
      else bind (if odd k then point_add res pt else Inr res) (\<lambda>r.
           bind (point_add pt pt) (\<lambda>q. point_mul_loop (k div 2) r q)))"

declare point_mul_loop.simps [simp del]

definition point_mul :: "nat \<Rightarrow> int \<times> int \<Rightarrow> point result" where
  "point_mul k pt = point_mul_loop k None (Some pt)"

definition curve_eq :: "int \<times> int \<Rightarrow> bool" where
  "curve_eq = (\<lambda>(x, y). (y ^ 2 - x ^ 3 - curve_a * x - curve_b) mod curve_p = 0)"

definition on_curve :: "point \<Rightarrow> bool" where
  "on_curve p \<longleftrightarrow> (case p of None \<Rightarrow> True
     | Some (x, y) \<Rightarrow> 0 \<le> x \<and> x < curve_p \<and> 0 \<le> y \<and> y < curve_p \<and> curve_eq (x, y))"

lemma curve_p_pos: "0 < curve_p"
  by (simp add: curve_p_def)

text \<open>The chord and the tangent meet the curve again.  \<open>l\<close> is the slope up to multiples of \<open>p\<close>, \<open>u\<close> the
  inverse of its denominator \<open>d\<close>, and \<open>w\<close> the quotient by the root already known.\<close>

lemma dvd_cancel_unit: "(p :: int) dvd u * d - 1 \<Longrightarrow> p dvd d * w \<Longrightarrow> p dvd w"
proof -
  assume a: "p dvd u * d - 1" and b: "p dvd d * w"
  have "w = u * (d * w) - (u * d - 1) * w" by (simp add: algebra_simps)
  with a b show "p dvd w" by (metis dvd_diff dvd_mult dvd_mult2)
qed

definition third_root :: "int \<Rightarrow> int \<Rightarrow> int \<Rightarrow> int \<Rightarrow> int \<Rightarrow> int" where
  "third_root a l x1 y1 x2 = x2 ^ 2 + x2 * x1 + x1 ^ 2 + a - l ^ 2 * (x2 - x1) - 2 * l * y1"

lemma third_point:
  fixes a b l p :: int
  assumes c1: "p dvd y1 ^ 2 - x1 ^ 3 - a * x1 - b" and g: "p dvd third_root a l x1 y1 x2"
    and x3: "p dvd x3 - (l * l - x1 - x2)" and y3: "p dvd y3 - (l * (x1 - x3) - y1)"
  shows "p dvd y3 ^ 2 - x3 ^ 3 - a * x3 - b"
proof -
  let ?y = "l * (x1 - x3) - y1"
  have "y3 ^ 2 - x3 ^ 3 - a * x3 - b =
      (y3 - ?y) * (y3 + ?y) + (y1 ^ 2 - x1 ^ 3 - a * x1 - b)
      - (x3 - x1) * (third_root a l x1 y1 x2 + (x3 - x2) * (x3 - (l * l - x1 - x2)))"
    unfolding third_root_def by algebra
  then show ?thesis using assms by (metis dvd_add dvd_diff dvd_mult dvd_mult2)
qed

lemma chord_root:
  fixes a b l p :: int
  assumes "p dvd y1 ^ 2 - x1 ^ 3 - a * x1 - b" "p dvd y2 ^ 2 - x2 ^ 3 - a * x2 - b"
    and l: "p dvd l * (x2 - x1) - (y2 - y1)" and u: "p dvd u * (x2 - x1) - 1"
  shows "p dvd third_root a l x1 y1 x2"
proof -
  have "(x2 - x1) * third_root a l x1 y1 x2 =
      (y1 ^ 2 - x1 ^ 3 - a * x1 - b) - (y2 ^ 2 - x2 ^ 3 - a * x2 - b)
      - (l * (x2 - x1) - (y2 - y1)) * (l * (x2 - x1) + y2 + y1)"
    unfolding third_root_def by algebra
  then have "p dvd (x2 - x1) * third_root a l x1 y1 x2" using assms by (metis dvd_diff dvd_mult2)
  with u show ?thesis by (rule dvd_cancel_unit)
qed

lemma tangent_root:
  fixes a l p :: int
  assumes l: "p dvd l * (2 * y1) - (3 * x1 * x1 + a)"
  shows "p dvd third_root a l x1 y1 x1"
proof -
  have "third_root a l x1 y1 x1 = - (l * (2 * y1) - (3 * x1 * x1 + a))"
    unfolding third_root_def by algebra
  then show ?thesis using l by (metis dvd_minus_iff)
qed

lemma dvd_mod_diff: "(p :: int) dvd x mod p - x"
  by (metis dvd_minus_iff minus_diff_eq dvd_minus_mod)

lemma slope_congruence:
  fixes p :: int
  assumes "p dvd i * d - 1"
  shows "p dvd (n * i mod p) * d - n"
proof -
  have "(n * i mod p) * d - n = (n * i mod p - n * i) * d + n * (i * d - 1)" by (simp add: algebra_simps)
  then show ?thesis using assms dvd_mod_diff by (metis dvd_add dvd_mult dvd_mult2)
qed

lemma dvd_mod_factor:
  fixes p :: int
  assumes "p dvd i * (d mod p) - 1"
  shows "p dvd i * d - 1"
proof -
  have "i * d - 1 = (i * (d mod p) - 1) - i * (d mod p - d)" by (simp add: algebra_simps)
  then show ?thesis using assms dvd_mod_diff by (metis dvd_diff dvd_mult)
qed

lemma point_add_on_curve:
  assumes add: "point_add p1 p2 = Inr p3" and c: "on_curve p1" "on_curve p2"
  shows "on_curve p3"
proof (cases "p1 = None \<or> p2 = None")
  case True
  then show ?thesis using assms by (auto simp: point_add_def split: option.splits)
next
  case False
  then obtain x1 y1 x2 y2 where p: "p1 = Some (x1, y1)" "p2 = Some (x2, y2)" by auto
  have e1: "curve_p dvd y1 ^ 2 - x1 ^ 3 - curve_a * x1 - curve_b" and e2: "curve_p dvd y2 ^ 2 - x2 ^ 3 - curve_a * x2 - curve_b"
    using c by (auto simp: p on_curve_def curve_eq_def)
  show ?thesis
  proof (cases "x1 = x2 \<and> (y1 + y2) mod curve_p = 0")
    case True
    then show ?thesis using add by (simp add: point_add_def p on_curve_def)
  next
    case no: False
    obtain l where l: "curve_p dvd third_root curve_a l x1 y1 x2"
      and p3: "p3 = Some ((l * l - x1 - x2) mod curve_p, (l * (x1 - (l * l - x1 - x2) mod curve_p) - y1) mod curve_p)"
    proof (cases "p1 = p2")
      case True
      then have eq: "x2 = x1" "y2 = y1" by (simp_all add: p)
      obtain i where i: "mod_inverse (2 * y1) curve_p = Inr i"
        and p3: "p3 = Some (let l = (3 * x1 * x1 + curve_a) * i mod curve_p; x3 = (l * l - x1 - x2) mod curve_p
          in (x3, (l * (x1 - x3) - y1) mod curve_p))"
        using add no by (auto simp: point_add_def p eq bind_eq_Inr Let_def split: if_splits)
      have "curve_p dvd ((3 * x1 * x1 + curve_a) * i mod curve_p) * (2 * y1) - (3 * x1 * x1 + curve_a)"
        using mod_inverse_Inr[OF i curve_p_pos] slope_congruence by blast
      then show ?thesis using that[OF _ p3[unfolded Let_def]] tangent_root eq by blast
    next
      case False
      then obtain i where i: "mod_inverse ((x2 - x1) mod curve_p) curve_p = Inr i"
        and p3: "p3 = Some (let l = (y2 - y1) * i mod curve_p; x3 = (l * l - x1 - x2) mod curve_p
          in (x3, (l * (x1 - x3) - y1) mod curve_p))"
        using add no by (auto simp: point_add_def p bind_eq_Inr Let_def split: if_splits)
      have u: "curve_p dvd i * (x2 - x1) - 1" using mod_inverse_Inr[OF i curve_p_pos] dvd_mod_factor by blast
      then have "curve_p dvd ((y2 - y1) * i mod curve_p) * (x2 - x1) - (y2 - y1)" by (rule slope_congruence)
      then show ?thesis using that[OF _ p3[unfolded Let_def]] chord_root[OF e1 e2 _ u] by blast
    qed
    have "curve_p dvd y3 ^ 2 - x3 ^ 3 - curve_a * x3 - curve_b" if "p3 = Some (x3, y3)" for x3 y3
      by (rule third_point[OF e1 l]) (use that p3 dvd_mod_diff in auto)
    then show ?thesis using p3 curve_p_pos by (auto simp: on_curve_def curve_eq_def)
  qed
qed

lemma point_mul_loop_on_curve:
  "point_mul_loop k res pt = Inr q \<Longrightarrow> on_curve res \<Longrightarrow> on_curve pt \<Longrightarrow> on_curve q"
proof (induction k res pt rule: point_mul_loop.induct)
  case (1 k res pt)
  show ?case
  proof (cases "k = 0")
    case True
    with 1 show ?thesis by (simp add: point_mul_loop.simps)
  next
    case False
    then obtain r q' where rq: "(if odd k then point_add res pt else Inr res) = Inr r" "point_add pt pt = Inr q'"
      "point_mul_loop (k div 2) r q' = Inr q"
      using 1(2) by (subst (asm) point_mul_loop.simps) (auto simp: bind_eq_Inr)
    have "on_curve r" using rq(1) 1(3,4) point_add_on_curve by (auto split: if_splits)
    moreover have "on_curve q'" using rq(2) 1(4) point_add_on_curve by blast
    ultimately show ?thesis using "1.IH"[OF False] rq by blast
  qed
qed

lemma generator_on_curve: "on_curve (Some curve_g)"
  by code_simp

lemma point_mul_on_curve: "point_mul k pt = Inr q \<Longrightarrow> on_curve (Some pt) \<Longrightarrow> on_curve q"
  unfolding point_mul_def by (rule point_mul_loop_on_curve[of k None "Some pt" q]) (auto simp: on_curve_def[of None])

section \<open>ECDSA\<close>

definition int_to_bytes :: "nat \<Rightarrow> int \<Rightarrow> byte list result" where
  "int_to_bytes n x = (if 0 \<le> x \<and> x < 256 ^ n then Inr (be_bytes n x) else Inl OverflowError)"

text \<open>RFC 6979: the pair \<open>(k, v)\<close> after the two initial steps, and the loop that draws candidates until
  one is in range (\<open>None\<close>: it never is).\<close>

definition nonce_seed :: "byte list \<Rightarrow> byte list \<Rightarrow> byte list \<times> byte list" where
  "nonce_seed x h1 =
     (let v0 = replicate 32 1; k0 = replicate 32 0;
          k1 = hmac_sha256 k0 (v0 @ [0] @ x @ h1);
          v1 = hmac_sha256 k1 v0;
          k2 = hmac_sha256 k1 (v1 @ [1] @ x @ h1);
          v2 = hmac_sha256 k2 v1
      in (k2, v2))"

partial_function (option) nonce_loop :: "byte list \<Rightarrow> byte list \<Rightarrow> int option" where
  "nonce_loop k v =
     (let v1 = hmac_sha256 k v; candidate = be_int v1
      in if 1 \<le> candidate \<and> candidate < curve_n then Some candidate
         else let k' = hmac_sha256 k (v1 @ [0]) in nonce_loop k' (hmac_sha256 k' v1))"

declare nonce_loop.simps [code]

definition rfc6979 :: "int \<Rightarrow> byte list \<Rightarrow> int result option" where
  "rfc6979 d digest =
     (case bind (int_to_bytes 32 d) (\<lambda>x. bind (int_to_bytes 32 (be_int digest mod curve_n)) (\<lambda>h1. Inr (x, h1))) of
        Inl e \<Rightarrow> Some (Inl e)
      | Inr (x, h1) \<Rightarrow> (let (k, v) = nonce_seed x h1 in map_option Inr (nonce_loop k v)))"

definition sign_with :: "int \<Rightarrow> int \<Rightarrow> int \<Rightarrow> byte list result" where
  "sign_with d z nonce =
     bind (point_mul (nat nonce) curve_g) (\<lambda>p.
     bind (case p of None \<Rightarrow> Inl TypeError | Some (x, _) \<Rightarrow> Inr (x mod curve_n)) (\<lambda>r.
     bind (mod_inverse nonce curve_n) (\<lambda>i.
       let s = i * (z + r * d) mod curve_n
       in if r = 0 \<or> s = 0 then Inl (ValueError ''invalid ECDSA result'')
          else bind (int_to_bytes 32 r) (\<lambda>rb. bind (int_to_bytes 32 (min s (curve_n - s))) (\<lambda>sb. Inr (rb @ sb))))))"

definition sign :: "int \<Rightarrow> byte list \<Rightarrow> byte list result option" where
  "sign d data =
     (let digest = sha256 data
      in map_option (\<lambda>m. bind m (sign_with d (be_int digest))) (rfc6979 d digest))"

definition verify :: "byte list \<Rightarrow> byte list \<Rightarrow> byte list \<Rightarrow> bool result" where
  "verify public data signature =
     (if length public \<noteq> 64 \<or> length signature \<noteq> 64 then Inr False
      else let q = (be_int (take 32 public), be_int (drop 32 public))
        in if curve_p \<le> fst q \<or> curve_p \<le> snd q \<or> \<not> curve_eq q then Inr False
           else let r = be_int (take 32 signature); s = be_int (drop 32 signature)
             in if \<not> (1 \<le> r \<and> r < curve_n \<and> 1 \<le> s \<and> s \<le> curve_n div 2) then Inr False
                else bind (mod_inverse s curve_n) (\<lambda>w.
                     let z = be_int (sha256 data)
                     in bind (point_mul (nat (z * w mod curve_n)) curve_g) (\<lambda>a.
                        bind (point_mul (nat (r * w mod curve_n)) q) (\<lambda>b.
                        bind (point_add a b) (\<lambda>p.
                          Inr (case p of None \<Rightarrow> False | Some (x, _) \<Rightarrow> x mod curve_n = r))))))"

lemma curve_n_bounds: "0 < curve_n" "curve_n < 256 ^ 32" "curve_n div 2 < curve_n" "odd curve_n"
  by (simp_all add: curve_n_def)

lemma curve_p_bound: "curve_p < 256 ^ 32"
  by (simp add: curve_p_def)

lemma be_int_to_bytes: "0 \<le> x \<Longrightarrow> x < 256 ^ n \<Longrightarrow> be_int (be_bytes n x) = x"
  by (simp add: be_int_be_bytes)

text \<open>The candidate the loop returns is in range.\<close>

lemma nonce_loop_range:
  assumes "nonce_loop k v = Some c"
  shows "1 \<le> c \<and> c < curve_n"
proof (rule nonce_loop.raw_induct[OF _ assms, where P = "\<lambda>k v c. 1 \<le> c \<and> c < curve_n"])
  fix f k v r
  assume IH: "\<And>k v r. f k v = Some r \<Longrightarrow> 1 \<le> r \<and> r < curve_n"
    and "(let v1 = hmac_sha256 k v; candidate = be_int v1
      in if 1 \<le> candidate \<and> candidate < curve_n then Some candidate
         else let k' = hmac_sha256 k (v1 @ [0]) in f k' (hmac_sha256 k' v1)) = Some r"
  then show "1 \<le> r \<and> r < curve_n" by (auto simp: Let_def split: if_splits)
qed

text \<open>A signature is 64 bytes, \<open>r\<close> and \<open>s\<close> are in range and \<open>s\<close> is the low one.\<close>

lemma sign_with_range:
  assumes "sign_with d z nonce = Inr sig"
  shows "length sig = 64 \<and> 1 \<le> be_int (take 32 sig) \<and> be_int (take 32 sig) < curve_n \<and>
    1 \<le> be_int (drop 32 sig) \<and> be_int (drop 32 sig) \<le> curve_n div 2"
proof -
  obtain x y i where s: "sig = be_bytes 32 (x mod curve_n) @
      be_bytes 32 (min (i * (z + x mod curve_n * d) mod curve_n) (curve_n - i * (z + x mod curve_n * d) mod curve_n))"
    and nz: "x mod curve_n \<noteq> 0" "i * (z + x mod curve_n * d) mod curve_n \<noteq> 0"
    using assms by (auto simp: sign_with_def bind_eq_Inr Let_def int_to_bytes_def split: option.splits if_splits)
  define r where "r = x mod curve_n"
  define t where "t = i * (z + x mod curve_n * d) mod curve_n"
  have r: "1 \<le> r" "r < curve_n" using nz(1) pos_mod_bound[OF curve_n_bounds(1), of x] pos_mod_sign[OF curve_n_bounds(1), of x]
    by (simp_all add: r_def)
  have "0 \<le> t" "t < curve_n" "t \<noteq> 0" using nz(2) curve_n_bounds(1) by (simp_all add: t_def)
  then have t: "1 \<le> t" "t < curve_n" by simp_all
  have m: "1 \<le> min t (curve_n - t)" "min t (curve_n - t) \<le> curve_n div 2" using t by (auto simp: min_def)
  have "sig = be_bytes 32 r @ be_bytes 32 (min t (curve_n - t))" by (simp add: s r_def t_def)
  then show ?thesis using r m curve_n_bounds(2,3) by (simp add: be_int_to_bytes)
qed

lemma sign_range:
  assumes "sign d data = Some (Inr sig)"
  shows "length sig = 64 \<and> 1 \<le> be_int (take 32 sig) \<and> be_int (take 32 sig) < curve_n \<and>
    1 \<le> be_int (drop 32 sig) \<and> be_int (drop 32 sig) \<le> curve_n div 2"
  using assms sign_with_range by (auto simp: sign_def Let_def bind_eq_Inr)

end
