(* ===== verification/Der.thy ===== *)
theory Der
  imports Prelude
begin

text \<open>
  The strict DER reader of \<^verbatim>\<open>tools/package_rt595_signed_slot.py\<close> (\<^verbatim>\<open>_tlv\<close>) and
  \<^verbatim>\<open>tools/provision_rt595_trust_anchor.py\<close> (\<^verbatim>\<open>tlv\<close>): one tag-length-value element at an offset.
\<close>



definition slice :: "byte list \<Rightarrow> nat \<Rightarrow> nat \<Rightarrow> byte list" where
  "slice data i j = take (j - i) (drop i data)"

definition der_length :: "byte list \<Rightarrow> nat \<Rightarrow> (nat \<times> nat) result" where
  "der_length data off =
     (if length data \<le> off then Inl (ValueError ''truncated DER length'')
      else let l = unat (data ! off)
        in if 128 \<le> l
           then let count = l - 128
             in if count = 0 \<or> 2 < count \<or> length data < off + 1 + count
                then Inl (ValueError ''invalid DER length'')
                else let n = nat (be_int (slice data (off + 1) (off + 1 + count)))
                  in if n < 128 then Inl (ValueError ''non-canonical DER length'')
                     else Inr (n, off + 1 + count)
           else Inr (l, off + 1))"

definition tlv :: "byte list \<Rightarrow> nat \<Rightarrow> byte \<Rightarrow> (byte list \<times> nat) result" where
  "tlv data off tag =
     (if length data \<le> off \<or> data ! off \<noteq> tag then Inl (ValueError ''expected DER tag'')
      else bind (der_length data (off + 1)) (\<lambda>(n, start).
        if length data < start + n then Inl (ValueError ''truncated DER value'')
        else Inr (slice data start (start + n), start + n)))"

section \<open>The encoding it reads\<close>

definition der_header :: "nat \<Rightarrow> byte list" where
  "der_header n = (if n < 128 then be_bytes 1 (int n)
     else if n < 256 then 0x81 # be_bytes 1 (int n) else 0x82 # be_bytes 2 (int n))"

definition der :: "byte \<Rightarrow> byte list \<Rightarrow> byte list" where
  "der tag v = tag # der_header (length v) @ v"

lemma slice_append:
  "i = length pre \<Longrightarrow> j = i + length mid \<Longrightarrow> slice (pre @ mid @ rest) i j = mid"
  by (simp add: slice_def)

lemma length_slice: "i \<le> j \<Longrightarrow> j \<le> length data \<Longrightarrow> length (slice data i j) = j - i"
  by (simp add: slice_def)

lemma byte_of_mod: "byte_of (x mod 256) = byte_of x"
  by (metis uint_byte_of byte_of_uint mod_mod_trivial)

lemma be_bytes_1: "be_bytes 1 x = [byte_of (x mod 256)]" "be_bytes (Suc 0) x = [byte_of (x mod 256)]"
  by (simp_all add: be_bytes_def)

lemma unat_byte_of: "0 \<le> x \<Longrightarrow> x < 256 \<Longrightarrow> unat (byte_of x) = nat x"
  by (metis uint_byte_of unat_eq_nat_uint mod_pos_pos_trivial)

lemma der_length_header:
  assumes "n < 65536"
  shows "der_length (pre @ der_header n @ rest) (length pre) = Inr (n, length pre + length (der_header n))"
proof -
  consider "n < 128" | "128 \<le> n" "n < 256" | "256 \<le> n" by linarith
  then show ?thesis
  proof cases
    case 1
    then have h: "der_header n = [byte_of (int n)]" by (simp add: der_header_def be_bytes_1)
    have "unat (byte_of (int n)) = n" using 1 by (simp add: unat_byte_of)
    then show ?thesis using 1 by (simp add: der_length_def h nth_append)
  next
    case 2
    then have h: "der_header n = [0x81, byte_of (int n)]" by (simp add: der_header_def be_bytes_1)
    have "slice (pre @ [0x81, byte_of (int n)] @ rest) (length pre + 1) (length pre + 1 + 1) = [byte_of (int n)]"
      using slice_append[of "length pre + 1" "pre @ [0x81]" "length pre + 1 + 1" "[byte_of (int n)]" rest] by simp
    moreover have "be_int [byte_of (int n)] = int n" using 2 by (simp add: be_int_def uint_byte_of)
    ultimately show ?thesis using 2 by (simp add: der_length_def h nth_append)
  next
    case 3
    then have h: "der_header n = 0x82 # be_bytes 2 (int n)" by (simp add: der_header_def)
    have "slice (pre @ (0x82 # be_bytes 2 (int n)) @ rest) (length pre + 1) (length pre + 1 + 2) = be_bytes 2 (int n)"
      using slice_append[of "length pre + 1" "pre @ [0x82]" "length pre + 1 + 2" "be_bytes 2 (int n)" rest] by simp
    moreover have "be_int (be_bytes 2 (int n)) = int n" using assms by (simp add: be_int_be_bytes)
    ultimately show ?thesis using 3 by (simp add: der_length_def h nth_append)
  qed
qed

lemma tlv_der:
  assumes "length v < 65536"
  shows "tlv (pre @ der tag v @ rest) (length pre) tag = Inr (v, length pre + length (der tag v))"
proof -
  have "der_length (pre @ der tag v @ rest) (length pre + 1) =
      Inr (length v, length pre + 1 + length (der_header (length v)))"
    using der_length_header[OF assms, of "pre @ [tag]" "v @ rest"] by (simp add: der_def)
  moreover have "slice (pre @ der tag v @ rest) (length pre + 1 + length (der_header (length v)))
      (length pre + 1 + length (der_header (length v)) + length v) = v"
    using slice_append[of "length pre + 1 + length (der_header (length v))" "pre @ [tag] @ der_header (length v)" _ v rest]
    by (simp add: der_def)
  ultimately show ?thesis by (simp add: tlv_def nth_append) (simp add: der_def)
qed

lemma tlv_der_0: "length v < 65536 \<Longrightarrow> tlv (der tag v) 0 tag = Inr (v, length (der tag v))"
  using tlv_der[of v "[]" tag "[]"] by simp

text \<open>What is accepted is such an element, save that a two-byte length below 256 is not refused.\<close>

lemma der_length_Inr:
  assumes "der_length data off = Inr (n, start)"
  shows "off < start \<and> start \<le> length data \<and> n < 65536 \<and>
    (slice data off start = der_header n \<or> 128 \<le> n \<and> n < 256 \<and> slice data off start = [0x82, 0, byte_of (int n)])"
proof -
  have off: "off < length data" using assms by (simp add: der_length_def split: if_splits)
  have split1: "slice data off (off + 1 + k) = data ! off # slice data (off + 1) (off + 1 + k)" for k
    using off by (simp add: slice_def Cons_nth_drop_Suc[symmetric])
  let ?l = "unat (data ! off)"
  have l: "?l < 256" by (rule order_less_le_trans[OF unsigned_less]) simp
  have w: "data ! off = byte_of (int ?l)" by (simp add: byte_of_def)
  show ?thesis
  proof (cases "?l < 128")
    case True
    then have e: "n = ?l" "start = off + 1" using assms off by (simp_all add: der_length_def)
    have "slice data off start = [data ! off]" using split1[of 0] by (simp add: e slice_def)
    moreover have "byte_of (int n mod 256) = data ! off" using byte_of_mod w e by metis
    ultimately show ?thesis using e off True by (simp add: der_header_def be_bytes_1)
  next
    case False
    define c where "c = ?l - 128"
    define b where "b = slice data (off + 1) (off + 1 + c)"
    have c: "c = 1 \<or> c = 2" "off + 1 + c \<le> length data" "n = nat (be_int b)" "128 \<le> n" "start = off + 1 + c"
      using assms off False by (auto simp: der_length_def Let_def c_def b_def split: if_splits)
    have lb: "length b = c" using c(2) by (simp add: b_def length_slice)
    have bn: "be_int b = int n" "be_int b < 256 ^ c" using be_int_bounds[of b] c(3) lb by auto
    have b: "b = be_bytes c (int n)" using be_bytes_be_int[OF lb] bn(1) by simp
    have h: "slice data off start = byte_of (128 + int c) # be_bytes c (int n)"
      using split1[of c] w False b by (simp add: c(5) b_def c_def)
    have d1: "byte_of 129 = 0x81" "byte_of 130 = 0x82" by (simp_all add: byte_of_def)
    from c(1) show ?thesis
    proof
      assume c1: "c = 1"
      have s: "slice data off start = 0x81 # be_bytes 1 (int n)" using h d1(1) by (simp add: c1)
      have n: "n < 256" using bn by (simp add: c1)
      show ?thesis using c(2,4,5) s n by (simp add: der_header_def)
    next
      assume c2: "c = 2"
      have "be_bytes 2 (int n) = [0, byte_of (int n)]" if "n < 256"
        using that by (simp add: be_bytes_def numeral_2_eq_2 byte_of_def)
      moreover have s: "slice data off start = 0x82 # be_bytes 2 (int n)" using h d1(2) by (simp add: c2)
      moreover have "n < 65536" using bn by (simp add: c2)
      moreover have "off < start" "start \<le> length data" using c(2,5) by simp_all
      ultimately show ?thesis using c(4) by (cases "n < 256") (simp_all add: der_header_def)
    qed
  qed
qed

lemma slice_join: "i \<le> j \<Longrightarrow> j \<le> k \<Longrightarrow> slice data i j @ slice data j k = slice data i k"
proof -
  assume ij: "i \<le> j" and jk: "j \<le> k"
  have "drop j data = drop (j - i) (drop i data)" using ij by simp
  moreover have "k - i = (j - i) + (k - j)" using ij jk by simp
  ultimately show ?thesis unfolding slice_def by (simp only: take_add)
qed

lemma tlv_Inr:
  assumes "tlv data off tag = Inr (v, stop)"
  shows "off < stop \<and> stop \<le> length data \<and> length v < 65536 \<and>
    (slice data off stop = der tag v \<or>
     128 \<le> length v \<and> length v < 256 \<and> slice data off stop = [tag, 0x82, 0, byte_of (int (length v))] @ v)"
proof -
  obtain n start where t: "off < length data" "data ! off = tag" "der_length data (off + 1) = Inr (n, start)"
    "start + n \<le> length data" "v = slice data start (start + n)" "stop = start + n"
    using assms by (auto simp: tlv_def bind_eq_Inr split: if_splits)
  note D = der_length_Inr[OF t(3)]
  have lv: "length v = n" using t(4,5) by (simp add: length_slice)
  have "slice data off stop = slice data off (off + 1) @ slice data (off + 1) start @ slice data start stop"
    using D t(6) by (simp add: slice_join)
  moreover have "slice data off (off + 1) = [tag]"
    using t(1,2) by (simp add: slice_def Cons_nth_drop_Suc[symmetric])
  ultimately have s: "slice data off stop = tag # slice data (off + 1) start @ v" using t by simp
  show ?thesis using D s lv t by (auto simp: der_def)
qed

end
