(* ===== verification/Py_Text.thy ===== *)
theory Py_Text
  imports Py_Value
begin

text \<open>
  Text codecs of Python's standard library the release tooling uses: \<^verbatim>\<open>int(s, base)\<close> with prefixes,
  \<^verbatim>\<open>bytes.hex\<close> and \<^verbatim>\<open>bytes.fromhex\<close>, \<^verbatim>\<open>base64.b64decode(validate=True)\<close>, \<^verbatim>\<open>uuid.UUID(text).bytes\<close>
  and hexadecimal formatting.
\<close>

section \<open>Strings\<close>

text \<open>\<^verbatim>\<open>sep.join(parts)\<close>.\<close>

fun join_with :: "string \<Rightarrow> string list \<Rightarrow> string" where
  "join_with sep [] = []"
| "join_with sep [p] = p"
| "join_with sep (p # ps) = p @ sep @ join_with sep ps"

section \<open>Integers in a base\<close>

definition radix_digit :: "char \<Rightarrow> nat" where
  "radix_digit c = (let n = (of_char c :: nat)
     in if 48 \<le> n \<and> n \<le> 57 then n - 48 else if 97 \<le> n \<and> n \<le> 122 then n - 87
        else if 65 \<le> n \<and> n \<le> 90 then n - 55 else 36)"

definition valid_radix :: "nat \<Rightarrow> string \<Rightarrow> bool" where
  "valid_radix b s = (s \<noteq> [] \<and> list_all (\<lambda>c. radix_digit c < b \<or> c = CHR ''_'') s \<and>
     hd s \<noteq> CHR ''_'' \<and> last s \<noteq> CHR ''_'' \<and> no_double_underscore s)"

definition radix_value :: "nat \<Rightarrow> string \<Rightarrow> nat" where
  "radix_value b s = foldl (\<lambda>a c. if c = CHR ''_'' then a else b * a + radix_digit c) 0 s"

definition radix_prefix :: "nat \<Rightarrow> string \<Rightarrow> nat \<times> bool \<times> string" where
  "radix_prefix base s =
     (let p = lower (take 2 s); rest = (case drop 2 s of c # r \<Rightarrow> if c = CHR ''_'' then r else c # r | [] \<Rightarrow> [])
      in if p = ''0x'' \<and> base \<in> {0, 16} then (16, False, rest)
         else if p = ''0o'' \<and> base \<in> {0, 8} then (8, False, rest)
         else if p = ''0b'' \<and> base \<in> {0, 2} then (2, False, rest)
         else if base = 0 then (10, take 1 s = ''0'', s) else (base, False, s))"

text \<open>\<^verbatim>\<open>int(s, base)\<close> for base 0, 2, 8 or 16.  With base 0 a decimal literal that starts with zero must be
  zero.\<close>

definition parse_int_base :: "nat \<Rightarrow> string \<Rightarrow> int result" where
  "parse_int_base base s =
     (let (sg, body) = split_sign (strip s); (b, zero_only, digits) = radix_prefix base body
      in if valid_radix b digits \<and> (zero_only \<longrightarrow> radix_value b digits = 0)
         then Inr (sg * int (radix_value b digits)) else Inl invalid_int)"

section \<open>Hexadecimal\<close>

definition hex_digit :: "nat \<Rightarrow> char" where
  "hex_digit n = char_of (if n < 10 then n + 48 else n + 87)"

fun hex_nat :: "nat \<Rightarrow> string" where
  "hex_nat n = (if n < 16 then [hex_digit n] else hex_nat (n div 16) @ [hex_digit (n mod 16)])"

declare hex_nat.simps [simp del]

text \<open>\<^verbatim>\<open>f"0x{n:0kx}"\<close>.\<close>

definition hex_padded :: "nat \<Rightarrow> int \<Rightarrow> string" where
  "hex_padded k n =
     (let s = hex_nat (nat \<bar>n\<bar>); sg = (if n < 0 then ''-'' else '''')
      in ''0x'' @ sg @ replicate (k - length sg - length s) (CHR ''0'') @ s)"

definition hex_byte :: "byte \<Rightarrow> string" where
  "hex_byte b = [hex_digit (unat b div 16), hex_digit (unat b mod 16)]"

definition hex_of_bytes :: "byte list \<Rightarrow> string" where
  "hex_of_bytes bs = concat (map hex_byte bs)"

definition is_hex :: "char \<Rightarrow> bool" where
  "is_hex c = (radix_digit c < 16)"

definition ascii_space :: "char \<Rightarrow> bool" where
  "ascii_space c = (let n = (of_char c :: nat) in 9 \<le> n \<and> n \<le> 13 \<or> n = 32)"

definition byte_of_hex :: "char \<Rightarrow> char \<Rightarrow> byte" where
  "byte_of_hex a b = byte_of (int (16 * radix_digit a + radix_digit b))"

fun from_hex :: "string \<Rightarrow> byte list option" where
  "from_hex [] = Some []"
| "from_hex (a # s) =
     (if ascii_space a then from_hex s
      else case s of [] \<Rightarrow> None
        | b # r \<Rightarrow> if is_hex a \<and> is_hex b then map_option (Cons (byte_of_hex a b)) (from_hex r) else None)"

section \<open>UUID\<close>

text \<open>\<^verbatim>\<open>str.replace\<close> with the empty string: occurrences are removed left to right.\<close>

function remove_sub :: "string \<Rightarrow> string \<Rightarrow> string" where
  "remove_sub p s =
     (if p = [] then s else if starts_with s p then remove_sub p (drop (length p) s)
      else case s of [] \<Rightarrow> [] | c # r \<Rightarrow> c # remove_sub p r)"
  by pat_completeness auto

termination
proof (relation "measure (\<lambda>(p, s). length s)")
  fix p s :: string assume "p \<noteq> []" "starts_with s p"
  then show "((p, drop (length p) s), p, s) \<in> measure (\<lambda>(p, s). length s)"
    by (cases s; cases p) (auto simp: starts_with_def)
qed auto

declare remove_sub.simps [simp del]

definition strip_chars :: "string \<Rightarrow> string \<Rightarrow> string" where
  "strip_chars cs s = rev (dropWhile (\<lambda>c. c \<in> set cs) (rev (dropWhile (\<lambda>c. c \<in> set cs) s)))"

definition uuid_bytes :: "string \<Rightarrow> byte list option" where
  "uuid_bytes text =
     (let hex = remove_sub ''-'' (strip_chars ''{}'' (remove_sub ''uuid:'' (remove_sub ''urn:'' text)))
      in if length hex \<noteq> 32 then None
         else case parse_int_base 16 hex of
             Inl _ \<Rightarrow> None
           | Inr n \<Rightarrow> if 0 \<le> n \<and> n < 2 ^ 128 then Some (be_bytes 16 n) else None)"

section \<open>Base64\<close>

definition b64_value :: "char \<Rightarrow> nat" where
  "b64_value c = (let n = (of_char c :: nat)
     in if 65 \<le> n \<and> n \<le> 90 then n - 65 else if 97 \<le> n \<and> n \<le> 122 then n - 71
        else if 48 \<le> n \<and> n \<le> 57 then n + 4 else if n = 43 then 62 else if n = 47 then 63 else 64)"

definition b64_digit :: "nat \<Rightarrow> char" where
  "b64_digit n = char_of (if n < 26 then n + 65 else if n < 52 then n + 71 else if n < 62 then n - 4
     else if n = 62 then 43 else 47)"

definition b64_number :: "char list \<Rightarrow> int" where
  "b64_number cs = foldl (\<lambda>a c. 64 * a + int (b64_value c)) 0 cs"

definition is_b64 :: "char \<Rightarrow> bool" where
  "is_b64 c = (b64_value c < 64)"

fun b64_decode :: "string \<Rightarrow> byte list option" where
  "b64_decode [] = Some []"
| "b64_decode (a # b # c # d # s) =
     (if is_b64 a \<and> is_b64 b \<and> c = CHR ''='' \<and> d = CHR ''='' \<and> s = []
      then Some (be_bytes 1 (b64_number [a, b] div 16))
      else if is_b64 a \<and> is_b64 b \<and> is_b64 c \<and> d = CHR ''='' \<and> s = []
      then Some (be_bytes 2 (b64_number [a, b, c] div 4))
      else if is_b64 a \<and> is_b64 b \<and> is_b64 c \<and> is_b64 d
      then map_option (\<lambda>r. be_bytes 3 (b64_number [a, b, c, d]) @ r) (b64_decode s)
      else None)"
| "b64_decode _ = None"

definition b64_quad :: "int \<Rightarrow> string" where
  "b64_quad n = map (\<lambda>k. b64_digit (nat (n div k mod 64))) [262144, 4096, 64, 1]"

fun b64_encode :: "byte list \<Rightarrow> string" where
  "b64_encode [] = []"
| "b64_encode [x] = take 2 (b64_quad (be_int [x, 0, 0])) @ ''==''"
| "b64_encode [x, y] = take 3 (b64_quad (be_int [x, y, 0])) @ ''=''"
| "b64_encode (x # y # z # bs) = b64_quad (be_int [x, y, z]) @ b64_encode bs"

section \<open>Round trips\<close>

lemma b64_digit_value:
  assumes "n < 64"
  shows "b64_value (b64_digit n) = n" "is_b64 (b64_digit n)"
proof -
  consider "n < 26" | "26 \<le> n" "n < 52" | "52 \<le> n" "n < 62" | "n = 62" | "n = 63" using assms by linarith
  then show v: "b64_value (b64_digit n) = n"
    by cases (auto simp: b64_digit_def b64_value_def of_char_of Let_def)
  show "is_b64 (b64_digit n)" using v assms by (simp add: is_b64_def)
qed

lemma b64_digit_not_pad: "n < 64 \<Longrightarrow> b64_digit n \<noteq> CHR ''=''"
  using b64_digit_value(1)[of n] by (auto simp: b64_value_def)

lemma nat_mod64: "nat (n div k mod 64) < 64" for n k :: int
  by (simp add: nat_less_iff)

lemma b64_quad_number:
  assumes "0 \<le> n" "n < 16777216"
  shows "b64_number (b64_quad n) = n"
proof -
  have "b64_number (b64_quad n) =
      64 * (64 * (64 * (n div 262144 mod 64) + n div 4096 mod 64) + n div 64 mod 64) + n mod 64"
    by (simp add: b64_number_def b64_quad_def b64_digit_value(1) nat_mod64)
  also have "\<dots> = n"
  proof -
    define q where "q = n div 64"
    define p where "p = q div 64"
    have e: "n div 4096 = p" "n div 262144 = p div 64"
      using zdiv_zmult2_eq[of 64 n 64] zdiv_zmult2_eq[of 64 n 4096] zdiv_zmult2_eq[of 64 "n div 64" 64]
      by (simp_all add: q_def p_def)
    have "0 \<le> p div 64" "p div 64 < 64" using assms e(2) by (auto simp flip: e(2))
    then have "p div 64 mod 64 = p div 64" by simp
    moreover have "64 * (p div 64) + p mod 64 = p" "64 * p + q mod 64 = q" "64 * q + n mod 64 = n"
      by (simp_all add: p_def q_def)
    ultimately show ?thesis unfolding e q_def[symmetric] by simp
  qed
  finally show ?thesis .
qed

lemma b64_quad_shape:
  "\<exists>a b c d. b64_quad n = [a, b, c, d] \<and> is_b64 a \<and> is_b64 b \<and> is_b64 c \<and> is_b64 d \<and>
     c \<noteq> CHR ''='' \<and> d \<noteq> CHR ''=''"
  using nat_mod64 by (auto simp: b64_quad_def b64_digit_value(2) b64_digit_not_pad)

lemma quad_div:
  fixes t u v w x :: int
  shows "64 * u + v = 256 * w \<Longrightarrow> 0 \<le> v \<Longrightarrow> v < 64 \<Longrightarrow> u div 4 = w"
    and "64 * (64 * t + x) + v = 65536 * w \<Longrightarrow> 0 \<le> x \<Longrightarrow> x < 64 \<Longrightarrow> 0 \<le> v \<Longrightarrow> v < 64 \<Longrightarrow> t div 16 = w"
proof -
  assume a: "64 * u + v = 256 * w" "0 \<le> v" "v < 64"
  then have "u = 4 * w" by linarith
  then show "u div 4 = w" by simp
next
  assume a: "64 * (64 * t + x) + v = 65536 * w" "0 \<le> x" "x < 64" "0 \<le> v" "v < 64"
  have "t = 16 * w"
  proof (rule ccontr)
    assume "t \<noteq> 16 * w"
    then consider "t + 1 \<le> 16 * w" | "16 * w + 1 \<le> t" by linarith
    moreover have "x \<le> 63" "v \<le> 63" using a by simp_all
    ultimately show False using a(1,2,4) by cases (simp_all add: algebra_simps)
  qed
  then show "t div 16 = w" by simp
qed

lemma b64_numbers:
  assumes "b64_quad (be_int [x, y, z]) = [a, b, c, d]"
  shows "b64_number [a, b, c, d] = be_int [x, y, z]"
    and "z = 0 \<Longrightarrow> be_bytes 2 (b64_number [a, b, c] div 4) = [x, y]"
    and "z = 0 \<Longrightarrow> y = 0 \<Longrightarrow> be_bytes 1 (b64_number [a, b] div 16) = [x]"
proof -
  have bd: "0 \<le> be_int [x, y, z]" "be_int [x, y, z] < 16777216" using be_int_bounds[of "[x, y, z]"] by simp_all
  show n: "b64_number [a, b, c, d] = be_int [x, y, z]" using b64_quad_number[OF bd] assms by simp
  have d64: "b64_value d < 64" "b64_value c < 64"
    using b64_quad_shape[of "be_int [x, y, z]"] unfolding assms is_b64_def by simp_all
  have e: "b64_number [a, b, c, d] = 64 * b64_number [a, b, c] + int (b64_value d)"
    "b64_number [a, b, c] = 64 * b64_number [a, b] + int (b64_value c)"
    by (simp_all add: b64_number_def)
  have p: "be_int [x, y, 0] = 256 * be_int [x, y]" "be_int [x, y] = 256 * uint x + uint y" by (simp_all add: be_int_def)
  show "be_bytes 2 (b64_number [a, b, c] div 4) = [x, y]" if "z = 0"
  proof -
    have "64 * b64_number [a, b, c] + int (b64_value d) = 256 * be_int [x, y]" using n e(1) p(1) that by simp
    then have "b64_number [a, b, c] div 4 = be_int [x, y]" using d64(1) quad_div(1)[of "b64_number [a, b, c]" "int (b64_value d)" "be_int [x, y]"] by simp
    then show ?thesis using be_bytes_be_int[of "[x, y]" 2] by simp
  qed
  show "be_bytes 1 (b64_number [a, b] div 16) = [x]" if "z = 0" "y = 0"
  proof -
    have "64 * (64 * b64_number [a, b] + int (b64_value c)) + int (b64_value d) = 65536 * uint x"
      using n e p that by simp
    then have "b64_number [a, b] div 16 = uint x" using d64 quad_div(2)[of "b64_number [a, b]" "int (b64_value c)" "int (b64_value d)" "uint x"] by simp
    then have "b64_number [a, b] div 16 = be_int [x]" by (simp add: be_int_def)
    then show ?thesis using be_bytes_be_int[of "[x]" 1] by simp
  qed
qed

lemma b64_decode_encode: "b64_decode (b64_encode bs) = Some bs"
proof (induction bs rule: b64_encode.induct)
  case (2 x)
  obtain a b c d where q: "b64_quad (be_int [x, 0, 0]) = [a, b, c, d]" "is_b64 a" "is_b64 b"
    using b64_quad_shape by metis
  then show ?case using b64_numbers(3)[OF q(1)] by simp
next
  case (3 x y)
  obtain a b c d where q: "b64_quad (be_int [x, y, 0]) = [a, b, c, d]" "is_b64 a" "is_b64 b" "is_b64 c" "c \<noteq> CHR ''=''"
    using b64_quad_shape by metis
  then show ?case using b64_numbers(2)[OF q(1)] by simp
next
  case (4 x y z bs)
  obtain a b c d where q: "b64_quad (be_int [x, y, z]) = [a, b, c, d]" "is_b64 a" "is_b64 b" "is_b64 c" "is_b64 d"
    "d \<noteq> CHR ''=''"
    using b64_quad_shape by metis
  have "be_bytes 3 (be_int [x, y, z]) = [x, y, z]" by (rule be_bytes_be_int) simp
  then show ?case using q b64_numbers(1)[OF q(1)] 4 by simp
qed simp

lemma length_hex_of_bytes: "length (hex_of_bytes bs) = 2 * length bs"
  by (simp add: hex_of_bytes_def length_concat comp_def hex_byte_def sum_list_triv)

lemma hex_digit_facts:
  assumes "n < 16"
  shows "radix_digit (hex_digit n) = n" "is_hex (hex_digit n)" "\<not> ascii_space (hex_digit n)"
proof -
  show v: "radix_digit (hex_digit n) = n"
    using assms by (cases "n < 10") (auto simp: hex_digit_def radix_digit_def of_char_of Let_def)
  show "\<not> ascii_space (hex_digit n)"
    using assms by (cases "n < 10") (auto simp: hex_digit_def ascii_space_def of_char_of Let_def)
  show "is_hex (hex_digit n)" using v assms by (simp add: is_hex_def)
qed

lemma from_hex_hex: "from_hex (hex_of_bytes bs) = Some bs"
proof (induction bs)
  case (Cons b bs)
  have u: "unat b div 16 < 16" "unat b mod 16 < 16"
  proof -
    have "unat b < 256" by (rule order_less_le_trans[OF unsigned_less]) simp
    then show "unat b div 16 < 16" by (simp add: less_mult_imp_div_less)
  qed simp
  have "byte_of_hex (hex_digit (unat b div 16)) (hex_digit (unat b mod 16)) = b"
    using u by (simp add: byte_of_hex_def hex_digit_facts byte_of_def)
  then show ?case using Cons u by (simp add: hex_of_bytes_def hex_byte_def hex_digit_facts)
qed (simp add: hex_of_bytes_def)

end
