(* ===== verification/Py_Json.thy ===== *)
theory Py_Json
  imports Py_Format "HOL-Library.List_Lexorder" "HOL-Library.Char_ord"
begin

text \<open>
  What the validators of \<^verbatim>\<open>tools/\<close> share: Python's \<^verbatim>\<open>==\<close>, \<^verbatim>\<open><\<close>, \<^verbatim>\<open>in\<close> and type tests on the
  values \<^verbatim>\<open>json.loads\<close> returns, dictionaries and sets keyed by such values, and reports: the
  accumulation of messages by a sequence of checks any of which may raise.
\<close>

named_theorems report_simps \<open>when a report raises no message\<close>

section \<open>Equality, order and type tests\<close>

text \<open>Values that are equal in Python have the same normal form: a Boolean or an integral float is its
  integer and a dictionary is a set of items.\<close>

fun py_norm :: "pyval \<Rightarrow> pyval" where
  "py_norm (PBool b) = PInt (if b then 1 else 0)"
| "py_norm (PFloat (Fin r)) = (if r = of_int \<lfloor>r\<rfloor> then PInt \<lfloor>r\<rfloor> else PFloat (Fin r))"
| "py_norm (PList xs) = PList (map py_norm xs)"
| "py_norm (PDict d) = PDict (sort_key fst (map (\<lambda>(k, v). (k, py_norm v)) d))"
| "py_norm v = v"

fun has_nan :: "pyval \<Rightarrow> bool" where
  "has_nan (PFloat f) = (f = NaN)"
| "has_nan (PList xs) = list_ex has_nan xs"
| "has_nan (PDict d) = list_ex (\<lambda>(k, v). has_nan v) d"
| "has_nan _ = False"

definition py_eq :: "pyval \<Rightarrow> pyval \<Rightarrow> bool" where
  "py_eq a b \<longleftrightarrow> py_norm a = py_norm b \<and> \<not> has_nan a \<and> \<not> has_nan b"

text \<open>The exact value of a number, for comparisons between integers and floats.\<close>

fun num_of :: "pyval \<Rightarrow> pyfloat option" where
  "num_of (PInt n) = Some (Fin (of_int n))"
| "num_of (PBool b) = Some (Fin (if b then 1 else 0))"
| "num_of (PFloat f) = Some f"
| "num_of _ = None"

definition py_less :: "pyval \<Rightarrow> pyval \<Rightarrow> bool result" where
  "py_less a b =
     (case (a, b) of
        (PStr s, PStr t) \<Rightarrow> Inr (s < t)
      | _ \<Rightarrow> (case (num_of a, num_of b) of (Some x, Some y) \<Rightarrow> Inr (flt x y) | _ \<Rightarrow> Inl TypeError))"

text \<open>\<^verbatim>\<open>a <= b\<close> on numbers.\<close>

definition py_le :: "pyval \<Rightarrow> pyval \<Rightarrow> bool result" where
  "py_le a b =
     (case (a, b) of
        (PStr s, PStr t) \<Rightarrow> Inr (s \<le> t)
      | _ \<Rightarrow> (case (num_of a, num_of b) of (Some x, Some y) \<Rightarrow> Inr (fle x y) | _ \<Rightarrow> Inl TypeError))"

fun is_str :: "pyval \<Rightarrow> bool" where "is_str (PStr _) = True" | "is_str _ = False"
fun is_list :: "pyval \<Rightarrow> bool" where "is_list (PList _) = True" | "is_list _ = False"
fun is_dict :: "pyval \<Rightarrow> bool" where "is_dict (PDict _) = True" | "is_dict _ = False"
fun is_bool :: "pyval \<Rightarrow> bool" where "is_bool (PBool _) = True" | "is_bool _ = False"

text \<open>\<^verbatim>\<open>isinstance(v, int)\<close> holds of a Boolean; most checks exclude it.\<close>

fun is_plain_int :: "pyval \<Rightarrow> bool" where "is_plain_int (PInt _) = True" | "is_plain_int _ = False"
fun is_plain_number :: "pyval \<Rightarrow> bool" where
  "is_plain_number (PInt _) = True"
| "is_plain_number (PFloat _) = True"
| "is_plain_number _ = False"

text \<open>\<^verbatim>\<open>isinstance(v, int)\<close>, which holds of Booleans.\<close>

fun is_integer :: "pyval \<Rightarrow> bool" where
  "is_integer (PInt _) = True"
| "is_integer (PBool _) = True"
| "is_integer _ = False"

text \<open>\<^verbatim>\<open>not isinstance(v, int) or v <= 0\<close>.\<close>

fun not_positive :: "pyval \<Rightarrow> bool" where
  "not_positive (PInt n) = (n \<le> 0)"
| "not_positive (PBool b) = (\<not> b)"
| "not_positive _ = True"

fun hashable :: "pyval \<Rightarrow> bool" where
  "hashable (PList _) = False"
| "hashable (PDict _) = False"
| "hashable _ = True"

text \<open>\<^verbatim>\<open>v in s\<close> for a set \<open>s\<close> of strings, and for a list of values.\<close>

definition in_strings :: "pyval \<Rightarrow> string list \<Rightarrow> bool result" where
  "in_strings v ss = (if hashable v then Inr (\<exists>s \<in> set ss. v = PStr s) else Inl TypeError)"

definition mem_eq :: "pyval \<Rightarrow> pyval list \<Rightarrow> bool" where
  "mem_eq v xs = list_ex (py_eq v) xs"

text \<open>\<^verbatim>\<open>v in x\<close> for a container \<open>x\<close>.\<close>

fun py_in :: "pyval \<Rightarrow> pyval \<Rightarrow> bool result" where
  "py_in v (PList xs) = Inr (mem_eq v xs)"
| "py_in v (PDict d) = (if hashable v then Inr (\<exists>k \<in> set (map fst d). v = PStr k) else Inl TypeError)"
| "py_in (PStr s) (PStr t) = Inr (\<exists>i \<in> set [0..<Suc (length t)]. starts_with (drop i t) s)"
| "py_in _ _ = Inl TypeError"

section \<open>Dictionaries and sets keyed by values\<close>

type_synonym 'a vdict = "(pyval \<times> 'a) list"

fun vdict_set :: "pyval \<Rightarrow> 'a \<Rightarrow> 'a vdict \<Rightarrow> 'a vdict" where
  "vdict_set k v [] = [(k, v)]"
| "vdict_set k v ((k', v') # d) = (if py_eq k' k then (k', v) # d else (k', v') # vdict_set k v d)"

definition vdict_get :: "'a vdict \<Rightarrow> pyval \<Rightarrow> 'a option" where
  "vdict_get d k = map_option snd (List.find (\<lambda>(k', _). py_eq k' k) d)"

text \<open>\<^verbatim>\<open>{key(x): x for x in xs}\<close>: an unhashable key raises, a repeated key keeps its place and takes
  the later value.\<close>

definition vdict_by :: "('a \<Rightarrow> pyval result) \<Rightarrow> 'a list \<Rightarrow> 'a vdict result" where
  "vdict_by key xs = fold_res (\<lambda>x d. bind (key x) (\<lambda>k.
     if hashable k then Inr (vdict_set k x d) else Inl TypeError)) xs []"

definition set_add :: "pyval \<Rightarrow> pyval list \<Rightarrow> pyval list" where
  "set_add v s = (if mem_eq v s then s else s @ [v])"

text \<open>\<^verbatim>\<open>set(xs)\<close>.\<close>

definition py_set :: "pyval list \<Rightarrow> pyval list result" where
  "py_set xs = fold_res (\<lambda>x s. if hashable x then Inr (set_add x s) else Inl TypeError) xs []"

text \<open>Whether a set of values is a given set of strings.\<close>

definition set_is :: "pyval list \<Rightarrow> string list \<Rightarrow> bool" where
  "set_is s ss = (set s = set (map PStr ss))"

section \<open>Reports\<close>

type_synonym report = "string list result"

definition say :: "bool result \<Rightarrow> string \<Rightarrow> report" where
  "say c msg = bind c (\<lambda>b. Inr (if b then [msg] else []))"

fun all_of :: "report list \<Rightarrow> report" where
  "all_of [] = Inr []"
| "all_of (r # rs) = bind r (\<lambda>a. bind (all_of rs) (\<lambda>b. Inr (a @ b)))"

definition or_res :: "bool result \<Rightarrow> bool result \<Rightarrow> bool result" where
  "or_res a b = bind a (\<lambda>x. if x then Inr True else b)"

definition and_res :: "bool result \<Rightarrow> bool result \<Rightarrow> bool result" where
  "and_res a b = bind a (\<lambda>x. if x then b else Inr False)"

definition not_res :: "bool result \<Rightarrow> bool result" where
  "not_res a = bind a (\<lambda>x. Inr (\<not> x))"

definition any_res :: "('a \<Rightarrow> bool result) \<Rightarrow> 'a list \<Rightarrow> bool result" where
  "any_res f xs = foldr (\<lambda>x r. or_res (f x) r) xs (Inr False)"

definition filter_res :: "('a \<Rightarrow> bool result) \<Rightarrow> 'a list \<Rightarrow> 'a list result" where
  "filter_res f xs = bind (map_res (\<lambda>x. bind (f x) (\<lambda>b. Inr (b, x))) xs) (\<lambda>bs. Inr (map snd (filter fst bs)))"

lemma say_silent [simp, report_simps]: "say c msg = Inr [] \<longleftrightarrow> c = Inr False"
  by (cases c) (auto simp: say_def)

lemma all_of_silent [simp, report_simps]: "all_of rs = Inr [] \<longleftrightarrow> (\<forall>r \<in> set rs. r = Inr [])"
proof (induction rs)
  case (Cons r rs)
  then show ?case by (auto simp: bind_eq_Inr)
qed simp

lemma or_res_False [simp, report_simps]: "or_res a b = Inr False \<longleftrightarrow> a = Inr False \<and> b = Inr False"
  by (auto simp: or_res_def bind_eq_Inr split: if_splits)

lemma and_res_True [simp, report_simps]: "and_res a b = Inr True \<longleftrightarrow> a = Inr True \<and> b = Inr True"
  by (auto simp: and_res_def bind_eq_Inr split: if_splits)

lemma and_res_False [report_simps]:
  "and_res a b = Inr False \<longleftrightarrow> a = Inr False \<or> a = Inr True \<and> b = Inr False"
  by (auto simp: and_res_def bind_eq_Inr split: if_splits)

lemma not_res_False [simp, report_simps]: "not_res a = Inr False \<longleftrightarrow> a = Inr True"
  by (auto simp: not_res_def bind_eq_Inr)

lemma not_res_True [simp, report_simps]: "not_res a = Inr True \<longleftrightarrow> a = Inr False"
  by (auto simp: not_res_def bind_eq_Inr)

lemma any_res_False [simp, report_simps]: "any_res f xs = Inr False \<longleftrightarrow> (\<forall>x \<in> set xs. f x = Inr False)"
  by (induction xs) (auto simp: any_res_def)

lemma filter_res_Inr: "filter_res f xs = Inr ys \<Longrightarrow> ys = filter (\<lambda>x. f x = Inr True) xs"
proof (induction xs arbitrary: ys)
  case (Cons x xs)
  then obtain b bs where b: "f x = Inr b" "map_res (\<lambda>x. bind (f x) (\<lambda>b. Inr (b, x))) xs = Inr bs"
    and ys: "ys = map snd (filter fst ((b, x) # bs))"
    by (auto simp: filter_res_def bind_eq_Inr)
  have "map snd (filter fst bs) = filter (\<lambda>x. f x = Inr True) xs"
    by (rule Cons.IH) (simp add: filter_res_def b(2))
  then show ?case using b(1) ys by simp
qed (simp add: filter_res_def)

text \<open>A loop over \<open>enumerate\<close> whose body reports and updates a state.\<close>

definition fold_report :: "('a \<Rightarrow> 's \<Rightarrow> (string list \<times> 's) result) \<Rightarrow> 'a list \<Rightarrow> 's \<Rightarrow> (string list \<times> 's) result" where
  "fold_report f xs s = fold_res (\<lambda>x (es, t). bind (f x t) (\<lambda>(e, t'). Inr (es @ e, t'))) xs ([], s)"

lemma py_eq_PStr [simp]: "py_eq (PStr s) v \<longleftrightarrow> v = PStr s" "py_eq v (PStr s) \<longleftrightarrow> v = PStr s"
proof -
  have "v = PStr s" if "py_norm v = PStr s"
    using that by (cases v rule: py_norm.cases) (auto split: if_splits)
  then show "py_eq (PStr s) v \<longleftrightarrow> v = PStr s" "py_eq v (PStr s) \<longleftrightarrow> v = PStr s"
    by (auto simp: py_eq_def)
qed

lemma in_strings_True [report_simps]: "in_strings v ss = Inr True \<longleftrightarrow> (\<exists>s \<in> set ss. v = PStr s)"
  by (cases v) (auto simp: in_strings_def)

section \<open>Texts of values and dictionaries known to be dictionaries\<close>

text \<open>\<^verbatim>\<open>str(v)\<close>; the text of a float or a container is left to \<open>show\<close>.\<close>

definition str_of :: "(pyval \<Rightarrow> string) \<Rightarrow> pyval \<Rightarrow> string" where
  "str_of show v =
     (case v of
        PStr s \<Rightarrow> s | PInt n \<Rightarrow> show_int n | PNone \<Rightarrow> ''None''
      | PBool b \<Rightarrow> if b then ''True'' else ''False'' | _ \<Rightarrow> show v)"

text \<open>\<^verbatim>\<open>v.get(k, default)\<close> after \<^verbatim>\<open>isinstance(v, dict)\<close>.\<close>

fun dget :: "pyval \<Rightarrow> string \<Rightarrow> pyval \<Rightarrow> pyval" where
  "dget (PDict d) k v = (case map_of d k of None \<Rightarrow> v | Some x \<Rightarrow> x)"
| "dget _ k v = v"

definition got :: "pyval \<Rightarrow> string \<Rightarrow> pyval" where
  "got data k = dget data k PNone"

definition lower_hex :: "char \<Rightarrow> bool" where
  "lower_hex c = (let n = (of_char c :: nat) in 48 \<le> n \<and> n \<le> 57 \<or> 97 \<le> n \<and> n \<le> 102)"

text \<open>\<^verbatim>\<open>re.compile(r"^[0-9a-f]{n}$").fullmatch(s)\<close>.\<close>

definition hex_digits :: "nat \<Rightarrow> string \<Rightarrow> bool" where
  "hex_digits n s \<longleftrightarrow> length s = n \<and> list_all lower_hex s"

definition msg_if :: "bool \<Rightarrow> string \<Rightarrow> string list" where
  "msg_if c msg = (if c then [msg] else [])"

lemma msg_if_silent [simp, report_simps]: "msg_if c msg = [] \<longleftrightarrow> \<not> c"
  by (simp add: msg_if_def)

lemma in_strings_False [report_simps]: "in_strings v ss = Inr False \<Longrightarrow> \<not> (\<exists>s \<in> set ss. v = PStr s)"
  by (auto simp: in_strings_def)

text \<open>A loop whose iterations only report.\<close>

lemma fold_report_Inr:
  assumes "fold_report f xs s = Inr (es, t)"
  shows "\<exists>ts. length ts = Suc (length xs) \<and> ts ! 0 = s \<and> ts ! length xs = t \<and>
    (\<forall>i < length xs. \<exists>e. f (xs ! i) (ts ! i) = Inr (e, ts ! Suc i) \<and> (es = [] \<longrightarrow> e = []))"
proof -
  define g where "g = (\<lambda>x (es, t). bind (f x t) (\<lambda>(e, t'). Inr (es @ e, t')))"
  have gen: "fold_res g xs (es0, s) = Inr (es, t) \<Longrightarrow>
    \<exists>ts. length ts = Suc (length xs) \<and> ts ! 0 = s \<and> ts ! length xs = t \<and> (es = [] \<longrightarrow> es0 = []) \<and>
      (\<forall>i < length xs. \<exists>e. f (xs ! i) (ts ! i) = Inr (e, ts ! Suc i) \<and> (es = [] \<longrightarrow> e = []))" for es0
  proof (induction xs arbitrary: s es0)
    case Nil
    then show ?case by (auto intro!: exI[of _ "[s]"])
  next
    case (Cons x xs)
    then obtain e s1 where x: "f x s = Inr (e, s1)" and r: "fold_res g xs (es0 @ e, s1) = Inr (es, t)"
      by (auto simp: g_def bind_eq_Inr)
    obtain ts where ts: "length ts = Suc (length xs)" "ts ! 0 = s1" "ts ! length xs = t" "es = [] \<longrightarrow> es0 @ e = []"
      "\<forall>i < length xs. \<exists>e. f (xs ! i) (ts ! i) = Inr (e, ts ! Suc i) \<and> (es = [] \<longrightarrow> e = [])"
      using Cons.IH[OF r] by blast
    have "\<exists>e. f ((x # xs) ! i) ((s # ts) ! i) = Inr (e, (s # ts) ! Suc i) \<and> (es = [] \<longrightarrow> e = [])"
      if "i < length (x # xs)" for i
      using that ts x by (cases i) auto
    then show ?case using ts by (intro exI[of _ "s # ts"]) auto
  qed
  have "fold_res g xs ([], s) = Inr (es, t)" using assms unfolding fold_report_def g_def .
  from gen[OF this] show ?thesis by blast
qed

section \<open>Dictionaries built without a repeated key\<close>

lemma vdict_set_cases: "vdict_set k v d = d @ [(k, v)] \<or> length (vdict_set k v d) = length d"
  by (induction k v d rule: vdict_set.induct) auto

lemma vdict_fold_full:
  assumes "fold_res (\<lambda>x d. bind (key x) (\<lambda>k. if hashable k then Inr (vdict_set k x d) else Inl TypeError)) xs d0 = Inr d"
  shows "length d \<le> length d0 + length xs \<and> (length d = length d0 + length xs \<longrightarrow>
    map snd d = map snd d0 @ xs \<and> map Inr (map fst d) = map Inr (map fst d0) @ map key xs)"
  using assms
proof (induction xs arbitrary: d0)
  case (Cons x xs)
  then obtain k where k: "key x = Inr k" and r: "fold_res (\<lambda>x d. bind (key x) (\<lambda>k. if hashable k then Inr (vdict_set k x d)
      else Inl TypeError)) xs (vdict_set k x d0) = Inr d"
    by (auto simp: bind_eq_Inr split: if_splits)
  note IH = Cons.IH[OF r]
  from vdict_set_cases[of k x d0] show ?case
  proof
    assume e: "vdict_set k x d0 = d0 @ [(k, x)]"
    then show ?thesis using IH k by simp
  next
    assume e: "length (vdict_set k x d0) = length d0"
    then show ?thesis using IH by simp
  qed
qed simp

lemma vdict_by_full:
  assumes "vdict_by key xs = Inr d" "length d = length xs"
  shows "map snd d = xs \<and> map Inr (map fst d) = map key xs"
  using vdict_fold_full[OF assms(1)[unfolded vdict_by_def]] assms(2) by simp

lemma vdict_by_length: "vdict_by key xs = Inr d \<Longrightarrow> length d \<le> length xs"
  using vdict_fold_full[of key xs "[]" d] by (simp add: vdict_by_def)

text \<open>A text for values whose text does not matter.\<close>

definition no_show :: "pyval \<Rightarrow> string" where
  "no_show v = []"

end
