(* ===== verification/Trust_Anchor.thy ===== *)
theory Trust_Anchor
  imports P256 Der Py_Text Py_Json
begin

text \<open>
  The key readers of the release tooling: \<^verbatim>\<open>_parse_private_pem\<close> of
  \<^verbatim>\<open>tools/package_rt595_signed_slot.py\<close> and \<^verbatim>\<open>parse_pem\<close> of
  \<^verbatim>\<open>tools/provision_rt595_trust_anchor.py\<close>, over the DER reader and the curve arithmetic.
\<close>

section \<open>PEM\<close>

definition has_sub :: "string \<Rightarrow> string \<Rightarrow> bool" where
  "has_sub p s = list_ex (\<lambda>i. starts_with (drop i s) p) [0..<Suc (length s)]"

definition pem_char :: "char \<Rightarrow> bool" where
  "pem_char c = (is_b64 c \<or> c = CHR ''='' \<or> is_space c)"

text \<open>\<^verbatim>\<open>re.fullmatch(r"\s*-----BEGIN L-----\s*([A-Za-z0-9+/=\s]+)-----END L-----\s*", text)\<close>, and the
  group without its white space.  The class of the group holds no hyphen, so the group ends at the
  first one.\<close>

definition pem_body :: "string \<Rightarrow> string \<Rightarrow> string option" where
  "pem_body label text =
     (let head = ''-----BEGIN '' @ label @ ''-----''; foot = ''-----END '' @ label @ ''-----'';
          t = dropWhile is_space text
      in if \<not> starts_with t head then None
         else let u = drop (length head) t; body = takeWhile pem_char u; rest = drop (length body) u
           in if body \<noteq> [] \<and> starts_with rest foot \<and> list_all is_space (drop (length foot) rest)
              then Some (filter (\<lambda>c. \<not> is_space c) body) else None)"

definition OID_EC :: "byte list" where "OID_EC = [0x06, 0x07, 0x2a, 0x86, 0x48, 0xce, 0x3d, 0x02, 0x01]"
definition OID_P256 :: "byte list" where "OID_P256 = [0x06, 0x08, 0x2a, 0x86, 0x48, 0xce, 0x3d, 0x03, 0x01, 0x07]"

text \<open>\<^verbatim>\<open>bytes((0x06, len(oid))) + oid == expected\<close>: a length above 255 raises.\<close>

definition oid_is :: "byte list \<Rightarrow> byte list \<Rightarrow> bool result" where
  "oid_is oid expected =
     (if 255 < length oid then Inl (ValueError ''bytes must be in range(0, 256)'')
      else Inr (0x06 # byte_of (int (length oid)) # oid = expected))"

text \<open>\<^verbatim>\<open>q != len(alg) or ... != OID_EC or ... != OID_P256\<close>, evaluated left to right.\<close>

definition algorithm_ok :: "byte list \<Rightarrow> bool result" where
  "algorithm_ok alg =
     bind (tlv alg 0 0x06) (\<lambda>(oid1, q). bind (tlv alg q 0x06) (\<lambda>(oid2, q2).
       if q2 \<noteq> length alg then Inr False
       else bind (oid_is oid1 OID_EC) (\<lambda>a. if \<not> a then Inr False else oid_is oid2 OID_P256)))"

section \<open>Private keys\<close>

definition public_of :: "int \<Rightarrow> byte list result" where
  "public_of d =
     bind (point_mul (nat d) curve_g) (\<lambda>p.
       case p of None \<Rightarrow> Inl TypeError
       | Some (x, y) \<Rightarrow> bind (int_to_bytes 32 x) (\<lambda>xb. bind (int_to_bytes 32 y) (\<lambda>yb. Inr (xb @ yb))))"

definition parse_ec_key :: "byte list \<Rightarrow> (int \<times> byte list) result" where
  "parse_ec_key ec =
     bind (tlv ec 0 0x02) (\<lambda>(ec_version, q0). bind (tlv ec q0 0x04) (\<lambda>(scalar, q).
       let d = be_int scalar
       in if ec_version \<noteq> [1] \<or> length scalar \<noteq> 32 \<or> \<not> (1 \<le> d \<and> d < curve_n)
          then Inl (ValueError ''invalid P-256 private scalar'')
          else bind (public_of d) (\<lambda>public.
               if q = length ec then Inr (d, public)
               else bind (tlv ec q 0xA1) (\<lambda>(tagged, q2). bind (tlv tagged 0 0x03) (\<lambda>(bits, stop).
                    if q2 \<noteq> length ec \<or> stop \<noteq> length tagged \<or> bits \<noteq> [0, 4] @ public
                    then Inl (ValueError ''EC public key does not match private scalar'')
                    else Inr (d, public))))))"

definition parse_pkcs8 :: "byte list \<Rightarrow> (int \<times> byte list) result" where
  "parse_pkcs8 data =
     bind (tlv data 0 0x30) (\<lambda>(outer, stop).
     if stop \<noteq> length data then Inl (ValueError ''trailing PKCS#8 data'')
     else bind (tlv outer 0 0x02) (\<lambda>(version, p0).
          bind (tlv outer p0 0x30) (\<lambda>(alg, p1).
          bind (tlv outer p1 0x04) (\<lambda>(private, pos).
          if pos \<noteq> length outer \<or> version \<noteq> [0] then Inl (ValueError ''unsupported PKCS#8 structure'')
          else bind (algorithm_ok alg) (\<lambda>ok.
               if \<not> ok then Inl (ValueError ''private key must be EC prime256v1/P-256'')
               else bind (tlv private 0 0x30) (\<lambda>(ec, stop2).
                    if stop2 \<noteq> length private then Inl (ValueError ''trailing EC private-key data'')
                    else parse_ec_key ec))))))"

definition parse_private_pem :: "string \<Rightarrow> (int \<times> byte list) result" where
  "parse_private_pem text =
     (case pem_body ''PRIVATE KEY'' text of
        None \<Rightarrow> Inl (ValueError ''expected one unencrypted PKCS#8 PRIVATE KEY'')
      | Some body \<Rightarrow> (case b64_decode body of
            None \<Rightarrow> Inl (ValueError ''invalid PEM base64'')
          | Some data \<Rightarrow> parse_pkcs8 data))"

section \<open>Public keys\<close>

definition parse_spki :: "byte list \<Rightarrow> (byte list \<times> byte list) result" where
  "parse_spki data =
     bind (tlv data 0 0x30) (\<lambda>(outer, stop).
     if stop \<noteq> length data then Inl (ValueError ''trailing DER data'')
     else bind (tlv outer 0 0x30) (\<lambda>(alg, p0).
          bind (algorithm_ok alg) (\<lambda>ok.
          if \<not> ok then Inl (ValueError ''key must be EC prime256v1/P-256'')
          else bind (tlv outer p0 0x03) (\<lambda>(bits, pos).
               if pos \<noteq> length outer \<or> length bits \<noteq> 66 \<or> bits ! 0 \<noteq> 0 \<or> bits ! 1 \<noteq> 4
               then Inl (ValueError ''expected uncompressed P-256 public point'')
               else let raw = drop 2 bits; x = be_int (take 32 raw); y = be_int (drop 32 raw)
                 in if curve_p \<le> x \<or> curve_p \<le> y \<or> (y * y - (x * x * x + curve_a * x + curve_b)) mod curve_p \<noteq> 0
                    then Inl (ValueError ''public point is not on P-256'')
                    else Inr (data, raw)))))"

definition parse_pem :: "string \<Rightarrow> (byte list \<times> byte list) result" where
  "parse_pem text =
     (if has_sub ''PRIVATE KEY'' text then Inl (ValueError ''private keys are forbidden'')
      else case pem_body ''PUBLIC KEY'' text of
          None \<Rightarrow> Inl (ValueError ''expected one PEM PUBLIC KEY (SubjectPublicKeyInfo)'')
        | Some body \<Rightarrow> (case b64_decode body of
              None \<Rightarrow> Inl (ValueError ''invalid PEM base64'')
            | Some data \<Rightarrow> parse_spki data))"

section \<open>What is read is a key\<close>

definition valid_public :: "byte list \<Rightarrow> bool" where
  "valid_public raw \<longleftrightarrow> length raw = 64 \<and> on_curve (Some (be_int (take 32 raw), be_int (drop 32 raw)))"

lemma parse_spki_valid:
  assumes "parse_spki data = Inr (d, raw)"
  shows "valid_public raw \<and> d = data"
proof -
  obtain bits :: "byte list" where b: "length bits = 66" "raw = drop 2 bits" "d = data"
    "be_int (take 32 raw) < curve_p" "be_int (drop 32 raw) < curve_p"
    "(be_int (drop 32 raw) * be_int (drop 32 raw) - (be_int (take 32 raw) * be_int (take 32 raw) * be_int (take 32 raw)
       + curve_a * be_int (take 32 raw) + curve_b)) mod curve_p = 0"
    using assms by (auto simp: parse_spki_def bind_eq_Inr Let_def split: if_splits)
  define x y where xy: "x = be_int (take 32 raw)" "y = be_int (drop 32 raw)"
  have e: "y * y - (x * x * x + curve_a * x + curve_b) = y ^ 2 - x ^ 3 - curve_a * x - curve_b"
    by (simp add: power2_eq_square power3_eq_cube)
  have "(y * y - (x * x * x + curve_a * x + curve_b)) mod curve_p = 0" using b(6) unfolding xy .
  then have "curve_eq (x, y)" unfolding e by (simp add: curve_eq_def)
  moreover have "0 \<le> x" "0 \<le> y" "x < curve_p" "y < curve_p" using be_int_bounds b(4,5) by (simp_all add: xy)
  moreover have "length raw = 64" using b(1,2) by simp
  ultimately show ?thesis using b(3) by (simp add: valid_public_def on_curve_def flip: xy)
qed

lemma parse_pem_valid: "parse_pem text = Inr (d, raw) \<Longrightarrow> valid_public raw"
  using parse_spki_valid by (auto simp: parse_pem_def split: if_splits option.splits)

lemma public_of_valid:
  assumes "public_of d = Inr public"
  shows "valid_public public"
proof -
  obtain x y where xy: "point_mul (nat d) curve_g = Inr (Some (x, y))" "public = be_bytes 32 x @ be_bytes 32 y"
    "0 \<le> x" "x < 256 ^ 32" "0 \<le> y" "y < 256 ^ 32"
    using assms by (auto simp: public_of_def bind_eq_Inr int_to_bytes_def split: option.splits if_splits)
  have "on_curve (Some (x, y))" using point_mul_on_curve[OF xy(1)] generator_on_curve by simp
  then show ?thesis using xy by (simp add: valid_public_def be_int_to_bytes)
qed

lemma public_of_defined:
  assumes "point_mul (nat d) curve_g = Inr (Some (x, y))"
  shows "\<exists>public. public_of d = Inr public"
proof -
  have "on_curve (Some (x, y))" using point_mul_on_curve[OF assms] generator_on_curve by simp
  then show ?thesis using curve_p_bound by (simp add: public_of_def assms on_curve_def int_to_bytes_def)
qed

lemma parse_ec_key_Inr:
  assumes "parse_ec_key ec = Inr (d, public)"
  shows "1 \<le> d \<and> d < curve_n \<and> public_of d = Inr public"
  using assms by (auto simp: parse_ec_key_def bind_eq_Inr Let_def split: if_splits prod.splits)

lemma parse_private_pem_Inr:
  assumes "parse_private_pem text = Inr (d, public)"
  shows "1 \<le> d \<and> d < curve_n \<and> public_of d = Inr public"
  using assms parse_ec_key_Inr
  by (auto simp: parse_private_pem_def parse_pkcs8_def bind_eq_Inr split: option.splits if_splits prod.splits)

section \<open>The build artifacts\<close>

definition quoted :: "string \<Rightarrow> string" where
  "quoted s = CHR 0x22 # s @ [CHR 0x22]"

definition c_bytes :: "byte list \<Rightarrow> string" where
  "c_bytes bs = join_with '', '' (map (\<lambda>b. ''0x'' @ hex_byte b) bs)"

definition header_lines :: "byte list \<Rightarrow> byte list \<Rightarrow> byte list \<Rightarrow> string list" where
  "header_lines raw key_id raw_hash =
     [''#ifndef OPENREF_TRUST_ANCHOR_GENERATED_H'', ''#define OPENREF_TRUST_ANCHOR_GENERATED_H'', ''#include <stdint.h>'',
      ''#define OPENREF_TRUST_ANCHOR_KEY_ID_HEX '' @ quoted (hex_of_bytes key_id),
      ''#define OPENREF_TRUST_ANCHOR_RAW_SHA256_HEX '' @ quoted (hex_of_bytes raw_hash),
      ''static const uint8_t openref_trust_anchor_key_id[8] = {'' @ c_bytes key_id @ ''};'',
      ''static const uint8_t openref_trust_anchor_public_key[64] = {'' @ c_bytes raw @ ''};'',
      ''#endif'']"

definition render_header :: "byte list \<Rightarrow> byte list \<Rightarrow> byte list \<Rightarrow> string" where
  "render_header raw key_id raw_hash = concat (map (\<lambda>l. l @ [CHR 0x0A]) (header_lines raw key_id raw_hash))"

text \<open>\<^verbatim>\<open>main\<close>: the header and the manifest it writes for the key read from the named file.\<close>

definition provision :: "string \<Rightarrow> string \<Rightarrow> (string \<times> (string \<times> pyval) list) result" where
  "provision source_file pem =
     bind (parse_pem pem) (\<lambda>(spki, raw).
       let raw_hash = sha256 raw; key_id = take 8 raw_hash
       in Inr (render_header raw key_id raw_hash,
            [(''schema'', PInt 1), (''algorithm'', PStr ''ECDSA-P256-SHA256''), (''key_id_hex'', PStr (hex_of_bytes key_id)),
             (''key_id_derivation'', PStr ''first-8-bytes-of-SHA256(raw-x-concat-y)''),
             (''public_key_format'', PStr ''raw-X||Y-big-endian''),
             (''public_key_sha256'', PStr (hex_of_bytes raw_hash)),
             (''spki_der_sha256'', PStr (hex_of_bytes (sha256 spki))), (''source_file'', PStr source_file)]))"

end
