(* ===== verification/Slot_Package.thy ===== *)
theory Slot_Package
  imports Trust_Anchor
begin

text \<open>
  \<^verbatim>\<open>tools/package_rt595_signed_slot.py\<close>: the signed slot package of the RT595 update path, its
  creation and its independent verification.  Files are the contents they hold: the layout is the
  value \<^verbatim>\<open>json.loads\<close> returned, image and package are bytes, keys are PEM texts; the package and the
  metadata that \<^verbatim>\<open>create_package\<close> writes are what it returns here.
\<close>

definition MANIFEST_BYTES :: nat where "MANIFEST_BYTES = 144"
definition SIGNED_BYTES :: nat where "SIGNED_BYTES = 80"
definition SECTOR_BYTES :: nat where "SECTOR_BYTES = 4096"
definition TARGET_AUDIO :: int where "TARGET_AUDIO = 2"
definition MAGIC :: "byte list" where "MAGIC = [0x4F, 0x52, 0x55, 0x50]"
definition FORMAT_VERSION :: int where "FORMAT_VERSION = 1"

lemmas package_consts = MANIFEST_BYTES_def SIGNED_BYTES_def SECTOR_BYTES_def TARGET_AUDIO_def MAGIC_def FORMAT_VERSION_def

section \<open>Arguments\<close>

definition u32 :: "string + int \<Rightarrow> bool \<Rightarrow> int result" where
  "u32 value nonzero =
     bind (case value of
             Inl s \<Rightarrow> (case parse_int_base 0 s of Inl _ \<Rightarrow> Inl (ValueError ''is not an integer'') | Inr n \<Rightarrow> Inr n)
           | Inr n \<Rightarrow> Inr n) (\<lambda>number.
       if number < (if nonzero then 1 else 0) \<or> 0xFFFFFFFF < number
       then Inl (ValueError ''is outside uint32 bounds'') else Inr number)"

record region =
  rg_manifest_base :: int
  rg_image_base :: int
  rg_capacity :: int

definition upper_char :: "char \<Rightarrow> char" where
  "upper_char c = (let n = (of_char c :: nat) in if 97 \<le> n \<and> n \<le> 122 then char_of (n - 32) else c)"

definition upper :: "string \<Rightarrow> string" where
  "upper s = map upper_char s"

text \<open>\<^verbatim>\<open>int(x, 0)\<close>: only a string can be converted with a base.\<close>

fun int_base0 :: "pyval \<Rightarrow> int result" where
  "int_base0 (PStr s) = parse_int_base 0 s"
| "int_base0 _ = Inl TypeError"


text \<open>\<^verbatim>\<open>{p["name"]: p for p in parts}\<close>: a later entry replaces an earlier one of the same name.\<close>

definition named_parts :: "pyval list \<Rightarrow> (pyval \<times> pyval) list result" where
  "named_parts ps = map_res (\<lambda>p. bind (getitem p ''name'') (\<lambda>n.
     if hashable n then Inr (n, p) else Inl TypeError)) ps"

definition layout_region :: "pyval \<Rightarrow> string \<Rightarrow> region result" where
  "layout_region data slot =
     bind (get_default data ''erase_bytes'' (PStr ''0'')) (\<lambda>erase.
     bind (case erase of PStr s \<Rightarrow> parse_int_base 0 s | _ \<Rightarrow> py_int erase) (\<lambda>erase_bytes.
     if erase_bytes \<noteq> int SECTOR_BYTES then Inl (ValueError ''layout erase size must be 4096 bytes'')
     else bind (bind (bind (get_default data ''partitions'' (PList [])) py_iter) named_parts) (\<lambda>parts.
       let prefix = ''slot_'' @ lower slot @ ''_''; find = map_of (rev parts)
       in case (find (PStr (prefix @ ''manifest'')), find (PStr (prefix @ ''image''))) of
            (Some manifest, Some img) \<Rightarrow>
              bind (bind (getitem manifest ''base'') int_base0) (\<lambda>mb.
              bind (bind (getitem manifest ''size'') int_base0) (\<lambda>ms.
              bind (bind (getitem img ''base'') int_base0) (\<lambda>ib.
              bind (bind (getitem img ''size'') int_base0) (\<lambda>capacity.
              bind (get_default manifest ''role'' PNone) (\<lambda>mrole.
              bind (get_default img ''role'' PNone) (\<lambda>irole.
                if ms \<noteq> int SECTOR_BYTES \<or> ib \<noteq> mb + int SECTOR_BYTES \<or>
                   mrole \<noteq> PStr ''signed_manifest_commit'' \<or> irole \<noteq> PStr ''candidate_image''
                then Inl (ValueError ''layout violates manifest-sector/image adjacency contract'')
                else Inr \<lparr>rg_manifest_base = mb, rg_image_base = ib, rg_capacity = capacity\<rparr>))))))
          | _ \<Rightarrow> Inl (ValueError ''layout has no complete slot''))))"

definition any_nonzero :: "byte list \<Rightarrow> bool" where
  "any_nonzero bs = list_ex (\<lambda>b. b \<noteq> 0) bs"

definition release_id :: "string \<Rightarrow> byte list result" where
  "release_id text =
     bind (case uuid_bytes text of
             Some raw \<Rightarrow> Inr raw
           | None \<Rightarrow> of_option (ValueError ''release ID must be a UUID or 32 hex digits'') (from_hex text)) (\<lambda>raw.
       if length raw \<noteq> 16 \<or> \<not> any_nonzero raw
       then Inl (ValueError ''release ID must be a nonzero 16-byte value'') else Inr raw)"

section \<open>The manifest\<close>

definition header_fields :: "int \<Rightarrow> int \<Rightarrow> int \<Rightarrow> int \<Rightarrow> byte list result" where
  "header_fields hardware version minimum bytes = pack_fields [(4, hardware), (4, version), (4, minimum), (4, bytes)]"

definition signed_part :: "int \<Rightarrow> int \<Rightarrow> int \<Rightarrow> byte list \<Rightarrow> byte list \<Rightarrow> byte list \<Rightarrow> byte list result" where
  "signed_part hardware version minimum img rid key_id =
     bind (header_fields hardware version minimum (int (length img))) (\<lambda>fields.
       Inr (MAGIC @ [byte_of FORMAT_VERSION, byte_of TARGET_AUDIO, 0, 0] @ fields @ sha256 img @ rid @ key_id))"

section \<open>Creating a package\<close>

record pack_args =
  pa_layout :: pyval
  pa_slot :: string
  pa_image :: "byte list"
  pa_private_key :: string
  pa_hardware_id :: string
  pa_image_version :: string
  pa_minimum_bootloader :: string
  pa_maximum_bootloader :: "string option"
  pa_floor :: string
  pa_confirmed :: string
  pa_release_id :: string

record pack_inputs =
  pi_slot :: string
  pi_region :: region
  pi_hardware :: int
  pi_version :: int
  pi_minimum :: int
  pi_floor :: int
  pi_confirmed :: int
  pi_scalar :: int
  pi_signed :: "byte list"

text \<open>Everything up to the signature.\<close>

definition prepare_package :: "pack_args \<Rightarrow> pack_inputs result" where
  "prepare_package args =
     (let slot = upper (pa_slot args); img = pa_image args
      in bind (layout_region (pa_layout args) slot) (\<lambda>region.
         if img = [] \<or> rg_capacity region < int (length img) then Inl (ValueError ''image size'')
         else bind (u32 (Inl (pa_hardware_id args)) True) (\<lambda>hardware.
              bind (u32 (Inl (pa_image_version args)) True) (\<lambda>version.
              bind (u32 (Inl (pa_minimum_bootloader args)) True) (\<lambda>minimum.
              bind (u32 (Inl (pa_floor args)) False) (\<lambda>floor.
              bind (u32 (Inl (pa_confirmed args)) False) (\<lambda>confirmed.
              if version < floor \<or> version \<le> confirmed
              then Inl (ValueError ''image version violates rollback/confirmed-version policy'')
              else bind (case pa_maximum_bootloader args of
                           None \<Rightarrow> Inr False
                         | Some m \<Rightarrow> bind (u32 (Inl m) True) (\<lambda>maximum. Inr (maximum < minimum))) (\<lambda>exceeds.
                   if exceeds then Inl (ValueError ''minimum bootloader version exceeds declared maximum'')
                   else bind (parse_private_pem (pa_private_key args)) (\<lambda>(d, public).
                     let key_id = take 8 (sha256 public)
                     in if \<not> any_nonzero key_id \<or> \<not> any_nonzero (sha256 img)
                        then Inl (ValueError ''derived key ID or image digest is forbidden all-zero value'')
                        else bind (header_fields hardware version minimum (int (length img))) (\<lambda>_.
                             bind (release_id (pa_release_id args)) (\<lambda>rid.
                             bind (signed_part hardware version minimum img rid key_id) (\<lambda>signed.
                             if length signed \<noteq> SIGNED_BYTES then Inl (AssertionError ''manifest contract drift'')
                             else Inr \<lparr>pi_slot = slot, pi_region = region, pi_hardware = hardware, pi_version = version,
                                  pi_minimum = minimum, pi_floor = floor, pi_confirmed = confirmed, pi_scalar = d,
                                  pi_signed = signed\<rparr>))))))))))))"

definition metadata_of :: "pack_inputs \<Rightarrow> byte list \<Rightarrow> byte list \<Rightarrow> byte list \<Rightarrow> (string \<times> pyval) list" where
  "metadata_of inp img manifest package =
     [(''schema'', PStr ''openref-rt595-signed-slot-v1''), (''slot'', PStr (pi_slot inp)),
      (''manifest_base'', PStr (hex_padded 8 (rg_manifest_base (pi_region inp)))),
      (''image_base'', PStr (hex_padded 8 (rg_image_base (pi_region inp)))),
      (''image_capacity'', PInt (rg_capacity (pi_region inp))), (''image_size'', PInt (int (length img))),
      (''hardware_id'', PStr (hex_padded 8 (pi_hardware inp))), (''image_version'', PInt (pi_version inp)),
      (''minimum_bootloader_version'', PInt (pi_minimum inp)), (''target'', PInt TARGET_AUDIO),
      (''signing_antirollback_floor'', PInt (pi_floor inp)),
      (''signing_confirmed_image_version'', PInt (pi_confirmed inp)),
      (''release_id'', PStr (hex_of_bytes (slice (pi_signed inp) 56 72))),
      (''key_id'', PStr (hex_of_bytes (slice (pi_signed inp) 72 80))),
      (''image_sha256'', PStr (hex_of_bytes (sha256 img))),
      (''manifest_sha256'', PStr (hex_of_bytes (sha256 manifest))),
      (''package_sha256'', PStr (hex_of_bytes (sha256 package))), (''package_bytes'', PInt (int (length package))),
      (''signature_format'', PStr ''ECDSA-P256-SHA256 raw-r||s big-endian canonical-low-S'')]"

definition create_package :: "pack_args \<Rightarrow> (byte list \<times> (string \<times> pyval) list) result option" where
  "create_package args =
     (case prepare_package args of
        Inl e \<Rightarrow> Some (Inl e)
      | Inr inp \<Rightarrow> map_option (\<lambda>m. bind m (\<lambda>signature.
          let manifest = pi_signed inp @ signature;
              sector = manifest @ replicate (SECTOR_BYTES - length manifest) 0xFF;
              package = sector @ pa_image args
          in Inr (package, metadata_of inp (pa_image args) manifest package)))
          (sign (pi_scalar inp) (pi_signed inp)))"

section \<open>Verifying a package\<close>

record verify_args =
  va_layout :: pyval
  va_slot :: string
  va_package :: "byte list"
  va_public_key :: string
  va_hardware_id :: pyval
  va_bootloader_version :: pyval
  va_floor :: pyval
  va_confirmed :: pyval

text \<open>\<^verbatim>\<open>struct.unpack_from("<IIII", manifest, 8)\<close>.\<close>

definition manifest_fields :: "byte list \<Rightarrow> (int \<times> int \<times> int \<times> int) result" where
  "manifest_fields manifest =
     (case unpack_fields [4, 4, 4, 4] (drop 8 manifest) of
        [hardware, version, minimum, image_size] \<Rightarrow> Inr (hardware, version, minimum, image_size)
      | _ \<Rightarrow> Inl StructError)"

text \<open>\<^verbatim>\<open>_u32\<close> of a policy value: a text on the command line, or whatever value the metadata of a release
  bundle holds; a number that is not a text is compared as it is.\<close>

definition policy_u32 :: "pyval \<Rightarrow> bool \<Rightarrow> pyval result" where
  "policy_u32 v nonzero =
     bind (case v of
             PStr s \<Rightarrow> (case parse_int_base 0 s of Inl _ \<Rightarrow> Inl (ValueError ''is not an integer'') | Inr n \<Rightarrow> Inr (PInt n))
           | _ \<Rightarrow> Inr v) (\<lambda>number.
     bind (or_res (py_less number (PInt (if nonzero then 1 else 0))) (py_less (PInt 0xFFFFFFFF) number)) (\<lambda>outside.
       if outside then Inl (ValueError ''is outside uint32 bounds'') else Inr number))"

text \<open>The checks of the manifest against the caller's policy.\<close>

definition check_policy :: "verify_args \<Rightarrow> int \<Rightarrow> int \<Rightarrow> int \<Rightarrow> unit result" where
  "check_policy args hardware version minimum =
     bind (policy_u32 (va_hardware_id args) True) (\<lambda>expected_hardware.
     bind (policy_u32 (va_bootloader_version args) True) (\<lambda>bootloader.
     bind (policy_u32 (va_floor args) False) (\<lambda>floor.
     bind (policy_u32 (va_confirmed args) False) (\<lambda>confirmed.
       if \<not> py_eq (PInt hardware) expected_hardware then Inl (ValueError ''hardware ID mismatch'')
       else bind (py_less bootloader (PInt minimum)) (\<lambda>old.
         if old then Inl (ValueError ''bootloader version is below manifest minimum'')
         else bind (or_res (py_less (PInt version) floor) (py_le (PInt version) confirmed)) (\<lambda>rolled_back.
           if rolled_back then Inl (ValueError ''image version violates rollback/confirmed-version policy'')
           else Inr ()))))))"

text \<open>The checks of the manifest's digests, identifiers and signature against the public key.\<close>

definition check_signature :: "string \<Rightarrow> byte list \<Rightarrow> byte list \<Rightarrow> unit result" where
  "check_signature pem manifest img =
     bind (parse_pem pem) (\<lambda>(_, public).
       if slice manifest 72 80 \<noteq> take 8 (sha256 public)
       then Inl (ValueError ''manifest key ID does not match public key'')
       else if \<not> any_nonzero (slice manifest 24 56) \<or> \<not> any_nonzero (slice manifest 72 80)
       then Inl (ValueError ''manifest digest or key ID is zero'')
       else if \<not> any_nonzero (slice manifest 56 72) then Inl (ValueError ''release ID is zero'')
       else if sha256 img \<noteq> slice manifest 24 56 then Inl (ValueError ''image digest mismatch'')
       else bind (verify public (take SIGNED_BYTES manifest) (drop SIGNED_BYTES manifest)) (\<lambda>ok.
         if \<not> ok then Inl (ValueError ''signature verification failed'') else Inr ()))"

definition verify_report :: "string \<Rightarrow> byte list \<Rightarrow> byte list \<Rightarrow> int \<Rightarrow> int \<Rightarrow> int \<Rightarrow> (string \<times> pyval) list" where
  "verify_report slot package manifest hardware version image_size =
     [(''valid'', PBool True), (''slot'', PStr slot), (''hardware_id'', PStr (hex_padded 8 hardware)),
      (''image_version'', PInt version), (''image_size'', PInt image_size),
      (''image_sha256'', PStr (hex_of_bytes (slice manifest 24 56))),
      (''key_id'', PStr (hex_of_bytes (slice manifest 72 80))),
      (''package_sha256'', PStr (hex_of_bytes (sha256 package)))]"

definition verify_package :: "verify_args \<Rightarrow> (string \<times> pyval) list result" where
  "verify_package args =
     (let slot = upper (va_slot args); package = va_package args
      in bind (layout_region (va_layout args) slot) (\<lambda>region.
         if length package \<le> SECTOR_BYTES \<or> int SECTOR_BYTES + rg_capacity region < int (length package)
         then Inl (ValueError ''package length is outside the selected slot'')
         else let manifest = take MANIFEST_BYTES package; padding = slice package MANIFEST_BYTES SECTOR_BYTES;
                  img = drop SECTOR_BYTES package
           in if list_ex (\<lambda>b. b \<noteq> 0xFF) padding
              then Inl (ValueError ''manifest-sector padding is not erased 0xff'')
              else if take 4 manifest \<noteq> MAGIC \<or> manifest ! 4 \<noteq> byte_of FORMAT_VERSION \<or>
                      manifest ! 5 \<noteq> byte_of TARGET_AUDIO \<or> slice manifest 6 8 \<noteq> [0, 0]
              then Inl (ValueError ''invalid manifest header'')
              else bind (manifest_fields manifest) (\<lambda>(hardware, version, minimum, image_size).
                if image_size \<noteq> int (length img)
                then Inl (ValueError ''manifest image size does not equal package image size'')
                else bind (check_policy args hardware version minimum) (\<lambda>_.
                     bind (check_signature (va_public_key args) manifest img) (\<lambda>_.
                       Inr (verify_report slot package manifest hardware version image_size))))))"

section \<open>What creation guarantees\<close>

lemma u32_bounds: "u32 v nz = Inr n \<Longrightarrow> (if nz then 1 else 0) \<le> n \<and> n \<le> 0xFFFFFFFF"
  by (auto simp: u32_def bind_eq_Inr split: if_splits)

lemma release_id_Inr: "release_id t = Inr rid \<Longrightarrow> length rid = 16 \<and> any_nonzero rid"
  by (auto simp: release_id_def bind_eq_Inr split: if_splits option.splits)

definition header_bytes :: "int \<Rightarrow> int \<Rightarrow> int \<Rightarrow> int \<Rightarrow> byte list" where
  "header_bytes hardware version minimum bytes = field_bytes [(4, hardware), (4, version), (4, minimum), (4, bytes)]"

lemma header_fields_Inr:
  assumes "header_fields a b c d = Inr bs"
  shows "bs = header_bytes a b c d" "length bs = 16" "unpack_fields [4, 4, 4, 4] (bs @ rest) = [a, b, c, d]"
proof -
  have fit: "fields_fit [(4, a), (4, b), (4, c), (4, d)]"
    using assms by (auto simp: header_fields_def fields_fit_def pack_uint_def bind_eq_Inr split: if_splits)
  show bs: "bs = header_bytes a b c d"
    using assms pack_fields_fit[OF fit] by (simp add: header_fields_def header_bytes_def)
  show "length bs = 16" by (simp add: bs header_bytes_def)
  show "unpack_fields [4, 4, 4, 4] (bs @ rest) = [a, b, c, d]"
    using unpack_field_bytes[OF fit, of rest] by (simp add: bs header_bytes_def)
qed

text \<open>The facts of a package that is ready to be signed.\<close>

definition prepared :: "pack_args \<Rightarrow> pack_inputs \<Rightarrow> byte list \<Rightarrow> byte list \<Rightarrow> bool" where
  "prepared a inp public rid \<longleftrightarrow>
     pi_slot inp = upper (pa_slot a) \<and> layout_region (pa_layout a) (pi_slot inp) = Inr (pi_region inp) \<and>
     pa_image a \<noteq> [] \<and> int (length (pa_image a)) \<le> rg_capacity (pi_region inp) \<and>
     u32 (Inl (pa_hardware_id a)) True = Inr (pi_hardware inp) \<and> u32 (Inl (pa_image_version a)) True = Inr (pi_version inp) \<and>
     u32 (Inl (pa_minimum_bootloader a)) True = Inr (pi_minimum inp) \<and> u32 (Inl (pa_floor a)) False = Inr (pi_floor inp) \<and>
     u32 (Inl (pa_confirmed a)) False = Inr (pi_confirmed inp) \<and>
     pi_floor inp \<le> pi_version inp \<and> pi_confirmed inp < pi_version inp \<and>
     parse_private_pem (pa_private_key a) = Inr (pi_scalar inp, public) \<and>
     any_nonzero (take 8 (sha256 public)) \<and> any_nonzero (sha256 (pa_image a)) \<and>
     release_id (pa_release_id a) = Inr rid \<and>
     signed_part (pi_hardware inp) (pi_version inp) (pi_minimum inp) (pa_image a) rid (take 8 (sha256 public)) = Inr (pi_signed inp)"

lemma prepare_package_Inr:
  assumes "prepare_package a = Inr inp"
  shows "\<exists>public rid. prepared a inp public rid"
  using assms unfolding prepare_package_def Let_def prepared_def
  by (auto simp: bind_eq_Inr not_less split: if_splits prod.splits)

lemma signed_part_Inr:
  assumes "signed_part hw v m img rid key_id = Inr sp" "length rid = 16" "length key_id = 8"
  shows "length sp = 80 \<and> take 4 sp = MAGIC \<and> sp ! 4 = byte_of FORMAT_VERSION \<and> sp ! 5 = byte_of TARGET_AUDIO \<and>
    slice sp 6 8 = [0, 0] \<and> unpack_fields [4, 4, 4, 4] (drop 8 sp @ rest) = [hw, v, m, int (length img)] \<and>
    slice sp 24 56 = sha256 img \<and> slice sp 56 72 = rid \<and> slice sp 72 80 = key_id"
proof -
  obtain fs where f: "header_fields hw v m (int (length img)) = Inr fs"
    and sp: "sp = MAGIC @ [byte_of FORMAT_VERSION, byte_of TARGET_AUDIO, 0, 0] @ fs @ sha256 img @ rid @ key_id"
    using assms(1) by (auto simp: signed_part_def bind_eq_Inr)
  note F = header_fields_Inr[OF f]
  have "drop 8 sp = fs @ sha256 img @ rid @ key_id" by (simp add: sp MAGIC_def)
  then show ?thesis using F(3)[of "sha256 img @ rid @ key_id @ rest"] F(2) assms(2,3)
    by (simp add: sp MAGIC_def slice_def)
qed

definition sector_of :: "byte list \<Rightarrow> byte list" where
  "sector_of manifest = manifest @ replicate (SECTOR_BYTES - length manifest) 0xFF"

lemma create_package_Inr:
  assumes "create_package a = Some (Inr (pkg, md))"
  shows "\<exists>inp public rid sig. prepared a inp public rid \<and> sign (pi_scalar inp) (pi_signed inp) = Some (Inr sig) \<and>
    pkg = sector_of (pi_signed inp @ sig) @ pa_image a \<and> length (pi_signed inp) = 80 \<and> length sig = 64"
proof -
  obtain inp sig where inp: "prepare_package a = Inr inp" "sign (pi_scalar inp) (pi_signed inp) = Some (Inr sig)"
    and pkg: "pkg = sector_of (pi_signed inp @ sig) @ pa_image a"
    using assms by (auto simp: create_package_def bind_eq_Inr Let_def sector_of_def split: sum.splits)
  obtain public rid where p: "prepared a inp public rid" using prepare_package_Inr[OF inp(1)] by blast
  have "length rid = 16" using p release_id_Inr by (auto simp: prepared_def)
  then have "length (pi_signed inp) = 80" using p signed_part_Inr by (auto simp: prepared_def)
  then show ?thesis using inp(2) pkg p sign_range[OF inp(2)] by blast
qed

lemma sector_slices:
  assumes "length sp = 80" "length sig = 64"
  shows "length (sector_of (sp @ sig)) = 4096" "take 144 (sector_of (sp @ sig) @ img) = sp @ sig"
    "slice (sector_of (sp @ sig) @ img) 144 4096 = replicate 3952 0xFF" "drop 4096 (sector_of (sp @ sig) @ img) = img"
  using assms by (simp_all add: sector_of_def SECTOR_BYTES_def slice_def)

text \<open>The verification of a created package comes down to the signature equation.\<close>

definition verify_args_of :: "pack_args \<Rightarrow> byte list \<Rightarrow> string \<Rightarrow> verify_args" where
  "verify_args_of a pkg pem = \<lparr>va_layout = pa_layout a, va_slot = pa_slot a, va_package = pkg, va_public_key = pem,
     va_hardware_id = PStr (pa_hardware_id a), va_bootloader_version = PStr (pa_minimum_bootloader a),
     va_floor = PStr (pa_floor a), va_confirmed = PStr (pa_confirmed a)\<rparr>"

lemma py_order_int [simp]:
  "py_less (PInt a) (PInt b) = Inr (a < b)" "py_le (PInt a) (PInt b) = Inr (a \<le> b)" "py_eq (PInt a) (PInt b) \<longleftrightarrow> a = b"
  by (simp_all add: py_less_def py_le_def py_eq_def)

text \<open>Of a text, the policy value is what the packager reads.\<close>

lemma policy_u32_text: "policy_u32 (PStr s) nz = bind (u32 (Inl s) nz) (\<lambda>n. Inr (PInt n))"
  by (auto simp: policy_u32_def u32_def or_res_def split: sum.splits)

lemma check_policy_prepared:
  "prepared a inp public rid \<Longrightarrow>
   check_policy (verify_args_of a pkg pem) (pi_hardware inp) (pi_version inp) (pi_minimum inp) = Inr ()"
  by (simp add: check_policy_def verify_args_of_def prepared_def policy_u32_text or_res_def)

lemma check_signature_created:
  assumes p: "prepared a inp public rid" and len: "length (pi_signed inp) = 80" "length sig = 64"
    and pem: "parse_pem pem = Inr (spki, public)"
  shows "check_signature pem (pi_signed inp @ sig) (pa_image a) =
    bind (verify public (pi_signed inp) sig) (\<lambda>ok.
      if \<not> ok then Inl (ValueError ''signature verification failed'') else Inr ())"
proof -
  have r: "length rid = 16" "any_nonzero rid" using p release_id_Inr by (auto simp: prepared_def)
  have "signed_part (pi_hardware inp) (pi_version inp) (pi_minimum inp) (pa_image a) rid (take 8 (sha256 public)) = Inr (pi_signed inp)"
    using p by (simp add: prepared_def)
  note SP = signed_part_Inr[OF this r(1), simplified]
  have sl: "slice (pi_signed inp @ sig) i j = slice (pi_signed inp) i j" if "j \<le> 80" "i \<le> j" for i j
    using len that by (simp add: slice_def)
  show ?thesis using p r SP len pem
    by (simp add: check_signature_def sl prepared_def SIGNED_BYTES_def)
qed

lemma created_package_verifies:
  assumes c: "create_package a = Some (Inr (pkg, md))" and pem: "parse_pem pem = Inr (spki, public)"
    and priv: "parse_private_pem (pa_private_key a) = Inr (d, public)"
  shows "(\<exists>report. verify_package (verify_args_of a pkg pem) = Inr report) \<longleftrightarrow>
    verify public (take 80 pkg) (slice pkg 80 144) = Inr True"
proof -
  obtain inp public' rid sig where p': "prepared a inp public' rid" and pkg: "pkg = sector_of (pi_signed inp @ sig) @ pa_image a"
    and len: "length (pi_signed inp) = 80" "length sig = 64" using create_package_Inr[OF c] by blast
  have "public' = public" using p' priv by (simp add: prepared_def)
  then have p: "prepared a inp public rid" using p' by simp
  have r: "length rid = 16" "length (take 8 (sha256 public)) = 8" using p release_id_Inr by (auto simp: prepared_def)
  have "signed_part (pi_hardware inp) (pi_version inp) (pi_minimum inp) (pa_image a) rid (take 8 (sha256 public)) = Inr (pi_signed inp)"
    using p by (simp add: prepared_def)
  note SP0 = signed_part_Inr[OF this r]
  have U: "unpack_fields [4, 4, 4, 4] (drop 8 (pi_signed inp) @ rest) = [pi_hardware inp, pi_version inp, pi_minimum inp, int (length (pa_image a))]" for rest
    using SP0[of rest] by blast
  note SP = SP0[simplified]
  note S = sector_slices(2-4)[OF len, of "pa_image a", folded pkg]
  let ?sp = "pi_signed inp"
  have tk: "take 80 pkg = ?sp" "slice pkg 80 144 = sig"
    using len by (simp_all add: pkg sector_of_def slice_def SECTOR_BYTES_def)
  have "drop 8 (?sp @ sig) = drop 8 ?sp @ sig" using len by simp
  then have "unpack_fields [4, 4, 4, 4] (drop 8 (?sp @ sig)) = [pi_hardware inp, pi_version inp, pi_minimum inp, int (length (pa_image a))]"
    using U[of sig] by metis
  then have u: "manifest_fields (?sp @ sig) = Inr (pi_hardware inp, pi_version inp, pi_minimum inp, int (length (pa_image a)))"
    by (simp add: manifest_fields_def del: unpack_fields.simps)
  have l: "length pkg = 4096 + length (pa_image a)" using sector_slices(1)[OF len] by (simp add: pkg)
  have hd: "take 4 (?sp @ sig) = MAGIC" "(?sp @ sig) ! 4 = byte_of FORMAT_VERSION"
    "(?sp @ sig) ! 5 = byte_of TARGET_AUDIO" "slice (?sp @ sig) 6 8 = [0, 0]"
    using SP[of "[]"] len by (simp_all add: nth_append slice_def)
  have slot: "pi_slot inp = upper (pa_slot a)" using p unfolding prepared_def by blast
  have region: "layout_region (pa_layout a) (upper (pa_slot a)) = Inr (pi_region inp)"
    using p unfolding prepared_def slot by blast
  have img: "pa_image a \<noteq> []" "int (length (pa_image a)) \<le> rg_capacity (pi_region inp)"
    using p unfolding prepared_def by blast+
  have "verify_package (verify_args_of a pkg pem) =
      bind (check_signature pem (?sp @ sig) (pa_image a)) (\<lambda>_.
        Inr (verify_report (upper (pa_slot a)) pkg (?sp @ sig) (pi_hardware inp) (pi_version inp) (int (length (pa_image a)))))"
    unfolding verify_package_def Let_def MANIFEST_BYTES_def SECTOR_BYTES_def
    using region img l by (simp add: verify_args_of_def S hd u check_policy_prepared[OF p, unfolded verify_args_of_def]
        list_ex_iff del: take_append drop_append)
  then show ?thesis
    unfolding tk check_signature_created[OF p len pem] by (auto simp: bind_eq_Inr split: if_splits)
qed


text \<open>C16 (functional). What is packed is what is verified.  Let a package have been created, and let the public key
  read from a PEM text be that of the private key it was signed with.  Then verifying the package under the
  layout, slot and policy it was created with passes every check of the manifest, and its outcome is decided by the
  signature equation alone: it is accepted if and only if the signature at bytes 80 to 144 verifies over the first 80.\<close>

theorem created_package_accepted:
  "case (create_package a, parse_pem pem, parse_private_pem (pa_private_key a)) of
     (Some (Inr (pkg, _)), Inr (_, public), Inr (_, public')) \<Rightarrow>
       if public' = public
       then (\<exists>report. verify_package (verify_args_of a pkg pem) = Inr report) =
            (verify public (take 80 pkg) (slice pkg 80 144) = Inr True)
       else True
   | _ \<Rightarrow> True"
proof -
  have "(\<exists>report. verify_package (verify_args_of a pkg pem) = Inr report) = (verify public (take 80 pkg) (slice pkg 80 144) = Inr True)"
    if "create_package a = Some (Inr (pkg, md))" "parse_pem pem = Inr (spki, public)" "parse_private_pem (pa_private_key a) = Inr (d, public)"
    for pkg md spki public d
    using that by (rule created_package_verifies)
  note accept = this
  show ?thesis
  proof (cases "\<exists>pkg md spki public d. create_package a = Some (Inr (pkg, md)) \<and> parse_pem pem = Inr (spki, public) \<and>
      parse_private_pem (pa_private_key a) = Inr (d, public)")
    case True
    then obtain pkg md spki public d where t: "create_package a = Some (Inr (pkg, md))" "parse_pem pem = Inr (spki, public)"
      "parse_private_pem (pa_private_key a) = Inr (d, public)" by blast
    then show ?thesis using accept[OF t] by simp
  qed (auto split: option.split sum.split prod.split)
qed

text \<open>C18 (bounds). Every signature the tool makes is canonical: 64 bytes, both halves between 1 and the group order,
  the second in its lower half.\<close>

theorem signature_canonical:
  "case sign d data of
     Some (Inr sig) \<Rightarrow> length sig = 64 \<and> 1 \<le> be_int (take 32 sig) \<and> be_int (take 32 sig) < curve_n \<and>
       1 \<le> be_int (drop 32 sig) \<and> be_int (drop 32 sig) \<le> curve_n div 2
   | _ \<Rightarrow> True"
  using sign_range[of d data] by (auto split: option.splits sum.splits)

text \<open>C17 (type). The keys the tool works with are well formed: a private key read from PEM is a scalar in the
  group's range whose public point lies on the curve, and so does every public key read from PEM.\<close>

theorem keys_on_curve:
  "(case parse_private_pem text of
      Inr (d, public) \<Rightarrow> 1 \<le> d \<and> d < curve_n \<and> public_of d = Inr public \<and> valid_public public
    | Inl _ \<Rightarrow> True) \<and>
   (case parse_pem pem of Inr (_, public) \<Rightarrow> valid_public public | Inl _ \<Rightarrow> True)"
  using parse_private_pem_Inr[of "text"] public_of_valid parse_pem_valid[of pem] by (auto split: sum.splits)

end
