(* ===== verification/Flash_Layout.thy ===== *)
theory Flash_Layout
  imports Py_Json Py_Text
begin

text \<open>
  \<^verbatim>\<open>tools/validate_rt595_flash_layout.py\<close>: the checks of a flash partition table (\<^verbatim>\<open>validate_layout\<close>)
  and of a linker map against it (\<^verbatim>\<open>validate_map\<close>).  The table is the value \<^verbatim>\<open>json.loads\<close> returned,
  the map is its text.  \<open>show\<close> and \<open>repr\<close> stand for Python's \<^verbatim>\<open>str\<close> and \<^verbatim>\<open>repr\<close> of a value.
\<close>

section \<open>The table\<close>

fun number :: "pyval \<Rightarrow> int result" where
  "number (PInt n) = Inr n"
| "number (PBool b) = Inr (if b then 1 else 0)"
| "number (PStr s) = parse_int_base 0 s"
| "number _ = Inl (ValueError ''not an integer'')"

record part =
  pt_start :: int
  pt_end :: int
  pt_name :: pyval
  pt_raw :: pyval

definition hex08 :: "int \<Rightarrow> string" where
  "hex08 n = hex_padded 8 n"

text \<open>\<^verbatim>\<open>length <= 0 or start % erase or length % erase\<close>.\<close>

definition misaligned :: "int \<Rightarrow> int \<Rightarrow> int \<Rightarrow> bool result" where
  "misaligned start len erase =
     (if len \<le> 0 then Inr True
      else if erase = 0 then Inl ZeroDivisionError
      else Inr (start mod erase \<noteq> 0 \<or> len mod erase \<noteq> 0))"

definition read_part :: "(pyval \<Rightarrow> string) \<Rightarrow> int \<Rightarrow> int \<Rightarrow> int \<Rightarrow> pyval \<Rightarrow> string list \<times> pyval list \<times> part list \<Rightarrow>
    (string list \<times> pyval list \<times> part list) result" where
  "read_part show base stop erase raw = (\<lambda>(errors, names, parts).
     bind (getitem raw ''name'') (\<lambda>name.
     bind (bind (getitem raw ''base'') number) (\<lambda>start.
     bind (bind (getitem raw ''size'') number) (\<lambda>len.
     if \<not> hashable name then Inl TypeError
     else bind (misaligned start len erase) (\<lambda>bad.
       let label = py_str show name;
           dup = (if mem_eq name names then [''duplicate partition '' @ label] else []);
           align = (if bad then [label @ '': not erase aligned''] else []);
           outside = (if start < base \<or> stop < start \<or> stop - start < len then [label @ '': outside flash''] else [])
       in Inr (errors @ dup @ align @ outside, set_add name names,
            parts @ [\<lparr>pt_start = start, pt_end = start + len, pt_name = name, pt_raw = raw\<rparr>]))))))"

text \<open>\<^verbatim>\<open>parts.sort()\<close> compares the tuples \<^verbatim>\<open>(start, end, name, raw)\<close>: two entries that agree on their range
  are compared by name, and if the names agree too, by the dictionaries, which raises unless they are
  equal.  A sort compares neighbours of the sorted order, so it raises exactly if some two entries of a
  range cannot be compared.\<close>

definition comparable :: "part \<Rightarrow> part \<Rightarrow> bool" where
  "comparable p q \<longleftrightarrow> pt_start p \<noteq> pt_start q \<or> pt_end p \<noteq> pt_end q \<or>
     (if py_eq (pt_name p) (pt_name q) then py_eq (pt_raw p) (pt_raw q)
      else (case py_less (pt_name p) (pt_name q) of Inr _ \<Rightarrow> True | Inl _ \<Rightarrow> False))"

definition part_less :: "part \<Rightarrow> part \<Rightarrow> bool" where
  "part_less p q \<longleftrightarrow> pt_start p < pt_start q \<or> pt_start p = pt_start q \<and>
     (pt_end p < pt_end q \<or> pt_end p = pt_end q \<and> py_less (pt_name p) (pt_name q) = Inr True)"

fun all_pairs :: "('a \<Rightarrow> 'a \<Rightarrow> bool) \<Rightarrow> 'a list \<Rightarrow> bool" where
  "all_pairs R [] = True"
| "all_pairs R (x # xs) = (list_all (R x) xs \<and> all_pairs R xs)"

definition sort_parts :: "part list \<Rightarrow> part list result" where
  "sort_parts ps = (if all_pairs comparable ps then Inr (py_sorted part_less ps) else Inl TypeError)"

fun neighbour_errors :: "(pyval \<Rightarrow> string) \<Rightarrow> part list \<Rightarrow> string list" where
  "neighbour_errors show (l # r # ps) =
     (if pt_start r < pt_end l
      then [''overlap: '' @ py_str show (pt_name l) @ '' and '' @ py_str show (pt_name r)] else []) @
     (if pt_end l < pt_start r
      then [''unassigned gap: '' @ hex08 (pt_end l) @ ''..'' @ hex08 (pt_start r)] else []) @
     neighbour_errors show (r # ps)"
| "neighbour_errors show _ = []"

definition role_is :: "string \<Rightarrow> part \<Rightarrow> bool result" where
  "role_is role p = bind (getitem (pt_raw p) ''role'') (\<lambda>r. Inr (r = PStr role))"

definition slot_role_is :: "string \<Rightarrow> string \<Rightarrow> part \<Rightarrow> bool result" where
  "slot_role_is slot role p =
     and_res (bind (get_default (pt_raw p) ''slot'' PNone) (\<lambda>s. Inr (s = PStr slot))) (role_is role p)"

definition writable :: "part \<Rightarrow> bool result" where
  "writable p = bind (get_default (pt_raw p) ''writable_by_application'' PNone) (Inr \<circ> py_truth)"

definition slot_report :: "part list \<Rightarrow> string \<Rightarrow> report" where
  "slot_report parts slot =
     bind (filter_res (slot_role_is slot ''signed_manifest_commit'') parts) (\<lambda>manifests.
     bind (filter_res (slot_role_is slot ''candidate_image'') parts) (\<lambda>images.
       let apart = length manifests \<noteq> 1 \<or> length images \<noteq> 1 \<or>
             manifests \<noteq> [] \<and> images \<noteq> [] \<and> pt_end (hd manifests) \<noteq> pt_start (hd images)
       in all_of [Inr (if apart then [''slot '' @ slot @ '': requires adjacent manifest then image''] else []),
            say (and_res (Inr (manifests \<noteq> [])) (not_res (writable (hd manifests))))
              (''slot '' @ slot @ '': manifest commit must be writable by authenticated stager'')]))"

definition capacity_report :: "part list \<Rightarrow> report" where
  "capacity_report parts =
     bind (filter_res (role_is ''candidate_image'') parts) (\<lambda>images.
       Inr (case images of
              [p, q] \<Rightarrow> if pt_end p - pt_start p \<noteq> pt_end q - pt_start q
                       then [''candidate image slots must have equal capacity''] else []
            | _ \<Rightarrow> [''candidate image slots must have equal capacity'']))"

definition pair_report :: "part list \<Rightarrow> string \<Rightarrow> string \<Rightarrow> report" where
  "pair_report parts role msg = bind (filter_res (role_is role) parts) (\<lambda>ps. Inr (if length ps \<noteq> 2 then [msg] else []))"

definition linked_report :: "pyval \<Rightarrow> pyval list \<Rightarrow> part list \<Rightarrow> report" where
  "linked_report doc names parts =
     bind (get_default doc ''linked_image_partition'' PNone) (\<lambda>linked.
       if \<not> hashable linked then Inl TypeError
       else if \<not> mem_eq linked names then Inr [''linked_image_partition is missing'']
       else case List.find (\<lambda>p. py_eq (pt_name p) linked) parts of
              None \<Rightarrow> Inr []
            | Some p \<Rightarrow> say (writable p) ''linked XIP partition must not be application-writable'')"

definition range_errors :: "int \<Rightarrow> int \<Rightarrow> int \<Rightarrow> string list" where
  "range_errors base len erase =
     (if len \<le> 0 \<or> erase \<le> 0 \<or> 0xFFFFFFFF - len < base then [''invalid flash range''] else [])"

definition cover_errors :: "int \<Rightarrow> int \<Rightarrow> part list \<Rightarrow> string list" where
  "cover_errors base stop parts =
     (if parts \<noteq> [] \<and> (pt_start (hd parts) \<noteq> base \<or> pt_end (last parts) \<noteq> stop)
      then [''partitions do not cover flash exactly''] else [])"

definition validate_layout :: "(pyval \<Rightarrow> string) \<Rightarrow> pyval \<Rightarrow> (string list \<times> part list) result" where
  "validate_layout show doc =
     bind (bind (getitem doc ''flash_base'') number) (\<lambda>base.
     bind (bind (getitem doc ''flash_size'') number) (\<lambda>len.
     bind (bind (getitem doc ''erase_bytes'') number) (\<lambda>erase.
       let stop = base + len
       in bind (bind (getitem doc ''partitions'') py_iter) (\<lambda>raws.
          bind (fold_res (read_part show base stop erase) raws (range_errors base len erase, [], [])) (\<lambda>(errors, names, unsorted).
          bind (sort_parts unsorted) (\<lambda>parts.
          bind (all_of
            [Inr errors, Inr (neighbour_errors show parts),
             Inr (cover_errors base stop parts), slot_report parts ''A'', slot_report parts ''B'', capacity_report parts,
             pair_report parts ''configuration_record'' ''requires two configuration sectors'',
             pair_report parts ''boot_state_record'' ''requires two boot-state sectors'',
             linked_report doc names parts]) (\<lambda>es. Inr (es, parts))))))))"

section \<open>The linker map\<close>

fun is_line_break :: "char \<Rightarrow> bool" where
  "is_line_break c = (let n = (of_char c :: nat) in 10 \<le> n \<and> n \<le> 13 \<or> 28 \<le> n \<and> n \<le> 30 \<or> n = 133)"

text \<open>\<^verbatim>\<open>text.splitlines()\<close>.\<close>

fun split_lines_acc :: "string \<Rightarrow> string \<Rightarrow> string list" where
  "split_lines_acc acc [] = (if acc = [] then [] else [acc])"
| "split_lines_acc acc (c # cs) =
     (if c = CHR 0x0D \<and> cs \<noteq> [] \<and> hd cs = CHR 0x0A then acc # split_lines_acc [] (List.tl cs)
      else if is_line_break c then acc # split_lines_acc [] cs
      else split_lines_acc (acc @ [c]) cs)"

definition split_lines :: "string \<Rightarrow> string list" where
  "split_lines s = split_lines_acc [] s"

definition hex_value :: "string \<Rightarrow> int" where
  "hex_value s = foldl (\<lambda>n c. n * 16 + int (radix_digit c)) 0 s"

text \<open>\<^verbatim>\<open>\s+0x([0-9a-fA-F]+)\<close> at the head of a text, with a literal in between.\<close>

definition hex_field :: "string \<Rightarrow> string \<Rightarrow> (int \<times> string) option" where
  "hex_field label s =
     (let t = dropWhile is_space s; u = drop (length label) t; digits = takeWhile is_hex u
      in if s = [] \<or> \<not> is_space (hd s) \<or> \<not> starts_with t label \<or> digits = [] then None
         else Some (hex_value digits, drop (length digits) u))"

record section_line =
  sl_name :: string
  sl_vma :: int
  sl_length :: int
  sl_load :: "int option"

text \<open>\<^verbatim>\<open>SECTION.match(line)\<close>: a dot, a run of non-blank characters, the address, the length and
  perhaps a load address.\<close>

definition match_section :: "string \<Rightarrow> section_line option" where
  "match_section line =
     (case line of
        [] \<Rightarrow> None
      | c # cs \<Rightarrow> (let name = takeWhile (\<lambda>x. \<not> is_space x) cs
          in if c \<noteq> CHR ''.'' \<or> name = [] then None
             else case hex_field ''0x'' (drop (length name) cs) of
                None \<Rightarrow> None
              | Some (vma, rest) \<Rightarrow> (case hex_field ''0x'' rest of
                    None \<Rightarrow> None
                  | Some (len, rest') \<Rightarrow> Some \<lparr>sl_name = name, sl_vma = vma, sl_length = len,
                      sl_load = map_option fst (hex_field ''load address 0x'' rest')\<rparr>)))"

definition NOBITS_PREFIXES :: "string list" where
  "NOBITS_PREFIXES = [''bss'', ''heap'', ''stack'', ''noinit'', ''uninit'', ''tbss'']"

text \<open>The lines whose sections occupy flash.\<close>

definition occupying :: "string \<Rightarrow> section_line list" where
  "occupying text = filter (\<lambda>s. sl_length s \<noteq> 0 \<and> \<not> list_ex (starts_with (lower (sl_name s))) NOBITS_PREFIXES)
     (List.map_filter match_section (split_lines text))"

definition addresses :: "section_line \<Rightarrow> (int \<times> string) list" where
  "addresses s = [(sl_vma s, ''VMA''), (case sl_load s of None \<Rightarrow> sl_vma s | Some a \<Rightarrow> a, ''load'')]"

definition hex_plain :: "int \<Rightarrow> string" where
  "hex_plain n = ''0x'' @ hex_nat (nat n)"

definition escape_error :: "(pyval \<Rightarrow> string) \<Rightarrow> part \<Rightarrow> section_line \<Rightarrow> int \<times> string \<Rightarrow> string list" where
  "escape_error show target s = (\<lambda>(address, label).
     if address < pt_start target \<or> pt_end target - address < sl_length s
     then [''section .'' @ sl_name s @ '' '' @ label @ '' '' @ hex08 address @ ''+'' @ hex_plain (sl_length s) @
           '' escapes '' @ py_str show (pt_name target)] else [])"

definition resident :: "int \<Rightarrow> int \<Rightarrow> string \<Rightarrow> (section_line \<times> int \<times> string) list" where
  "resident flash stop text =
     concat (map (\<lambda>s. map (Pair s) (filter (\<lambda>(a, _). flash \<le> a \<and> a < stop) (addresses s))) (occupying text))"

definition map_errors :: "(pyval \<Rightarrow> string) \<Rightarrow> part \<Rightarrow> (section_line \<times> int \<times> string) list \<Rightarrow> string list" where
  "map_errors show target found = concat (map (\<lambda>(s, a). escape_error show target s a) found) @
     (if found = [] then [''map contains no recognized flash-resident output sections''] else [])"

definition map_verdict :: "(pyval \<Rightarrow> string) \<Rightarrow> (pyval \<Rightarrow> string) \<Rightarrow> pyval \<Rightarrow> part list \<Rightarrow>
    (section_line \<times> int \<times> string) list \<Rightarrow> report" where
  "map_verdict show repr target_name matches found =
     (case matches of
        [target] \<Rightarrow> Inr (map_errors show target found)
      | _ \<Rightarrow> Inr [''linked partition '' @ repr target_name @ '' is missing''])"

definition validate_map :: "(pyval \<Rightarrow> string) \<Rightarrow> (pyval \<Rightarrow> string) \<Rightarrow> string \<Rightarrow> pyval \<Rightarrow> part list \<Rightarrow> string option \<Rightarrow> report" where
  "validate_map show repr text doc parts linked =
     bind (bind (getitem doc ''flash_base'') number) (\<lambda>flash.
     bind (bind (getitem doc ''flash_size'') number) (\<lambda>len.
     bind (case linked of
             Some n \<Rightarrow> if n \<noteq> [] then Inr (PStr n) else getitem doc ''linked_image_partition''
           | None \<Rightarrow> getitem doc ''linked_image_partition'') (\<lambda>target_name.
       map_verdict show repr target_name (filter (\<lambda>p. py_eq (pt_name p) target_name) parts)
         (resident flash (flash + len) text))))"

section \<open>What an accepted table guarantees\<close>

definition good_part :: "int \<Rightarrow> int \<Rightarrow> int \<Rightarrow> part \<Rightarrow> bool" where
  "good_part base stop erase p \<longleftrightarrow> pt_start p < pt_end p \<and> erase \<noteq> 0 \<and> erase dvd pt_start p \<and>
     erase dvd pt_end p - pt_start p \<and> base \<le> pt_start p \<and> pt_end p \<le> stop"

lemma misaligned_False:
  "misaligned s l e = Inr False \<longleftrightarrow> 0 < l \<and> e \<noteq> 0 \<and> e dvd s \<and> e dvd l"
  by (auto simp: misaligned_def dvd_eq_mod_eq_0)

lemma read_part_silent:
  assumes "read_part show base stop erase raw (es, names, ps) = Inr ([], names', ps')"
  shows "es = [] \<and> (\<exists>p. ps' = ps @ [p] \<and> good_part base stop erase p)"
  using assms
  by (auto simp: read_part_def bind_eq_Inr Let_def good_part_def misaligned_False split: if_splits)

lemma read_parts_silent:
  assumes "fold_res (read_part show base stop erase) raws (es, names, ps) = Inr ([], names', ps')"
    "\<forall>p \<in> set ps. good_part base stop erase p"
  shows "es = [] \<and> (\<forall>p \<in> set ps'. good_part base stop erase p)"
  using assms
proof (induction raws arbitrary: es names ps)
  case (Cons raw raws)
  from Cons.prems(1) obtain s where s: "read_part show base stop erase raw (es, names, ps) = Inr s"
    "fold_res (read_part show base stop erase) raws s = Inr ([], names', ps')"
    by (auto simp: bind_eq_Inr)
  obtain es1 names1 ps1 where s1: "s = (es1, names1, ps1)" by (cases s)
  have "es1 = []"
  proof (rule ccontr)
    have keep: "fst t' \<noteq> []" if "fst t \<noteq> []" "read_part show base stop erase x t = Inr t'" for x t t'
      using that by (auto simp: read_part_def bind_eq_Inr Let_def split: if_splits prod.splits)
    assume "es1 \<noteq> []"
    then have "fst ([] :: string list, names', ps') \<noteq> []"
      using fold_res_invariant[OF s(2), of "\<lambda>t. fst t \<noteq> []"] keep s1 by auto
    then show False by simp
  qed
  with s s1 have r: "read_part show base stop erase raw (es, names, ps) = Inr ([], names1, ps1)" by simp
  note R = read_part_silent[OF r]
  then have "\<forall>p \<in> set ps1. good_part base stop erase p" using Cons.prems(2) by auto
  then show ?case using Cons.IH s(2) s1 \<open>es1 = []\<close> R by blast
qed simp

fun contiguous :: "int \<Rightarrow> part list \<Rightarrow> int \<Rightarrow> bool" where
  "contiguous a [] b = (a = b)"
| "contiguous a (p # ps) b = (pt_start p = a \<and> contiguous (pt_end p) ps b)"

lemma neighbour_errors_silent:
  "neighbour_errors show ps = [] \<Longrightarrow> ps \<noteq> [] \<Longrightarrow> contiguous (pt_start (hd ps)) ps (pt_end (last ps))"
  by (induction "show" ps rule: neighbour_errors.induct) (auto split: if_splits)

lemma contiguous_order:
  "contiguous a ps b \<Longrightarrow> \<forall>p \<in> set ps. pt_start p < pt_end p \<Longrightarrow> a \<le> b \<and> (\<forall>p \<in> set ps. a \<le> pt_start p \<and> pt_end p \<le> b)"
  by (induction a ps b rule: contiguous.induct) fastforce+

definition inside :: "int \<Rightarrow> part \<Rightarrow> bool" where
  "inside x p \<longleftrightarrow> pt_start p \<le> x \<and> x < pt_end p"

lemma contiguous_cover:
  assumes "contiguous a ps b" "\<forall>p \<in> set ps. pt_start p < pt_end p" "a \<le> x" "x < b"
  shows "\<exists>!i. i < length ps \<and> inside x (ps ! i)"
  using assms
proof (induction a ps b rule: contiguous.induct)
  case (2 a p ps b)
  note rest = contiguous_order[of "pt_end p" ps b]
  show ?case
  proof (cases "x < pt_end p")
    case True
    have later: "pt_end p \<le> pt_start q" if "q \<in> set ps" for q
      using rest 2(2,3) that by simp
    have "\<not> inside x (ps ! i)" if "i < length ps" for i
      using later[OF nth_mem[OF that]] True by (simp add: inside_def)
    then have "i = 0" if "i < length (p # ps)" "inside x ((p # ps) ! i)" for i
      using that by (cases i) auto
    moreover have "inside x p" using True 2(2,4) by (simp add: inside_def)
    ultimately show ?thesis by (intro ex1I[of _ 0]) auto
  next
    case False
    then obtain i where i: "i < length ps" "inside x (ps ! i)"
      and u: "\<And>j. j < length ps \<Longrightarrow> inside x (ps ! j) \<Longrightarrow> j = i"
      using 2 by (auto elim!: ex1E)
    have "j = Suc i" if "j < length (p # ps)" "inside x ((p # ps) ! j)" for j
      using that False u by (cases j) (auto simp: inside_def)
    then show ?thesis using i by (intro ex1I[of _ "Suc i"]) auto
  qed
qed simp

definition plays :: "string \<Rightarrow> string \<Rightarrow> part \<Rightarrow> bool" where
  "plays slot role p \<longleftrightarrow> slot_role_is slot role p = Inr True"

lemma slot_report_silent:
  assumes "slot_report parts slot = Inr []"
  shows "\<exists>m i. filter (plays slot ''signed_manifest_commit'') parts = [m] \<and>
    filter (plays slot ''candidate_image'') parts = [i] \<and> pt_end m = pt_start i \<and> writable m = Inr True"
proof -
  obtain ms ims where f: "filter_res (slot_role_is slot ''signed_manifest_commit'') parts = Inr ms"
    "filter_res (slot_role_is slot ''candidate_image'') parts = Inr ims"
    and r: "length ms = 1" "length ims = 1" "pt_end (hd ms) = pt_start (hd ims)" "writable (hd ms) = Inr True"
    using assms by (auto simp: slot_report_def bind_eq_Inr Let_def and_res_False split: if_splits)
  obtain m where m: "ms = [m]" using r(1) by (auto simp: length_Suc_conv)
  obtain i where i: "ims = [i]" using r(2) by (auto simp: length_Suc_conv)
  have "filter (plays slot ''signed_manifest_commit'') parts = [m]" "filter (plays slot ''candidate_image'') parts = [i]"
    using f[THEN filter_res_Inr] m i by (simp_all add: plays_def[abs_def])
  then show ?thesis using r(3,4) m i by auto
qed

lemma capacity_report_silent:
  assumes "capacity_report parts = Inr []"
  shows "\<exists>p q. filter (\<lambda>p. role_is ''candidate_image'' p = Inr True) parts = [p, q] \<and>
    pt_end p - pt_start p = pt_end q - pt_start q"
proof -
  obtain ims where f: "filter_res (role_is ''candidate_image'') parts = Inr ims"
    using assms by (auto simp: capacity_report_def bind_eq_Inr)
  have "case ims of [p, q] \<Rightarrow> pt_end p - pt_start p = pt_end q - pt_start q | _ \<Rightarrow> False"
    using assms f by (auto simp: capacity_report_def split: list.splits if_splits)
  then obtain p q where "ims = [p, q]" "pt_end p - pt_start p = pt_end q - pt_start q"
    by (auto split: list.splits)
  then show ?thesis using filter_res_Inr[OF f] by auto
qed

text \<open>The table is read once, so its facts are stated of the two numbers it gives.\<close>

definition flash_range :: "pyval \<Rightarrow> (int \<times> int) result" where
  "flash_range doc = bind (bind (getitem doc ''flash_base'') number) (\<lambda>base.
     bind (bind (getitem doc ''flash_size'') number) (\<lambda>len. Inr (base, base + len)))"

lemma validate_layout_silent:
  assumes "validate_layout show doc = Inr ([], parts)" "flash_range doc = Inr (base, stop)"
  obtains erase where "0 < erase" "base < stop" "stop \<le> 0xFFFFFFFF" "contiguous base parts stop"
    "\<forall>p \<in> set parts. good_part base stop erase p"
    "slot_report parts ''A'' = Inr []" "slot_report parts ''B'' = Inr []" "capacity_report parts = Inr []"
proof -
  obtain len erase raws errors names unsorted where
    l: "stop = base + len" and
    f: "fold_res (read_part show base (base + len) erase) raws
          (range_errors base len erase, [], []) =
        Inr (errors, names, unsorted)" and
    so: "sort_parts unsorted = Inr parts" and e: "errors = []" and
    n: "neighbour_errors show parts = []" and
    c: "cover_errors base (base + len) parts = []" and
    r: "slot_report parts ''A'' = Inr []" "slot_report parts ''B'' = Inr []" "capacity_report parts = Inr []"
    using assms by (auto simp: validate_layout_def flash_range_def bind_eq_Inr Let_def simp del: all_of.simps)
  note R = read_parts_silent[OF f[unfolded e]]
  have u: "set unsorted = set parts" using so by (auto simp: sort_parts_def set_py_sorted split: if_splits)
  have g: "\<forall>p \<in> set parts. good_part base stop erase p" using R u l by auto
  have rng: "0 < len" "0 < erase" "base + len \<le> 0xFFFFFFFF" using R by (auto simp: range_errors_def split: if_splits)
  have "parts \<noteq> []" using slot_report_silent[OF r(1)] by auto
  then have "contiguous base parts stop" using neighbour_errors_silent[OF n] c l by (auto simp: cover_errors_def split: if_splits)
  then show ?thesis using that rng g r l by simp
qed

text \<open>A table with the two slots, the two configuration and boot-state sectors and a boot partition.\<close>

definition table_entry :: "string \<Rightarrow> int \<Rightarrow> int \<Rightarrow> string \<Rightarrow> (string \<times> pyval) list \<Rightarrow> pyval" where
  "table_entry name base len role extra =
     PDict ([(''name'', PStr name), (''base'', PInt base), (''size'', PInt len), (''role'', PStr role)] @ extra)"

definition sample_table :: pyval where
  "sample_table = PDict [(''flash_base'', PInt 0), (''flash_size'', PInt 0x9000), (''erase_bytes'', PInt 4096),
     (''linked_image_partition'', PStr ''boot''),
     (''partitions'', PList
        [table_entry ''boot'' 0x0 0x1000 ''bootloader'' [],
         table_entry ''cfg0'' 0x1000 0x1000 ''configuration_record'' [],
         table_entry ''cfg1'' 0x2000 0x1000 ''configuration_record'' [],
         table_entry ''state0'' 0x3000 0x1000 ''boot_state_record'' [],
         table_entry ''state1'' 0x4000 0x1000 ''boot_state_record'' [],
         table_entry ''slot_a_manifest'' 0x5000 0x1000 ''signed_manifest_commit''
           [(''slot'', PStr ''A''), (''writable_by_application'', PBool True)],
         table_entry ''slot_a_image'' 0x6000 0x1000 ''candidate_image'' [(''slot'', PStr ''A'')],
         table_entry ''slot_b_manifest'' 0x7000 0x1000 ''signed_manifest_commit''
           [(''slot'', PStr ''B''), (''writable_by_application'', PBool True)],
         table_entry ''slot_b_image'' 0x8000 0x1000 ''candidate_image'' [(''slot'', PStr ''B'')]])]"

definition sample_parts :: "part list" where
  "sample_parts = (case validate_layout no_show sample_table of Inr (_, parts) \<Rightarrow> parts | _ \<Rightarrow> [])"

lemma sample_table_accepted: "validate_layout no_show sample_table = Inr ([], sample_parts)"
  unfolding sample_parts_def by (simp add: validate_layout_def sample_table_def table_entry_def read_part_def misaligned_def
    sort_parts_def comparable_def part_less_def py_sorted_def slot_report_def filter_res_def slot_role_is_def role_is_def
    writable_def capacity_report_def pair_report_def linked_report_def range_errors_def cover_errors_def mem_eq_def
    set_add_def no_show_def py_str_def Let_def and_res_def not_res_def say_def)

lemma sample_table_range: "flash_range sample_table = Inr (0, 36864)"
  by (simp add: flash_range_def sample_table_def)

section \<open>Properties\<close>



text \<open>In an accepted table each of the slots A and B has one manifest sector, which the
  stager may write, directly followed by one image region; both start on erase boundaries, and the two
  image regions have the same capacity.\<close>

theorem layout_slots_adjacent:
  assumes "validate_layout show doc = Inr ([], parts)" "flash_range doc = Inr (base, stop)" "slot \<in> {''A'', ''B''}"
  shows "\<exists>m i. filter (plays slot ''signed_manifest_commit'') parts = [m] \<and>
    filter (plays slot ''candidate_image'') parts = [i] \<and> pt_end m = pt_start i \<and> writable m = Inr True \<and>
    (\<exists>erase > 0. erase dvd pt_start m \<and> erase dvd pt_start i \<and> erase dvd pt_end i - pt_start i) \<and>
    (\<exists>p q. filter (\<lambda>p. role_is ''candidate_image'' p = Inr True) parts = [p, q] \<and>
      pt_end p - pt_start p = pt_end q - pt_start q)"
proof -
  obtain erase where v: "0 < erase" "\<forall>p \<in> set parts. good_part base stop erase p"
    "slot_report parts ''A'' = Inr []" "slot_report parts ''B'' = Inr []" "capacity_report parts = Inr []"
    using validate_layout_silent[OF assms(1,2)] by metis
  then obtain m i where mi: "filter (plays slot ''signed_manifest_commit'') parts = [m]"
    "filter (plays slot ''candidate_image'') parts = [i]" "pt_end m = pt_start i" "writable m = Inr True"
    using slot_report_silent[of parts slot] assms(3) by auto
  have "m \<in> set parts" "i \<in> set parts" using mi(1,2) by (auto dest: filter_eq_ConsD)
  with v(1,2) have "\<exists>erase > 0. erase dvd pt_start m \<and> erase dvd pt_start i \<and> erase dvd pt_end i - pt_start i"
    by (auto simp: good_part_def)
  with mi capacity_report_silent[OF v(5)] show ?thesis by blast
qed

theorem layout_slots_adjacent_witness:
  "\<exists>m i. filter (plays ''A'' ''signed_manifest_commit'') sample_parts = [m] \<and>
    filter (plays ''A'' ''candidate_image'') sample_parts = [i] \<and> pt_end m = pt_start i"
  using layout_slots_adjacent[OF sample_table_accepted sample_table_range, of "''A''"] by auto


definition sample_map :: string where
  "sample_map = ''.text 0x100 0x20'' @ [CHR 0x0A] @ '' x'' @ [CHR 0x0A] @ ''.bss 0x7000 0x10 load address 0x200''"

definition boot_part :: part where
  "boot_part = \<lparr>pt_start = 0, pt_end = 4096, pt_name = PStr ''boot'', pt_raw = PNone\<rparr>"

lemma sample_map_sections:
  "occupying sample_map = [\<lparr>sl_name = ''text'', sl_vma = 256, sl_length = 32, sl_load = None\<rparr>]"
  by (simp add: occupying_def sample_map_def split_lines_def is_space_def match_section_def hex_field_def starts_with_def
    is_hex_def hex_value_def radix_digit_def List.map_filter_def NOBITS_PREFIXES_def lower_def lower_char_def Let_def)

lemma sample_map_accepted: "validate_map no_show no_show sample_map sample_table [boot_part] (Some ''boot'') = Inr []"
  by (simp add: validate_map_def sample_table_def boot_part_def map_verdict_def resident_def sample_map_sections
    addresses_def map_errors_def escape_error_def)


end
