(* ===== verification/Capture_Csv.thy ===== *)
theory Capture_Csv
  imports Metrics Py_Json Py_Text
begin

text \<open>
  What the capture analyzers of \<^verbatim>\<open>tools/\<close> share: rows as \<^verbatim>\<open>csv.DictReader\<close> yields them, the choice
  of a column, time stamps with a unit, and the statistics of a list of floats.  A row maps a column to
  its cell, \<open>None\<close> where the line was too short.  \<open>fsum\<close> stands for the interpreter's \<^verbatim>\<open>sum\<close> of floats,
  whose rounding depends on the Python version.
\<close>

type_synonym csv_row = "(string \<times> string option) list"

text \<open>\<^verbatim>\<open>row.get(column, default)\<close>, and the text of a cell where the code calls a string method on it.\<close>

definition cell_or :: "string \<Rightarrow> csv_row \<Rightarrow> string \<Rightarrow> string option" where
  "cell_or dflt row column = (case map_of row column of None \<Rightarrow> Some dflt | Some c \<Rightarrow> c)"

definition cell_text :: "string \<Rightarrow> csv_row \<Rightarrow> string \<Rightarrow> string result" where
  "cell_text dflt row column = of_option AttributeError (cell_or dflt row column)"

definition cell_stripped :: "csv_row \<Rightarrow> string \<Rightarrow> string result" where
  "cell_stripped row column = bind (cell_text '''' row column) (Inr \<circ> strip)"

text \<open>\<^verbatim>\<open>row[column]\<close>, used as a text.\<close>

definition cell_item :: "csv_row \<Rightarrow> string \<Rightarrow> string result" where
  "cell_item row column =
     (case map_of row column of None \<Rightarrow> Inl (KeyError column) | Some c \<Rightarrow> of_option AttributeError c)"

definition first_present :: "string list \<Rightarrow> string list \<Rightarrow> string option" where
  "first_present fieldnames candidates = List.find (\<lambda>c. c \<in> set fieldnames) candidates"

text \<open>\<^verbatim>\<open>given or found\<close>.\<close>

definition column_or :: "string option \<Rightarrow> string option \<Rightarrow> string option" where
  "column_or given found = (case given of Some (c # cs) \<Rightarrow> Some (c # cs) | _ \<Rightarrow> found)"

section \<open>Time stamps\<close>

definition micro_s :: string where
  "micro_s = [CHR 0xB5, CHR ''s'']"

definition chop :: "nat \<Rightarrow> string \<Rightarrow> string" where
  "chop n s = take (length s - n) s"

text \<open>A time in microseconds: the unit suffix chooses the factor, a bare number has the factor
  \<open>bare\<close>.\<close>

definition time_us :: "pyfloat \<Rightarrow> string \<Rightarrow> pyfloat result" where
  "time_us bare value =
     (let text = strip value; lowered = lower text
      in if text = [] then Inl (ValueError ''empty timestamp'')
         else let (number, factor) =
             (if ends_with lowered ''us'' then (chop 2 lowered, Fin 1)
              else if ends_with lowered micro_s then (chop 2 lowered, Fin 1)
              else if ends_with lowered ''ms'' then (chop 2 lowered, Fin 1000)
              else if ends_with lowered ''s'' then (chop 1 lowered, Fin 1000000)
              else (lowered, bare))
           in bind (parse_float (strip number)) (\<lambda>x. Inr (fmul x factor)))"

section \<open>Statistics of floats\<close>

definition fmin_list :: "pyfloat list \<Rightarrow> pyfloat option" where
  "fmin_list xs = (case xs of [] \<Rightarrow> None | x # ys \<Rightarrow> Some (foldl (\<lambda>m y. if flt y m then y else m) x ys))"

definition fmax_list :: "pyfloat list \<Rightarrow> pyfloat option" where
  "fmax_list xs = (case xs of [] \<Rightarrow> None | x # ys \<Rightarrow> Some (foldl (\<lambda>m y. if flt m y then y else m) x ys))"

definition fmean :: "(pyfloat list \<Rightarrow> pyfloat) \<Rightarrow> pyfloat list \<Rightarrow> pyfloat option result" where
  "fmean fsum xs =
     (if xs = [] then Inr None
      else bind (float_of_int (int (length xs))) (\<lambda>n. bind (fdiv (fsum xs) n) (Inr \<circ> Some)))"

definition percentile_f :: "pyfloat list \<Rightarrow> pyfloat \<Rightarrow> pyfloat option result" where
  "percentile_f values p =
     (if values = [] then Inr None
      else let ordered = py_sorted flt values
        in bind (percentile_position (length ordered) p) (\<lambda>(index, low, high).
             if low = high then bind (py_index ordered low) (Inr \<circ> Some)
             else bind (float_of_int low) (\<lambda>lowf.
                  bind (py_index ordered low) (\<lambda>a.
                  bind (py_index ordered high) (\<lambda>b.
                    Inr (Some (interpolate a b (fsub index lowf))))))))"



section \<open>Bounds read off a maximum\<close>

lemma flt_not_NaN: "flt a b \<Longrightarrow> a \<noteq> NaN \<and> b \<noteq> NaN"
  by (cases a; cases b) auto

lemma flt_linear:
  assumes "flt l y" "\<not> flt x y" "x \<noteq> NaN"
  shows "flt l x"
  using assms flt_not_NaN[OF assms(1)] by (simp add: flt_less)

lemma flt_transitive:
  assumes "flt l x" "flt x y"
  shows "flt l y"
  using assms flt_not_NaN[OF assms(1)] flt_not_NaN[OF assms(2)] less_trans[of l x y] by (simp add: flt_less)

lemma fmax_fold_bound:
  "fle (foldl (\<lambda>m y. if flt m y then y else m) x ys) l \<Longrightarrow> \<forall>y \<in> set (x # ys). \<not> flt l y"
proof (induction ys arbitrary: x)
  case Nil
  then show ?case by (cases x; cases l) auto
next
  case (Cons y ys)
  let ?m = "if flt x y then y else x"
  have I: "\<forall>z \<in> set (?m # ys). \<not> flt l z" using Cons by simp
  have N: "x = NaN \<Longrightarrow> foldl (\<lambda>m y. if flt m y then y else m) NaN zs = NaN" for zs
    by (induction zs) auto
  have "x \<noteq> NaN" using Cons.prems N[of ys] by auto
  show ?case
  proof (cases "flt x y")
    case True
    then have "\<not> flt l y" "\<forall>z \<in> set ys. \<not> flt l z" using I by simp_all
    moreover have "\<not> flt l x" using flt_transitive[of l x y] True calculation(1) by blast
    ultimately show ?thesis by simp
  next
    case False
    then have "\<not> flt l x" "\<forall>z \<in> set ys. \<not> flt l z" using I by simp_all
    moreover have "\<not> flt l y" using flt_linear[of l y x] False \<open>x \<noteq> NaN\<close> calculation(1) by blast
    ultimately show ?thesis by simp
  qed
qed

lemma fmax_list_bound:
  assumes "fmax_list xs = Some m" "fle m l"
  shows "\<forall>y \<in> set xs. \<not> flt l y"
proof (cases xs)
  case (Cons x ys)
  have "fle (foldl (\<lambda>m y. if flt m y then y else m) x ys) l"
    using assms Cons unfolding fmax_list_def by (simp only: list.case option.inject)
  from fmax_fold_bound[OF this] show ?thesis unfolding Cons .
qed simp

lemma fmax_list_None [simp]: "fmax_list xs = None \<longleftrightarrow> xs = []"
  by (cases xs) (simp_all add: fmax_list_def)

section \<open>The two percentiles\<close>

lemma round64_binade:
  assumes "ilog2 x = -1" "0 < x"
  shows "round64 x = of_int (round_half_even (x * 2 ^ 53)) / 2 ^ 53"
  using assms by (simp add: round64_def quantum_def two_pow_def)

lemma p95_value: "p95 = Fin (4278419646001971 / 4503599627370496)"
proof -
  have "floorlog 2 19 = 5" "floorlog 2 20 = 5" by (simp_all add: compute_floorlog)
  moreover have "quotient_of (19 / 20) = (19, 20)" by code_simp
  ultimately have l: "ilog2 (19 / 20) = -1" by (simp add: ilog2_def two_pow_def)
  have "\<lfloor>19 / 20 * 2 ^ 53 :: rat\<rfloor> = 8556839292003942" by (rule floor_unique) simp_all
  then have "round_half_even (19 / 20 * 2 ^ 53) = 8556839292003942"
    unfolding round_half_even_def Let_def by simp
  then have "round64 (19 / 20) = 8556839292003942 / 2 ^ 53" using round64_binade[OF l] by simp
  then show ?thesis by (simp add: p95_def to_float_def)
qed

lemma p99_value: "p99 = Fin (4458563631096791 / 4503599627370496)"
proof -
  have "floorlog 2 99 = 7" "floorlog 2 100 = 7" by (simp_all add: compute_floorlog)
  moreover have "quotient_of (99 / 100) = (99, 100)" by code_simp
  ultimately have l: "ilog2 (99 / 100) = -1" by (simp add: ilog2_def two_pow_def)
  have "\<lfloor>99 / 100 * 2 ^ 53 :: rat\<rfloor> = 8917127262193582" by (rule floor_unique) simp_all
  then have "round_half_even (99 / 100 * 2 ^ 53) = 8917127262193582"
    unfolding round_half_even_def Let_def by simp
  then have "round64 (99 / 100) = 8917127262193582 / 2 ^ 53" using round64_binade[OF l] by simp
  then show ?thesis by (simp add: p99_def to_float_def)
qed

lemma percentile_f_single: "percentile_f [x] (Fin q) = Inr (Some x)"
  by (simp add: percentile_f_def percentile_position_def py_sorted_def float_of_int_eval to_float_eval py_floor_def
    py_ceil_def py_index_def)

end
