(* ===== verification/Audio_Loopback.thy ===== *)
theory Audio_Loopback
  imports Capture_Csv
begin

text \<open>
  \<^verbatim>\<open>tools/analyze_audio_loopback.py\<close>: the latency analysis of an audio loopback capture.  The file is
  the list of rows and field names the CSV reader returned.
\<close>

definition TIME_COLUMNS :: "string list" where
  "TIME_COLUMNS = [''time_us'', ''timestamp_us'', ''local_time_us'', ''time'', ''Time [s]'', ''Time'']"

definition ID_COLUMNS :: "string list" where
  "ID_COLUMNS = [''frame_id'', ''impulse_id'', ''sequence'', ''id'']"

definition EVENT_COLUMNS :: "string list" where
  "EVENT_COLUMNS = [''event'', ''marker'', ''name'', ''Event'', ''Marker'']"

definition DEFAULT_EVENTS :: "(string \<times> string) list" where
  "DEFAULT_EVENTS = [(''impulse'', ''impulse''), (''capture'', ''capture_frame''), (''queue'', ''packet_queue''),
     (''tx_start'', ''tx_start''), (''rx'', ''rx_done''), (''playback'', ''playback_output'')]"

definition loopback_time_us :: "string \<Rightarrow> pyfloat result" where
  "loopback_time_us value = time_us (Fin 1) value"

record float_stats =
  fs_min :: "pyfloat option"
  fs_mean :: "pyfloat option"
  fs_p95 :: "pyfloat option"
  fs_p99 :: "pyfloat option"
  fs_max :: "pyfloat option"

definition float_stats_of :: "(pyfloat list \<Rightarrow> pyfloat) \<Rightarrow> pyfloat list \<Rightarrow> float_stats result" where
  "float_stats_of fsum values =
     bind (fmean fsum values) (\<lambda>mean.
     bind (percentile_f values p95) (\<lambda>l95.
     bind (percentile_f values p99) (\<lambda>l99.
       Inr \<lparr>fs_min = fmin_list values, fs_mean = mean, fs_p95 = l95, fs_p99 = l99, fs_max = fmax_list values\<rparr>)))"

section \<open>Loading\<close>

type_synonym frame_events = "(string \<times> pyfloat) list"

definition missing_columns :: "string option \<Rightarrow> string option \<Rightarrow> string option \<Rightarrow> string list" where
  "missing_columns t i e =
     (if t = None then [''time column''] else []) @ (if i = None then [''frame/impulse id column''] else []) @
     (if e = None then [''event column''] else [])"

definition load_row :: "string \<Rightarrow> string \<Rightarrow> string \<Rightarrow> csv_row \<Rightarrow> (string \<times> frame_events) list \<Rightarrow>
    (string \<times> frame_events) list result" where
  "load_row tcol icol ecol row by_id =
     bind (cell_stripped row icol) (\<lambda>frame_id.
     bind (cell_stripped row ecol) (\<lambda>event.
     bind (cell_stripped row tcol) (\<lambda>stamp.
       if frame_id = [] \<or> event = [] \<or> stamp = [] then Inr by_id
       else bind (loopback_time_us stamp) (\<lambda>time.
         let seen = (case map_of by_id frame_id of None \<Rightarrow> [] | Some es \<Rightarrow> es)
         in Inr (dict_set frame_id (dict_set event time seen) by_id)))))"

definition load_events :: "string list \<Rightarrow> csv_row list \<Rightarrow> string option \<Rightarrow> string option \<Rightarrow> string option \<Rightarrow>
    (string \<times> frame_events) list result" where
  "load_events fieldnames rows time_column id_column event_column =
     (if rows = [] then Inl (ValueError ''no CSV data rows'')
      else case (column_or time_column (first_present fieldnames TIME_COLUMNS),
                 column_or id_column (first_present fieldnames ID_COLUMNS),
                 column_or event_column (first_present fieldnames EVENT_COLUMNS)) of
             (Some t, Some i, Some e) \<Rightarrow> fold_res (load_row t i e) rows []
           | (t, i, e) \<Rightarrow> Inl (ValueError (''Could not identify '' @ join_with '', '' (missing_columns t i e))))"

section \<open>Analysis\<close>

definition delta :: "frame_events \<Rightarrow> string \<Rightarrow> string \<Rightarrow> pyfloat option" where
  "delta evs start stop =
     (case (map_of evs start, map_of evs stop) of
        (Some a, Some b) \<Rightarrow> Some (fsub b a) | _ \<Rightarrow> None)"

text \<open>The names the six stages go by, after the overrides.\<close>

definition event_names_of :: "(string \<times> string) list \<Rightarrow> (string \<times> string) list" where
  "event_names_of overrides = fold (\<lambda>(k, v). dict_set k v) overrides DEFAULT_EVENTS"

definition stage :: "(string \<times> string) list \<Rightarrow> string \<Rightarrow> string" where
  "stage names k = the (map_of names k)"

record frame_latency =
  fl_id :: string
  fl_stages :: "(string \<times> pyfloat option) list"

definition latencies_of :: "(string \<times> string) list \<Rightarrow> frame_events \<Rightarrow> (string \<times> pyfloat option) list" where
  "latencies_of names evs =
     (let d = (\<lambda>a b. delta evs (stage names a) (stage names b))
      in [(''capture_latency_us'', d ''impulse'' ''capture''), (''queue_latency_us'', d ''capture'' ''queue''),
          (''radio_latency_us'', d ''tx_start'' ''rx''), (''playback_latency_us'', d ''rx'' ''playback''),
          (''end_to_end_latency_us'', d ''impulse'' ''playback'')])"

definition negative_stages :: "(string \<times> pyfloat option) list \<Rightarrow> string list" where
  "negative_stages ls = map fst (filter (\<lambda>(k, v). case v of None \<Rightarrow> False | Some x \<Rightarrow> flt x (Fin 0)) ls)"

definition missing_events :: "(string \<times> string) list \<Rightarrow> frame_events \<Rightarrow> string list" where
  "missing_events names evs = sort (remdups (filter (\<lambda>n. n \<notin> fst ` set evs) (map snd names)))"

datatype frame_verdict =
    Missing string "string list"
  | Invalid string "string list"
  | Complete frame_latency

definition judge_frame :: "(string \<times> string) list \<Rightarrow> string \<times> frame_events \<Rightarrow> frame_verdict" where
  "judge_frame names = (\<lambda>(frame_id, evs).
     (let missing = missing_events names evs; ls = latencies_of names evs; neg = negative_stages ls
      in if missing \<noteq> [] then Missing frame_id missing
         else if neg \<noteq> [] then Invalid frame_id neg
         else Complete \<lparr>fl_id = frame_id, fl_stages = ls\<rparr>))"

fun missing_of :: "frame_verdict \<Rightarrow> (string \<times> string list) option" where
  "missing_of (Missing i m) = Some (i, m)" | "missing_of _ = None"
fun invalid_of :: "frame_verdict \<Rightarrow> (string \<times> string list) option" where
  "invalid_of (Invalid i m) = Some (i, m)" | "invalid_of _ = None"
fun complete_of :: "frame_verdict \<Rightarrow> frame_latency option" where
  "complete_of (Complete f) = Some f" | "complete_of _ = None"

definition stage_values :: "string \<Rightarrow> frame_latency list \<Rightarrow> pyfloat list" where
  "stage_values k fs = List.map_filter (\<lambda>f. case map_of (fl_stages f) k of Some v \<Rightarrow> v | None \<Rightarrow> None) fs"

record loopback_summary =
  ls_expected :: int
  ls_complete_samples :: nat
  ls_incomplete_samples :: nat
  ls_invalid_samples :: nat
  ls_pass :: bool
  ls_events :: "(string \<times> string) list"
  ls_stats :: "(string \<times> float_stats) list"
  ls_missing :: "(string \<times> string list) list"
  ls_invalid :: "(string \<times> string list) list"
  ls_frames :: "frame_latency list"

definition within_limit :: "pyfloat option \<Rightarrow> pyfloat \<Rightarrow> bool" where
  "within_limit v limit_ms = (case v of None \<Rightarrow> False | Some x \<Rightarrow> fle x (fmul limit_ms (Fin 1000)))"

definition STAGES :: "string list" where
  "STAGES = [''capture_latency'', ''queue_latency'', ''radio_latency'', ''playback_latency'', ''end_to_end_latency'']"

definition summarize_verdicts :: "(pyfloat list \<Rightarrow> pyfloat) \<Rightarrow> int \<Rightarrow> pyfloat \<Rightarrow> pyfloat \<Rightarrow> (string \<times> string) list \<Rightarrow>
    frame_verdict list \<Rightarrow> loopback_summary result" where
  "summarize_verdicts fsum expected target_ms max_ms names verdicts =
     (let missing = List.map_filter missing_of verdicts; bad = List.map_filter invalid_of verdicts;
          complete = List.map_filter complete_of verdicts; e2e = stage_values ''end_to_end_latency_us'' complete
      in bind (percentile_f e2e p95) (\<lambda>l95.
         bind (map_res (\<lambda>s. bind (float_stats_of fsum (stage_values (s @ ''_us'') complete)) (\<lambda>st. Inr (s, st))) STAGES) (\<lambda>stats.
           Inr \<lparr>ls_expected = expected, ls_complete_samples = length complete,
             ls_incomplete_samples = length missing, ls_invalid_samples = length bad,
             ls_pass = expected \<le> int (length complete) \<and> bad = [] \<and> within_limit l95 target_ms \<and>
               within_limit (fmax_list e2e) max_ms,
             ls_events = names, ls_stats = stats, ls_missing = missing, ls_invalid = bad, ls_frames = complete\<rparr>)))"

definition analyze_audio_loopback :: "(pyfloat list \<Rightarrow> pyfloat) \<Rightarrow> string list \<Rightarrow> csv_row list \<Rightarrow> int \<Rightarrow> pyfloat \<Rightarrow> pyfloat \<Rightarrow>
    string option \<Rightarrow> string option \<Rightarrow> string option \<Rightarrow> (string \<times> string) list \<Rightarrow> loopback_summary result" where
  "analyze_audio_loopback fsum fieldnames rows expected target_ms max_ms time_column id_column event_column overrides =
     (let names = event_names_of overrides
      in bind (load_events fieldnames rows time_column id_column event_column) (\<lambda>by_id.
           summarize_verdicts fsum expected target_ms max_ms names (map (judge_frame names) (sort_key fst by_id))))"

text \<open>\<^verbatim>\<open>--event key=value\<close>.\<close>

definition event_override :: "string \<Rightarrow> (string \<times> string) result" where
  "event_override value =
     (if CHR ''='' \<notin> set value then Inl (ArgumentTypeError ''event overrides must use key=value'')
      else let key = takeWhile (\<lambda>c. c \<noteq> CHR ''='') value; name = drop (Suc (length key)) value
        in if map_of DEFAULT_EVENTS key = None then Inl (ArgumentTypeError ''unknown event key'')
           else if name = [] then Inl (ArgumentTypeError ''event name must not be empty'')
           else Inr (key, name))"

section \<open>Every frame is judged once\<close>

lemma verdict_counts:
  "length (List.map_filter missing_of vs) + length (List.map_filter invalid_of vs) +
   length (List.map_filter complete_of vs) = length vs"
proof (induction vs)
  case (Cons v vs)
  then show ?case by (cases v) (simp_all add: List.map_filter_def)
qed (simp add: List.map_filter_def)

lemma load_row_distinct:
  "load_row t i e row by_id = Inr by_id' \<Longrightarrow> distinct (map fst by_id) \<Longrightarrow> distinct (map fst by_id')"
  by (auto simp: load_row_def bind_eq_Inr Let_def distinct_dict_set split: if_splits)

lemma load_events_distinct:
  assumes "load_events fieldnames rows t i e = Inr by_id"
  shows "distinct (map fst by_id)"
proof -
  obtain t' i' e' where "fold_res (load_row t' i' e') rows [] = Inr by_id"
    using assms by (auto simp: load_events_def split: if_splits option.splits)
  then show ?thesis by (rule fold_res_invariant) (auto dest: load_row_distinct)
qed

section \<open>What a complete frame holds\<close>

lemma event_names_keep:
  assumes "map_of DEFAULT_EVENTS k = Some v"
  shows "\<exists>n. map_of (event_names_of overrides) k = Some n \<and> n \<in> set (map snd (event_names_of overrides))"
proof -
  have keep: "map_of (fold (\<lambda>(k, v). dict_set k v) os d) k \<noteq> None" if "map_of d k \<noteq> None" for os d
    using that
  proof (induction os arbitrary: d)
    case (Cons a os)
    then show ?case by (cases a) auto
  qed simp
  have "map_of (event_names_of overrides) k \<noteq> None"
    unfolding event_names_of_def by (rule keep) (simp add: assms)
  then obtain n where "map_of (event_names_of overrides) k = Some n" by blast
  moreover from this have "n \<in> set (map snd (event_names_of overrides))"
    using map_of_SomeD by (metis in_set_zipE zip_map_fst_snd)
  ultimately show ?thesis by blast
qed

lemma nothing_missing:
  assumes "missing_events names evs = []" "n \<in> set (map snd names)"
  shows "\<exists>x. map_of evs n = Some x"
proof -
  have "set (missing_events names evs) = {n \<in> set (map snd names). n \<notin> fst ` set evs}"
    by (auto simp: missing_events_def)
  then have "n \<in> fst ` set evs" using assms by auto
  then show ?thesis by (metis map_of_eq_None_iff not_None_eq)
qed

lemma delta_complete:
  assumes "missing_events (event_names_of os) evs = []" "map_of DEFAULT_EVENTS a = Some v" "map_of DEFAULT_EVENTS b = Some w"
  shows "\<exists>x. delta evs (stage (event_names_of os) a) (stage (event_names_of os) b) = Some x"
proof -
  obtain n m where "map_of (event_names_of os) a = Some n" "n \<in> set (map snd (event_names_of os))"
    "map_of (event_names_of os) b = Some m" "m \<in> set (map snd (event_names_of os))"
    using event_names_keep[OF assms(2)] event_names_keep[OF assms(3)] by blast
  moreover from this obtain x y where "map_of evs n = Some x" "map_of evs m = Some y"
    using nothing_missing[OF assms(1)] by blast
  ultimately show ?thesis by (simp add: delta_def stage_def)
qed

text \<open>The five stages of a complete frame are present and none is negative.\<close>

definition sound_frame :: "frame_latency \<Rightarrow> bool" where
  "sound_frame f \<longleftrightarrow> map fst (fl_stages f) = map (\<lambda>s. s @ ''_us'') STAGES \<and>
     (\<forall>(k, v) \<in> set (fl_stages f). \<exists>x. v = Some x \<and> \<not> flt x (Fin 0))"

lemma judge_frame_sound:
  assumes "judge_frame (event_names_of os) p = Complete f"
  shows "sound_frame f \<and> fl_id f = fst p"
proof -
  obtain i evs where p: "p = (i, evs)" by (cases p)
  have m: "missing_events (event_names_of os) evs = []"
    and n: "negative_stages (latencies_of (event_names_of os) evs) = []"
    and f: "f = \<lparr>fl_id = i, fl_stages = latencies_of (event_names_of os) evs\<rparr>"
    using assms by (auto simp: judge_frame_def p Let_def split: if_splits)
  have nn: "\<not> flt x (Fin 0)" if "(k, Some x) \<in> set (latencies_of (event_names_of os) evs)" for k x
    using n that by (fastforce simp: negative_stages_def filter_empty_conv)
  have some: "\<exists>x. v = Some x" if "(k, v) \<in> set (latencies_of (event_names_of os) evs)" for k v
    using that delta_complete[OF m] by (auto simp: latencies_of_def DEFAULT_EVENTS_def Let_def)
  have "\<exists>x. v = Some x \<and> \<not> flt x (Fin 0)" if "(k, v) \<in> set (latencies_of (event_names_of os) evs)" for k v
    using some[OF that] nn that by blast
  moreover have "map fst (latencies_of (event_names_of os) evs) = map (\<lambda>s. s @ ''_us'') STAGES"
    by (simp add: latencies_of_def STAGES_def Let_def)
  ultimately show ?thesis by (auto simp: sound_frame_def f p)
qed

lemma complete_frames_sound:
  "f \<in> set (List.map_filter complete_of (map (judge_frame (event_names_of os)) ps)) \<Longrightarrow> sound_frame f"
proof (induction ps)
  case (Cons p ps)
  then show ?case using judge_frame_sound[of os p]
    by (cases "judge_frame (event_names_of os) p") (auto simp: List.map_filter_def)
qed (simp add: List.map_filter_def)

lemma sound_frame_stage:
  assumes "sound_frame f" "s \<in> set STAGES"
  shows "\<exists>x. map_of (fl_stages f) (s @ ''_us'') = Some (Some x) \<and> \<not> flt x (Fin 0)"
proof -
  have "s @ ''_us'' \<in> set (map fst (fl_stages f))" using assms by (simp add: sound_frame_def)
  then obtain v where v: "map_of (fl_stages f) (s @ ''_us'') = Some v"
    by (metis map_of_eq_None_iff not_None_eq set_map)
  then have "(s @ ''_us'', v) \<in> set (fl_stages f)" by (rule map_of_SomeD)
  with v assms(1) show ?thesis by (auto simp: sound_frame_def)
qed

lemma stage_values_mem:
  "f \<in> set fs \<Longrightarrow> map_of (fl_stages f) k = Some (Some x) \<Longrightarrow> x \<in> set (stage_values k fs)"
proof (induction fs)
  case (Cons g fs)
  then show ?case by (cases "f = g") (auto simp: stage_values_def List.map_filter_def)
qed simp

lemma analyze_audio_loopback_Inr:
  assumes "analyze_audio_loopback fsum fieldnames rows expected target_ms max_ms t i e overrides = Inr r"
  obtains by_id l95 where "load_events fieldnames rows t i e = Inr by_id"
    "percentile_f (stage_values ''end_to_end_latency_us'' (ls_frames r)) p95 = Inr l95"
    "ls_missing r = List.map_filter missing_of (map (judge_frame (event_names_of overrides)) (sort_key fst by_id))"
    "ls_invalid r = List.map_filter invalid_of (map (judge_frame (event_names_of overrides)) (sort_key fst by_id))"
    "ls_frames r = List.map_filter complete_of (map (judge_frame (event_names_of overrides)) (sort_key fst by_id))"
    "ls_complete_samples r = length (ls_frames r)" "ls_incomplete_samples r = length (ls_missing r)"
    "ls_invalid_samples r = length (ls_invalid r)"
    "ls_pass r = (expected \<le> int (length (ls_frames r)) \<and> ls_invalid r = [] \<and> within_limit l95 target_ms \<and>
       within_limit (fmax_list (stage_values ''end_to_end_latency_us'' (ls_frames r))) max_ms)"
  using assms by (auto simp: analyze_audio_loopback_def summarize_verdicts_def bind_eq_Inr Let_def)

section \<open>Properties\<close>


text \<open>C23 (safety). A loopback capture that passes has no invalid frame and at least the expected number
  of complete frames, and in each of these every stage was measured, none is negative and the end-to-end
  latency does not exceed the maximum.\<close>

theorem loopback_pass_sound:
  assumes "analyze_audio_loopback fsum fieldnames rows expected target_ms max_ms t i e overrides = Inr r" "ls_pass r"
  shows "ls_invalid r = [] \<and> expected \<le> int (length (ls_frames r)) \<and> (\<forall>f \<in> set (ls_frames r).
    (\<forall>s \<in> set STAGES. \<exists>x. map_of (fl_stages f) (s @ ''_us'') = Some (Some x) \<and> \<not> flt x (Fin 0)) \<and>
    (\<exists>x. map_of (fl_stages f) ''end_to_end_latency_us'' = Some (Some x) \<and> \<not> flt (fmul max_ms (Fin 1000)) x))"
proof -
  obtain by_id l95 where r:
    "ls_frames r = List.map_filter complete_of (map (judge_frame (event_names_of overrides)) (sort_key fst by_id))"
    "ls_pass r = (expected \<le> int (length (ls_frames r)) \<and> ls_invalid r = [] \<and> within_limit l95 target_ms \<and>
       within_limit (fmax_list (stage_values ''end_to_end_latency_us'' (ls_frames r))) max_ms)"
    using assms(1) by (rule analyze_audio_loopback_Inr)
  let ?e2e = "stage_values ''end_to_end_latency_us'' (ls_frames r)"
  obtain m where "fmax_list ?e2e = Some m" "fle m (fmul max_ms (Fin 1000))"
    using r(2) assms(2) by (auto simp: within_limit_def split: option.splits)
  then have bound: "\<forall>x \<in> set ?e2e. \<not> flt (fmul max_ms (Fin 1000)) x" by (rule fmax_list_bound)
  have sound: "sound_frame f" if "f \<in> set (ls_frames r)" for f
    using that unfolding r(1) by (rule complete_frames_sound)
  have "\<exists>x. map_of (fl_stages f) ''end_to_end_latency_us'' = Some (Some x) \<and> \<not> flt (fmul max_ms (Fin 1000)) x"
    if f: "f \<in> set (ls_frames r)" for f
  proof -
    obtain x where x: "map_of (fl_stages f) ''end_to_end_latency_us'' = Some (Some x)"
      using sound_frame_stage[OF sound[OF f], of "''end_to_end_latency''"] by (auto simp: STAGES_def)
    with bound stage_values_mem[OF f x] show ?thesis by blast
  qed
  with r(2) assms(2) sound_frame_stage[OF sound] show ?thesis by blast
qed

text \<open>A capture of one frame, with the stages ten microseconds apart.\<close>

definition sample_row :: "string \<Rightarrow> string \<Rightarrow> csv_row" where
  "sample_row event stamp = [(''time_us'', Some stamp), (''id'', Some ''7''), (''event'', Some event)]"

definition sample_rows :: "csv_row list" where
  "sample_rows = [sample_row ''impulse'' ''0'', sample_row ''capture_frame'' ''10'', sample_row ''packet_queue'' ''20'',
     sample_row ''tx_start'' ''30'', sample_row ''rx_done'' ''40'', sample_row ''playback_output'' ''50'']"

definition sample_loopback :: "loopback_summary result" where
  "sample_loopback = analyze_audio_loopback (\<lambda>_. Fin 50) [''time_us'', ''id'', ''event''] sample_rows 1 (Fin 120) (Fin 180)
     None None None []"

lemma sample_load:
  "load_events [''time_us'', ''id'', ''event''] sample_rows None None None =
     Inr [(''7'', [(''impulse'', Fin 0), (''capture_frame'', Fin 10), (''packet_queue'', Fin 20), (''tx_start'', Fin 30),
       (''rx_done'', Fin 40), (''playback_output'', Fin 50)])]"
  by (simp add: load_events_def sample_rows_def column_or_def first_present_def TIME_COLUMNS_def ID_COLUMNS_def
    EVENT_COLUMNS_def load_row_def sample_row_def cell_stripped_def cell_text_def cell_or_def strip_def is_space_def
    loopback_time_us_def time_us_def lower_def lower_char_def ends_with_def micro_s_def parse_float_def
    parse_mantissa_def valid_digits_def is_digit_def digits_value_def digits_count_def digit_val_def ten_pow_def
    to_float_eval Let_def)

definition sample_frame :: frame_latency where
  "sample_frame = \<lparr>fl_id = ''7'', fl_stages = [(''capture_latency_us'', Some (Fin 10)), (''queue_latency_us'', Some (Fin 10)),
     (''radio_latency_us'', Some (Fin 10)), (''playback_latency_us'', Some (Fin 10)),
     (''end_to_end_latency_us'', Some (Fin 50))]\<rparr>"

lemma sample_judged:
  "judge_frame (event_names_of []) (''7'', [(''impulse'', Fin 0), (''capture_frame'', Fin 10), (''packet_queue'', Fin 20),
     (''tx_start'', Fin 30), (''rx_done'', Fin 40), (''playback_output'', Fin 50)]) = Complete sample_frame"
  by (simp add: judge_frame_def event_names_of_def DEFAULT_EVENTS_def missing_events_def latencies_of_def delta_def
    stage_def negative_stages_def fsub_def to_float_eval sample_frame_def)

lemma sample_stage_values: "s \<in> set STAGES \<Longrightarrow> \<exists>x. stage_values (s @ ''_us'') [sample_frame] = [Fin x]"
  by (auto simp: stage_values_def STAGES_def sample_frame_def List.map_filter_def)

lemma sample_float_stats: "\<exists>st. float_stats_of (\<lambda>_. Fin 50) [Fin x] = Inr st"
  by (simp add: float_stats_of_def fmean_def percentile_f_single p95_value p99_value float_of_int_eval to_float_eval)

lemma sample_passes: "\<exists>r. sample_loopback = Inr r \<and> ls_pass r \<and> ls_frames r \<noteq> []"
proof -
  have "\<exists>y. bind (float_stats_of (\<lambda>_. Fin 50) (stage_values (s @ ''_us'') [sample_frame])) (\<lambda>st. Inr (s, st)) = Inr y"
    if s: "s \<in> set STAGES" for s
  proof -
    obtain x where "stage_values (s @ ''_us'') [sample_frame] = [Fin x]" using sample_stage_values[OF s] by blast
    then show ?thesis using sample_float_stats[of x] by (metis bind_returned)
  qed
  then have "\<exists>ys. map_res (\<lambda>s. bind (float_stats_of (\<lambda>_. Fin 50) (stage_values (s @ ''_us'') [sample_frame]))
      (\<lambda>st. Inr (s, st))) STAGES = Inr ys"
    by (rule map_res_defined)
  then obtain ys where ys: "map_res (\<lambda>s. bind (float_stats_of (\<lambda>_. Fin 50) (stage_values (s @ ''_us'') [sample_frame]))
      (\<lambda>st. Inr (s, st))) STAGES = Inr ys" by blast
  have e: "stage_values ''end_to_end_latency_us'' [sample_frame] = [Fin 50]"
    by (simp add: stage_values_def sample_frame_def List.map_filter_def)
  show ?thesis
    by (simp add: sample_loopback_def analyze_audio_loopback_def sample_load sample_judged summarize_verdicts_def
      List.map_filter_def e ys percentile_f_single p95_value fmax_list_def within_limit_def to_float_eval)
qed


theorem loopback_pass_sound_witness:
  "\<exists>r f. sample_loopback = Inr r \<and> f \<in> set (ls_frames r) \<and>
    (\<exists>x. map_of (fl_stages f) ''end_to_end_latency_us'' = Some (Some x) \<and> \<not> flt (fmul (Fin 180) (Fin 1000)) x)"
proof -
  obtain r where r: "sample_loopback = Inr r" "ls_pass r" "ls_frames r \<noteq> []" using sample_passes by blast
  then obtain f where f: "f \<in> set (ls_frames r)" by (cases "ls_frames r") auto
  then show ?thesis using loopback_pass_sound[OF r(1)[unfolded sample_loopback_def] r(2)] r(1) by blast
qed

end
