(* ===== verification/Gpio_Timing.thy ===== *)
theory Gpio_Timing
  imports Capture_Csv "HOL-Library.Sublist"
begin

text \<open>
  \<^verbatim>\<open>tools/analyze_scheduled_tx_gpio.py\<close>: the launch error of scheduled transmissions, from the edges
  of the queue and start markers of a logic capture.
\<close>

definition GPIO_TIME_COLUMNS :: "string list" where
  "GPIO_TIME_COLUMNS = [''time_s'', ''time'', ''timestamp_s'', ''timestamp'', ''Time [s]'', ''Time'']"

definition CHANNEL_COLUMNS :: "string list" where
  "CHANNEL_COLUMNS = [''channel'', ''Channel'', ''name'', ''Name'']"

definition VALUE_COLUMNS :: "string list" where
  "VALUE_COLUMNS = [''value'', ''Value'', ''state'', ''State'']"

definition gpio_time_us :: "string \<Rightarrow> pyfloat result" where
  "gpio_time_us value = time_us (Fin 1000000) value"

definition is_high :: "string \<Rightarrow> bool" where
  "is_high value \<longleftrightarrow> lower (strip value) \<in> {''1'', ''high'', ''true'', ''rising'', ''rise''}"

text \<open>The tool's \<^verbatim>\<open>percentile\<close> is a copy of the loopback analyzer's.\<close>

definition gpio_percentile :: "pyfloat list \<Rightarrow> pyfloat \<Rightarrow> pyfloat option result" where
  "gpio_percentile values p = percentile_f values p"

section \<open>Edges\<close>

record edge_state =
  es_queue :: "pyfloat list"
  es_start :: "pyfloat list"
  es_previous :: "(string \<times> bool) list"

definition was_high :: "edge_state \<Rightarrow> string \<Rightarrow> bool" where
  "was_high s channel = (map_of (es_previous s) channel = Some True)"

text \<open>Whether a row is a rising edge, and the level it leaves behind.\<close>

definition row_rises :: "string option \<Rightarrow> csv_row \<Rightarrow> string \<Rightarrow> edge_state \<Rightarrow> (bool \<times> edge_state) result" where
  "row_rises value_column row channel s =
     (case value_column of
        None \<Rightarrow> Inr (True, s)
      | Some vc \<Rightarrow> bind (cell_stripped row vc) (\<lambda>text.
          if text = [] then Inr (True, s)
          else bind (cell_item row vc) (\<lambda>cell.
            let high = is_high cell
            in Inr (high \<and> \<not> was_high s channel, s\<lparr>es_previous := dict_set channel high (es_previous s)\<rparr>))))"

definition edge_row :: "string \<Rightarrow> string \<Rightarrow> string option \<Rightarrow> string \<Rightarrow> string \<Rightarrow> csv_row \<Rightarrow> edge_state \<Rightarrow> edge_state result" where
  "edge_row time_column channel_column value_column queue_channel start_channel row s =
     bind (cell_stripped row channel_column) (\<lambda>channel.
       if channel \<noteq> queue_channel \<and> channel \<noteq> start_channel then Inr s
       else bind (row_rises value_column row channel s) (\<lambda>(rising, s').
         if \<not> rising then Inr s'
         else bind (bind (cell_item row time_column) gpio_time_us) (\<lambda>t.
           Inr (if channel = queue_channel then s'\<lparr>es_queue := es_queue s' @ [t]\<rparr>
                else s'\<lparr>es_start := es_start s' @ [t]\<rparr>))))"

definition edge_list_times :: "csv_row list \<Rightarrow> string \<Rightarrow> string \<Rightarrow> string option \<Rightarrow> string \<Rightarrow> string \<Rightarrow>
    (pyfloat list \<times> pyfloat list) result" where
  "edge_list_times rows time_column channel_column value_column queue_channel start_channel =
     bind (fold_res (edge_row time_column channel_column value_column queue_channel start_channel) rows
        \<lparr>es_queue = [], es_start = [], es_previous = []\<rparr>) (\<lambda>s. Inr (es_queue s, es_start s))"

definition sampled_row :: "string \<Rightarrow> string \<Rightarrow> string \<Rightarrow> csv_row \<Rightarrow> edge_state \<Rightarrow> edge_state result" where
  "sampled_row time_column queue_channel start_channel row s =
     bind (bind (cell_item row time_column) gpio_time_us) (\<lambda>t.
     bind (cell_text ''0'' row queue_channel) (\<lambda>q.
     bind (cell_text ''0'' row start_channel) (\<lambda>st.
       let queue_high = is_high q; start_high = is_high st
       in Inr \<lparr>es_queue = es_queue s @ (if queue_high \<and> \<not> was_high s ''queue'' then [t] else []),
            es_start = es_start s @ (if start_high \<and> \<not> was_high s ''start'' then [t] else []),
            es_previous = [(''queue'', queue_high), (''start'', start_high)]\<rparr>)))"

definition sampled_column_times :: "csv_row list \<Rightarrow> string \<Rightarrow> string \<Rightarrow> string \<Rightarrow> (pyfloat list \<times> pyfloat list) result" where
  "sampled_column_times rows time_column queue_channel start_channel =
     bind (fold_res (sampled_row time_column queue_channel start_channel) rows
        \<lparr>es_queue = [], es_start = [], es_previous = []\<rparr>) (\<lambda>s. Inr (es_queue s, es_start s))"

section \<open>Pairing\<close>

text \<open>The loop of \<^verbatim>\<open>pair_edge_report\<close>: the launch errors, the orphan start edges, and the start edges
  left over.\<close>

fun pair_loop :: "pyfloat list \<Rightarrow> pyfloat list \<Rightarrow> nat \<Rightarrow> pyfloat list \<times> nat \<times> pyfloat list" where
  "pair_loop [] starts orphans = ([], orphans, starts)"
| "pair_loop (q # qs) starts orphans =
     (let skipped = takeWhile (\<lambda>s. flt s q) starts; orphans' = orphans + length skipped
      in case drop (length skipped) starts of
           [] \<Rightarrow> ([], orphans', [])
         | s # ss \<Rightarrow> (let (errors, o', left) = pair_loop qs ss orphans' in (fsub s q # errors, o', left)))"

record edge_report =
  er_errors :: "pyfloat list"
  er_orphans :: nat
  er_unpaired :: nat
  er_extra :: nat

definition pair_edge_report :: "pyfloat list \<Rightarrow> pyfloat list \<Rightarrow> edge_report" where
  "pair_edge_report queue starts =
     (let (errors, orphans, left) = pair_loop queue starts 0
      in \<lparr>er_errors = errors, er_orphans = orphans, er_unpaired = length queue - length errors, er_extra = length left\<rparr>)"

definition pair_edges :: "pyfloat list \<Rightarrow> pyfloat list \<Rightarrow> pyfloat list" where
  "pair_edges queue starts = er_errors (pair_edge_report queue starts)"

section \<open>Analysis\<close>

record gpio_summary =
  gs_shape :: string
  gs_time_column :: string
  gs_queue_edges :: nat
  gs_start_edges :: nat
  gs_report :: edge_report
  gs_pass :: bool
  gs_mean :: "pyfloat option"
  gs_p95 :: "pyfloat option"
  gs_p99 :: "pyfloat option"
  gs_min :: "pyfloat option"
  gs_max :: "pyfloat option"

definition gpio_edges :: "string list \<Rightarrow> csv_row list \<Rightarrow> string \<Rightarrow> string \<Rightarrow> string \<Rightarrow> string option \<Rightarrow> string option \<Rightarrow>
    (string \<times> pyfloat list \<times> pyfloat list) result" where
  "gpio_edges fieldnames rows queue_channel start_channel tcol channel_column value_column =
     (case column_or channel_column (first_present fieldnames CHANNEL_COLUMNS) of
        Some ccol \<Rightarrow> bind (edge_list_times rows tcol ccol (column_or value_column (first_present fieldnames VALUE_COLUMNS))
            queue_channel start_channel) (\<lambda>(q, s). Inr (''edge-list'', q, s))
      | None \<Rightarrow>
          if queue_channel \<notin> set fieldnames \<or> start_channel \<notin> set fieldnames
          then Inl (ValueError ''Could not identify channel columns'')
          else bind (sampled_column_times rows tcol queue_channel start_channel) (\<lambda>(q, s). Inr (''sampled-columns'', q, s)))"

definition gpio_pass :: "edge_report \<Rightarrow> int \<Rightarrow> pyfloat option \<Rightarrow> bool \<Rightarrow> bool" where
  "gpio_pass report expected limit strict \<longleftrightarrow>
     expected \<le> int (length (er_errors report)) \<and>
     (case limit of None \<Rightarrow> True
      | Some l \<Rightarrow> (case fmax_list (er_errors report) of None \<Rightarrow> False | Some m \<Rightarrow> fle m l)) \<and>
     (\<not> strict \<or> er_orphans report + er_unpaired report + er_extra report = 0)"

definition analyze_gpio_csv :: "(pyfloat list \<Rightarrow> pyfloat) \<Rightarrow> string list \<Rightarrow> csv_row list \<Rightarrow> string \<Rightarrow> string \<Rightarrow>
    string option \<Rightarrow> string option \<Rightarrow> string option \<Rightarrow> int \<Rightarrow> pyfloat option \<Rightarrow> bool \<Rightarrow> gpio_summary result" where
  "analyze_gpio_csv fsum fieldnames rows queue_channel start_channel time_column channel_column value_column expected limit strict =
     (if rows = [] then Inl (ValueError ''no CSV data rows'')
      else case column_or time_column (first_present fieldnames GPIO_TIME_COLUMNS) of
        None \<Rightarrow> Inl (ValueError ''Could not identify time column; pass --time-column'')
      | Some tcol \<Rightarrow>
          bind (gpio_edges fieldnames rows queue_channel start_channel tcol channel_column value_column) (\<lambda>(shape, q, s).
            let report = pair_edge_report q s; errors = er_errors report
            in bind (fmean fsum errors) (\<lambda>mean.
               bind (gpio_percentile errors p95) (\<lambda>l95.
               bind (gpio_percentile errors p99) (\<lambda>l99.
                 Inr \<lparr>gs_shape = shape, gs_time_column = tcol, gs_queue_edges = length q, gs_start_edges = length s,
                   gs_report = report, gs_pass = gpio_pass report expected limit strict, gs_mean = mean, gs_p95 = l95,
                   gs_p99 = l99, gs_min = fmin_list errors, gs_max = fmax_list errors\<rparr>)))))"

section \<open>What the pairing does\<close>

text \<open>Every edge is used at most once, in order, and no start precedes the queue edge it answers.\<close>

lemma pair_loop_pairs:
  "pair_loop queue starts orphans = (errors, o', left) \<Longrightarrow>
   (\<exists>ps. subseq (map fst ps) queue \<and> subseq (map snd ps) starts \<and> errors = map (\<lambda>(q, s). fsub s q) ps \<and>
      (\<forall>(q, s) \<in> set ps. \<not> flt s q)) \<and>
   orphans + length starts = o' + length errors + length left"
proof (induction queue starts orphans arbitrary: errors o' left rule: pair_loop.induct)
  case (1 starts orphans)
  then show ?case by (auto intro!: exI[of _ "[]"])
next
  case (2 q qs starts orphans)
  let ?sk = "takeWhile (\<lambda>s. flt s q) starts"
  show ?case
  proof (cases "drop (length ?sk) starts")
    case Nil
    then have "length starts \<le> length ?sk" by simp
    then have "length ?sk = length starts" using length_takeWhile_le[of _ starts] by (metis le_antisym)
    then show ?thesis using 2(2) Nil by (auto simp: Let_def intro!: exI[of _ "[]"])
  next
    case (Cons s ss)
    obtain es where es: "pair_loop qs ss (orphans + length ?sk) = (es, o', left)" "errors = fsub s q # es"
      using 2(2) Cons by (auto simp: Let_def split: prod.splits)
    have d: "starts = ?sk @ s # ss" using Cons by (metis append_take_drop_id takeWhile_eq_take)
    then have "\<not> flt s q" by (metis hd_dropWhile list.sel(1) list.distinct(1) same_append_eq takeWhile_dropWhile_id)
    moreover obtain ps where ps: "subseq (map fst ps) qs" "subseq (map snd ps) ss"
      "es = map (\<lambda>(q, s). fsub s q) ps" "\<forall>(q, s) \<in> set ps. \<not> flt s q"
      and c: "orphans + length ?sk + length ss = o' + length es + length left"
      using "2.IH"[OF refl refl Cons es(1)] by blast
    have "subseq (map snd ((q, s) # ps)) starts" using ps(2) by (subst d) (simp add: list_emb_append2)
    moreover have "length starts = length ?sk + Suc (length ss)" using arg_cong[OF d, of length] by simp
    ultimately show ?thesis using ps c es(2) by (auto intro!: exI[of _ "(q, s) # ps"])
  qed
qed

lemma pair_edges_count:
  "length queue = length (er_errors (pair_edge_report queue starts)) + er_unpaired (pair_edge_report queue starts) \<and>
   length starts = er_orphans (pair_edge_report queue starts) + length (er_errors (pair_edge_report queue starts)) +
     er_extra (pair_edge_report queue starts)"
proof -
  obtain errors o' left where l: "pair_loop queue starts 0 = (errors, o', left)" by (cases "pair_loop queue starts 0")
  obtain ps where ps: "subseq (map fst ps) queue" "errors = map (\<lambda>(q, s). fsub s q) ps"
    and c: "length starts = o' + length errors + length left"
    using pair_loop_pairs[OF l] by auto
  have "length errors \<le> length queue" using list_emb_length[OF ps(1)] ps(2) by simp
  then show ?thesis using c by (simp add: pair_edge_report_def l)
qed

section \<open>Properties\<close>

text \<open>C24 (functional). The pairing of queue and start edges accounts for every edge: each queue edge is
  paired or counted as unpaired, each start edge is paired, an orphan or left over; the pairs follow the
  order of both lists, no start precedes the queue edge it is paired with, and the launch errors are
  their differences.\<close>

theorem pair_edges_account:
  "length queue = length (er_errors (pair_edge_report queue starts)) + er_unpaired (pair_edge_report queue starts) \<and>
   length starts = er_orphans (pair_edge_report queue starts) + length (er_errors (pair_edge_report queue starts)) +
     er_extra (pair_edge_report queue starts) \<and>
   (\<exists>ps. subseq (map fst ps) queue \<and> subseq (map snd ps) starts \<and>
      er_errors (pair_edge_report queue starts) = map (\<lambda>(q, s). fsub s q) ps \<and> list_all (\<lambda>(q, s). \<not> flt s q) ps)"
proof -
  obtain errors o' left where l: "pair_loop queue starts 0 = (errors, o', left)" by (cases "pair_loop queue starts 0")
  have "er_errors (pair_edge_report queue starts) = errors" by (simp add: pair_edge_report_def l)
  with pair_loop_pairs[OF l] pair_edges_count[of queue starts] show ?thesis by (simp add: list_all_iff)
qed

text \<open>C25 (safety). A capture that passes with a limit and edge hygiene has as many start as queue edges,
  at least the expected number, each queue edge answered by exactly one start edge, and no launch error
  above the limit.\<close>

theorem gpio_pass_sound:
  assumes "analyze_gpio_csv fsum fieldnames rows qc sc tc cc vc expected (Some l) True = Inr g" "gs_pass g"
  shows "gs_start_edges g = gs_queue_edges g \<and> length (er_errors (gs_report g)) = gs_queue_edges g \<and>
    expected \<le> int (gs_queue_edges g) \<and> (\<forall>e \<in> set (er_errors (gs_report g)). \<not> flt l e)"
proof -
  obtain q s where g: "gs_queue_edges g = length q" "gs_start_edges g = length s" "gs_report g = pair_edge_report q s"
    "gs_pass g = gpio_pass (pair_edge_report q s) expected (Some l) True"
    using assms(1) by (auto simp: analyze_gpio_csv_def bind_eq_Inr Let_def split: if_splits option.splits prod.splits)
  have p: "expected \<le> int (length (er_errors (gs_report g)))" "er_orphans (gs_report g) = 0"
    "er_unpaired (gs_report g) = 0" "er_extra (gs_report g) = 0"
    "\<exists>m. fmax_list (er_errors (gs_report g)) = Some m \<and> fle m l"
    using assms(2) g(3,4) by (auto simp: gpio_pass_def split: option.splits)
  have "\<forall>e \<in> set (er_errors (gs_report g)). \<not> flt l e" using p(5) fmax_list_bound by blast
  with p(1-4) pair_edges_count[of q s] show ?thesis unfolding g(1-3) by simp
qed

definition gpio_rows :: "csv_row list" where
  "gpio_rows = map (\<lambda>(t, q, s). [(''time'', Some t), (''Q'', Some q), (''S'', Some s)])
     [(''0us'', ''1'', ''0''), (''5us'', ''1'', ''1''), (''6us'', ''0'', ''0'')]"

lemma gpio_rows_pass:
  "\<exists>g. analyze_gpio_csv (\<lambda>_. Fin 5) [''time'', ''Q'', ''S''] gpio_rows ''Q'' ''S'' None None None 1 (Some (Fin 9)) True = Inr g \<and>
     gs_pass g \<and> er_errors (gs_report g) = [Fin 5]"
  by (simp add: analyze_gpio_csv_def gpio_rows_def column_or_def first_present_def GPIO_TIME_COLUMNS_def gpio_edges_def
    CHANNEL_COLUMNS_def sampled_column_times_def sampled_row_def cell_item_def cell_text_def cell_or_def gpio_time_us_def
    time_us_def strip_def is_space_def lower_def lower_char_def ends_with_def micro_s_def chop_def parse_float_def
    parse_mantissa_def valid_digits_def is_digit_def digits_value_def digits_count_def digit_val_def ten_pow_def
    to_float_eval is_high_def was_high_def pair_edge_report_def fsub_def fmean_def float_of_int_eval gpio_percentile_def percentile_f_single
    p95_value p99_value gpio_pass_def fmax_list_def fmin_list_def Let_def)

theorem gpio_pass_sound_witness:
  "\<exists>g :: gpio_summary. gs_start_edges g = gs_queue_edges g \<and> er_errors (gs_report g) = [Fin 5] \<and> \<not> flt (Fin 9) (Fin 5)"
proof -
  obtain g where g: "analyze_gpio_csv (\<lambda>_. Fin 5) [''time'', ''Q'', ''S''] gpio_rows ''Q'' ''S'' None None None 1 (Some (Fin 9)) True = Inr g"
    "gs_pass g" "er_errors (gs_report g) = [Fin 5]" using gpio_rows_pass by blast
  then show ?thesis using gpio_pass_sound[OF g(1,2)] by (intro exI[of _ g]) auto
qed

end
