(* ===== verification/Packet_Pair.thy ===== *)
theory Packet_Pair
  imports Capture_Csv
begin

text \<open>
  \<^verbatim>\<open>tools/analyze_packet_pair.py\<close>: reception statistics of a packet-pair log and the criteria a run
  has to meet.
\<close>

text \<open>The tool's \<^verbatim>\<open>percentile\<close> is the one of the simulator's metrics.\<close>

definition packet_percentile :: "int list \<Rightarrow> pyfloat \<Rightarrow> pyfloat option result" where
  "packet_percentile values p = percentile values p"

definition detail_value :: "string \<Rightarrow> string \<Rightarrow> string option" where
  "detail_value detail key =
     (let prefix = key @ ''=''
      in map_option (drop (length prefix)) (List.find (\<lambda>token. starts_with token prefix) (split_ws detail)))"

record packet_log =
  pl_sequences :: "int list"
  pl_times :: "int list"
  pl_rssi :: "int list"
  pl_lqi :: "int list"
  pl_boots :: nat
  pl_faults :: nat
  pl_gaps :: nat

text \<open>\<^verbatim>\<open>if cell: xs.append(int(cell))\<close>, for a cell that may be missing.\<close>

definition append_cell :: "string option \<Rightarrow> int list \<Rightarrow> int list result" where
  "append_cell c xs =
     (case c of None \<Rightarrow> Inr xs | Some s \<Rightarrow> if s = [] then Inr xs else bind (parse_int s) (\<lambda>n. Inr (xs @ [n])))"

definition append_detail :: "string option \<Rightarrow> int list \<Rightarrow> int list result" where
  "append_detail c xs = (case c of None \<Rightarrow> Inr xs | Some s \<Rightarrow> bind (parse_int s) (\<lambda>n. Inr (xs @ [n])))"

definition rx_done_row :: "csv_row \<Rightarrow> packet_log \<Rightarrow> packet_log result" where
  "rx_done_row row s =
     bind (append_cell (cell_or '''' row ''sequence'') (pl_sequences s)) (\<lambda>sequences.
     bind (append_cell (cell_or '''' row ''local_time_us'') (pl_times s)) (\<lambda>times.
     bind (cell_text '''' row ''detail'') (\<lambda>detail.
     bind (append_detail (detail_value detail ''rssi'') (pl_rssi s)) (\<lambda>rssi.
     bind (append_detail (detail_value detail ''lqi'') (pl_lqi s)) (\<lambda>lqi.
       Inr (s\<lparr>pl_sequences := sequences, pl_times := times, pl_rssi := rssi, pl_lqi := lqi\<rparr>))))))"

definition packet_row :: "csv_row \<Rightarrow> packet_log \<Rightarrow> packet_log result" where
  "packet_row row s =
     (let event = cell_or '''' row ''event''
      in if event = Some ''boot'' then Inr (s\<lparr>pl_boots := pl_boots s + 1\<rparr>)
         else if event = Some ''fault'' then Inr (s\<lparr>pl_faults := pl_faults s + 1\<rparr>)
         else if event = Some ''rx_gap'' then Inr (s\<lparr>pl_gaps := pl_gaps s + 1\<rparr>)
         else if event = Some ''rx_done'' then rx_done_row row s
         else Inr s)"

definition empty_log :: packet_log where
  "empty_log = \<lparr>pl_sequences = [], pl_times = [], pl_rssi = [], pl_lqi = [], pl_boots = 0, pl_faults = 0, pl_gaps = 0\<rparr>"

definition read_log :: "csv_row list \<Rightarrow> packet_log result" where
  "read_log rows = fold_res packet_row rows empty_log"

section \<open>The summary\<close>

fun gap_sum :: "int list \<Rightarrow> int" where
  "gap_sum (p # c # xs) = (if p + 1 < c then c - p - 1 else 0) + gap_sum (c # xs)"
| "gap_sum _ = 0"

definition sequence_gaps :: "int list \<Rightarrow> int" where
  "sequence_gaps xs = gap_sum (sort xs)"

definition inter_arrivals :: "int list \<Rightarrow> int list" where
  "inter_arrivals ts = map (\<lambda>(a, b). b - a) (zip ts (drop 1 ts))"

definition min_opt :: "int list \<Rightarrow> int option" where
  "min_opt xs = (if xs = [] then None else Some (Min (set xs)))"

definition mean_opt :: "int list \<Rightarrow> pyfloat option result" where
  "mean_opt xs = ratio_opt (sum_list xs) (length xs)"

record packet_summary =
  ps_received :: nat
  ps_first :: "int option"
  ps_last :: "int option"
  ps_sequence_gaps :: int
  ps_rx_gap_events :: nat
  ps_boot_events :: nat
  ps_fault_events :: nat
  ps_arrival_min :: "int option"
  ps_arrival_mean :: "pyfloat option"
  ps_arrival_p95 :: "pyfloat option"
  ps_arrival_p99 :: "pyfloat option"
  ps_arrival_max :: "int option"
  ps_rssi_min :: "int option"
  ps_rssi_mean :: "pyfloat option"
  ps_lqi_min :: "int option"
  ps_lqi_mean :: "pyfloat option"

definition packet_summary_of :: "packet_log \<Rightarrow> packet_summary result" where
  "packet_summary_of s =
     (let arrivals = inter_arrivals (pl_times s)
      in bind (mean_opt arrivals) (\<lambda>mean.
         bind (packet_percentile arrivals p95) (\<lambda>l95.
         bind (packet_percentile arrivals p99) (\<lambda>l99.
         bind (mean_opt (pl_rssi s)) (\<lambda>rssi.
         bind (mean_opt (pl_lqi s)) (\<lambda>lqi.
           Inr \<lparr>ps_received = length (pl_sequences s), ps_first = min_opt (pl_sequences s),
             ps_last = max_opt (pl_sequences s), ps_sequence_gaps = sequence_gaps (pl_sequences s),
             ps_rx_gap_events = pl_gaps s, ps_boot_events = pl_boots s, ps_fault_events = pl_faults s,
             ps_arrival_min = min_opt arrivals, ps_arrival_mean = mean, ps_arrival_p95 = l95, ps_arrival_p99 = l99,
             ps_arrival_max = max_opt arrivals, ps_rssi_min = min_opt (pl_rssi s), ps_rssi_mean = rssi,
             ps_lqi_min = min_opt (pl_lqi s), ps_lqi_mean = lqi\<rparr>))))))"

section \<open>Criteria\<close>

record packet_criteria =
  pc_min_received :: "int option"
  pc_first :: "int option"
  pc_last :: "int option"
  pc_max_gaps :: "int option"
  pc_max_rx_gaps :: "int option"
  pc_max_faults :: "int option"
  pc_max_boots :: "int option"
  pc_max_arrival :: "int option"

definition show_opt :: "int option \<Rightarrow> string" where
  "show_opt v = (case v of None \<Rightarrow> ''None'' | Some n \<Rightarrow> show_int n)"

text \<open>A criterion that is not given cannot fail.\<close>

definition fails :: "int option \<Rightarrow> (int \<Rightarrow> bool) \<Rightarrow> (int \<Rightarrow> string) \<Rightarrow> string list" where
  "fails c bad msg = (case c of None \<Rightarrow> [] | Some n \<Rightarrow> if bad n then [msg n] else [])"

definition exceeds :: "string \<Rightarrow> string \<Rightarrow> int \<Rightarrow> int option \<Rightarrow> string list" where
  "exceeds label limit_label value c =
     fails c (\<lambda>n. n < value) (\<lambda>n. label @ '' '' @ show_int value @ '' > '' @ limit_label @ '' '' @ show_int n)"

definition criteria_failures :: "packet_criteria \<Rightarrow> packet_summary \<Rightarrow> string list" where
  "criteria_failures c s =
     fails (pc_min_received c) (\<lambda>n. int (ps_received s) < n)
       (\<lambda>n. ''received_packets '' @ show_int (int (ps_received s)) @ '' < min_received '' @ show_int n) @
     fails (pc_first c) (\<lambda>n. ps_first s \<noteq> Some n)
       (\<lambda>n. ''first_sequence '' @ show_opt (ps_first s) @ '' != expected '' @ show_int n) @
     fails (pc_last c) (\<lambda>n. ps_last s \<noteq> Some n)
       (\<lambda>n. ''last_sequence '' @ show_opt (ps_last s) @ '' != expected '' @ show_int n) @
     exceeds ''sequence_gaps'' ''max_sequence_gaps'' (ps_sequence_gaps s) (pc_max_gaps c) @
     exceeds ''rx_gap_events'' ''max_rx_gap_events'' (int (ps_rx_gap_events s)) (pc_max_rx_gaps c) @
     exceeds ''fault_events'' ''max_fault_events'' (int (ps_fault_events s)) (pc_max_faults c) @
     exceeds ''boot_events'' ''max_boot_events'' (int (ps_boot_events s)) (pc_max_boots c) @
     (case ps_arrival_max s of None \<Rightarrow> []
      | Some m \<Rightarrow> exceeds ''inter_arrival_max_us'' ''max_inter_arrival_us'' m (pc_max_arrival c))"

definition any_criterion :: "packet_criteria \<Rightarrow> bool" where
  "any_criterion c \<longleftrightarrow> pc_min_received c \<noteq> None \<or> pc_first c \<noteq> None \<or> pc_last c \<noteq> None \<or> pc_max_gaps c \<noteq> None \<or>
     pc_max_rx_gaps c \<noteq> None \<or> pc_max_faults c \<noteq> None \<or> pc_max_boots c \<noteq> None \<or> pc_max_arrival c \<noteq> None"

text \<open>The summary, and the failures where a criterion was given (the run passes when there is none).\<close>

definition analyze_packets :: "csv_row list \<Rightarrow> packet_criteria \<Rightarrow> (packet_summary \<times> string list option) result" where
  "analyze_packets rows c =
     bind (bind (read_log rows) packet_summary_of) (\<lambda>s.
       Inr (s, if any_criterion c then Some (criteria_failures c s) else None))"

section \<open>Missing sequence numbers\<close>

lemma gap_sum_sorted:
  "sorted xs \<Longrightarrow> xs \<noteq> [] \<Longrightarrow> gap_sum xs = last xs - hd xs + 1 - int (card (set xs))"
proof (induction xs rule: gap_sum.induct)
  case (1 p c xs)
  have le: "p \<le> c" using 1(2) by simp
  have IH: "gap_sum (c # xs) = last (c # xs) - c + 1 - int (card (set (c # xs)))" using 1 by simp
  show ?case
  proof (cases "p = c")
    case True
    then show ?thesis using IH by (simp add: insert_absorb)
  next
    case False
    then have "p \<notin> set (c # xs)" using 1(2) by auto
    then have "card (set (p # c # xs)) = Suc (card (set (c # xs)))" by simp
    then show ?thesis using IH False le by simp
  qed
qed auto

lemma sequence_gaps_count:
  assumes "xs \<noteq> []"
  shows "sequence_gaps xs = int (card ({Min (set xs)..Max (set xs)} - set xs))"
proof -
  have s: "sort xs \<noteq> []" using assms by (metis length_0_conv length_sort)
  have h: "hd (sort xs) = Min (set xs)"
  proof (rule sym, rule Min_eqI)
    show "hd (sort xs) \<in> set xs" using s by (metis hd_in_set set_sort)
    fix y assume "y \<in> set xs"
    then have "y \<in> set (sort xs)" by simp
    then show "hd (sort xs) \<le> y" using s sorted_sort[of xs] by (cases "sort xs") auto
  qed simp
  have l: "last (sort xs) = Max (set xs)"
  proof (rule sym, rule Max_eqI)
    show "last (sort xs) \<in> set xs" using s by (metis last_in_set set_sort)
    fix y assume "y \<in> set xs"
    then obtain i where i: "i < length (sort xs)" "y = sort xs ! i" by (metis in_set_conv_nth set_sort)
    then show "y \<le> last (sort xs)" using s sorted_nth_mono[OF sorted_sort[of xs], of i "length xs - 1"]
      by (simp add: last_conv_nth)
  qed simp
  have sub: "set xs \<subseteq> {Min (set xs)..Max (set xs)}" by auto
  have le: "Min (set xs) \<le> Max (set xs)" using assms by simp
  have "int (card ({Min (set xs)..Max (set xs)} - set xs)) = int (card {Min (set xs)..Max (set xs)}) - int (card (set xs))"
    using card_mono[OF _ sub] sub by (simp only: card_Diff_subset finite_set of_nat_diff finite_atLeastAtMost_int)
  also have "\<dots> = Max (set xs) - Min (set xs) + 1 - int (card (set xs))" using le by simp
  finally show ?thesis unfolding sequence_gaps_def gap_sum_sorted[OF sorted_sort s] h l by simp
qed

section \<open>Properties\<close>

text \<open>The sequence gaps a packet-pair analysis reports, summed over the neighbours of the
  sorted list of received numbers, are the numbers between the first and the last that were never
  received; duplicates and reordering do not matter.\<close>

theorem sequence_gaps_are_missing:
  "sequence_gaps xs = (if xs = [] then 0 else int (card ({Min (set xs)..Max (set xs)} - set xs)))"
  using sequence_gaps_count[of xs] by (simp add: sequence_gaps_def)

lemma fails_silent: "fails c bad msg = [] \<longleftrightarrow> (case c of None \<Rightarrow> True | Some n \<Rightarrow> \<not> bad n)"
  by (simp add: fails_def split: option.split)

text \<open>A run with criteria has no failure exactly when each criterion that was given
  holds: enough packets, the expected first and last number, and no more gaps, events or inter-arrival
  time than allowed; the inter-arrival limit is not tested when fewer than two arrival times were read.\<close>

theorem criteria_met:
  "criteria_failures c s = [] \<longleftrightarrow>
     (case pc_min_received c of None \<Rightarrow> True | Some n \<Rightarrow> n \<le> int (ps_received s)) \<and>
     (case pc_first c of None \<Rightarrow> True | Some n \<Rightarrow> ps_first s = Some n) \<and>
     (case pc_last c of None \<Rightarrow> True | Some n \<Rightarrow> ps_last s = Some n) \<and>
     (case pc_max_gaps c of None \<Rightarrow> True | Some n \<Rightarrow> ps_sequence_gaps s \<le> n) \<and>
     (case pc_max_rx_gaps c of None \<Rightarrow> True | Some n \<Rightarrow> int (ps_rx_gap_events s) \<le> n) \<and>
     (case pc_max_faults c of None \<Rightarrow> True | Some n \<Rightarrow> int (ps_fault_events s) \<le> n) \<and>
     (case pc_max_boots c of None \<Rightarrow> True | Some n \<Rightarrow> int (ps_boot_events s) \<le> n) \<and>
     (case (pc_max_arrival c, ps_arrival_max s) of (Some n, Some m) \<Rightarrow> m \<le> n | _ \<Rightarrow> True)"
  by (simp add: criteria_failures_def exceeds_def fails_silent not_less split: option.split)

end
