(* ===== verification/Attenuation_Sweep.thy ===== *)
theory Attenuation_Sweep
  imports Metrics Py_Json
begin

text \<open>
  \<^verbatim>\<open>tools/analyze_attenuation_sweep.py\<close>: packet error rates over the steps of a controlled attenuation
  run.  The files are the JSON values they hold; \<open>show\<close> stands for \<^verbatim>\<open>str\<close>.
\<close>

definition load_summaries :: "pyval \<Rightarrow> pyval list result" where
  "load_summaries data =
     (case data of
        PList xs \<Rightarrow> Inr (filter is_dict xs)
      | PDict d \<Rightarrow> Inr [PDict d]
      | _ \<Rightarrow> Inl (ValueError ''must contain a JSON object or list of objects''))"

text \<open>\<^verbatim>\<open>_number\<close>: what \<^verbatim>\<open>float\<close> rejects as a type or a value counts as absent; an integer beyond the float
  range still raises.\<close>

definition opt_number :: "pyval \<Rightarrow> pyfloat option result" where
  "opt_number v =
     (if v = PNone then Inr None
      else case py_float v of
          Inr x \<Rightarrow> Inr (Some x)
        | Inl TypeError \<Rightarrow> Inr None
        | Inl (ValueError _) \<Rightarrow> Inr None
        | Inl e \<Rightarrow> Inl e)"

definition int_number :: "pyval \<Rightarrow> int option result" where
  "int_number v =
     bind (opt_number v) (\<lambda>n. case n of None \<Rightarrow> Inr None | Some x \<Rightarrow> bind (py_int (PFloat x)) (Inr \<circ> Some))"

definition label_keys :: "string list" where
  "label_keys = [''attenuation_db'', ''attenuation'', ''step'', ''label'']"

definition field :: "pyval \<Rightarrow> string \<Rightarrow> pyval result" where
  "field v k = get_default v k PNone"

fun step_label :: "(pyval \<Rightarrow> string) \<Rightarrow> pyval \<Rightarrow> string list \<Rightarrow> string \<Rightarrow> string result" where
  "step_label show summary [] fallback = Inr fallback"
| "step_label show summary (k # ks) fallback =
     bind (field summary k) (\<lambda>v.
       if v = PNone \<or> v = PStr '''' then step_label show summary ks fallback else Inr (py_str show v))"

section \<open>One step\<close>

definition copied_fields :: "string list" where
  "copied_fields = [''rx_port'', ''tx_port'', ''rf_path'', ''tx_power_dbm'', ''actual_tx_power_dbm'', ''payload_bytes'']"

record step_summary =
  st_label :: string
  st_copied :: "(string \<times> pyval) list"
  st_requested :: "int option"
  st_transmitted :: "int option"
  st_rx_count :: "int option"
  st_lost :: "int option"
  st_crc_drop :: "int option"
  st_delivery :: "pyfloat option"
  st_error_rate :: "pyfloat option"

text \<open>\<^verbatim>\<open>transmitted or requested or 0\<close>.\<close>

definition denominator_of :: "int option \<Rightarrow> int option \<Rightarrow> int" where
  "denominator_of transmitted requested =
     (case transmitted of
        Some t \<Rightarrow> if t \<noteq> 0 then t else (case requested of Some r \<Rightarrow> r | None \<Rightarrow> 0)
      | None \<Rightarrow> (case requested of Some r \<Rightarrow> r | None \<Rightarrow> 0))"

definition delivery_of :: "pyfloat option \<Rightarrow> int \<Rightarrow> int option \<Rightarrow> pyfloat option result" where
  "delivery_of given d rx =
     (case (given, rx) of
        (None, Some n) \<Rightarrow> if 0 < d then bind (int_truediv n d) (Inr \<circ> Some) else Inr None
      | _ \<Rightarrow> Inr given)"

definition summarize_step :: "(pyval \<Rightarrow> string) \<Rightarrow> pyval \<Rightarrow> string \<Rightarrow> step_summary result" where
  "summarize_step show summary fallback =
     bind (bind (field summary ''transmitted_packets'') int_number) (\<lambda>transmitted.
     bind (bind (field summary ''rx_count'') int_number) (\<lambda>rx.
     bind (bind (field summary ''requested_packets'') int_number) (\<lambda>requested.
     bind (bind (field summary ''rx_crc_drop'') int_number) (\<lambda>crc.
     bind (bind (field summary ''delivery_ratio'') opt_number) (\<lambda>given.
       let d = denominator_of transmitted requested
       in bind (delivery_of given d rx) (\<lambda>delivery.
          bind (step_label show summary label_keys fallback) (\<lambda>label.
          bind (map_res (\<lambda>k. bind (field summary k) (\<lambda>v. Inr (k, v))) copied_fields) (\<lambda>copied.
            Inr \<lparr>st_label = label, st_copied = copied, st_requested = requested, st_transmitted = transmitted,
              st_rx_count = rx, st_lost = (case rx of Some n \<Rightarrow> if 0 < d then Some (d - n) else None | None \<Rightarrow> None),
              st_crc_drop = crc, st_delivery = delivery, st_error_rate = map_option (fsub (Fin 1)) delivery\<rparr>))))))))"

section \<open>The sweep\<close>

definition valid_step :: "step_summary \<Rightarrow> bool" where
  "valid_step s \<longleftrightarrow> st_transmitted s \<noteq> None \<and> st_transmitted s \<noteq> Some 0 \<and> st_rx_count s \<noteq> None"

definition degraded_step :: "pyfloat \<Rightarrow> step_summary \<Rightarrow> bool" where
  "degraded_step threshold s \<longleftrightarrow> (case st_error_rate s of None \<Rightarrow> False | Some r \<Rightarrow> fle threshold r)"

text \<open>\<^verbatim>\<open>step["packet_error_rate"] or 0.0\<close>.\<close>

definition rate_key :: "step_summary \<Rightarrow> pyfloat" where
  "rate_key s = (case st_error_rate s of None \<Rightarrow> Fin 0 | Some r \<Rightarrow> r)"

definition worst_of :: "step_summary list \<Rightarrow> step_summary option" where
  "worst_of ss = (case ss of [] \<Rightarrow> None | s # r \<Rightarrow> Some (foldl (\<lambda>w t. if flt (rate_key w) (rate_key t) then t else w) s r))"

definition fallback_label :: "string list option \<Rightarrow> nat \<Rightarrow> string" where
  "fallback_label labels i = (case labels of Some ls \<Rightarrow> ls ! i | None \<Rightarrow> ''step-'' @ show_int (int i + 1))"

record sweep_summary =
  sw_steps :: "step_summary list"
  sw_valid :: nat
  sw_degraded :: nat
  sw_worst :: "step_summary option"
  sw_pass :: bool

definition analyze_attenuation :: "(pyval \<Rightarrow> string) \<Rightarrow> pyval list \<Rightarrow> string list option \<Rightarrow> int \<Rightarrow> bool \<Rightarrow> pyfloat \<Rightarrow>
    sweep_summary result" where
  "analyze_attenuation show files labels min_steps require_degraded min_rate =
     bind (map_res load_summaries files) (\<lambda>parts.
       let loaded = concat parts
       in if (case labels of Some ls \<Rightarrow> length ls \<noteq> length loaded | None \<Rightarrow> False)
          then Inl (ValueError ''--labels count must match the number of loaded summaries'')
          else bind (map_res (\<lambda>(i, s). summarize_step show s (fallback_label labels i)) (enumerate 0 loaded)) (\<lambda>steps.
            let valid = filter valid_step steps; degraded = filter (degraded_step min_rate) valid
            in Inr \<lparr>sw_steps = steps, sw_valid = length valid, sw_degraded = length degraded, sw_worst = worst_of valid,
                 sw_pass = min_steps \<le> int (length valid) \<and> (require_degraded \<longrightarrow> degraded \<noteq> [])\<rparr>))"

section \<open>Facts\<close>

lemma summarize_step_lost:
  assumes "summarize_step show v f = Inr s" "st_rx_count s = Some n" "st_transmitted s = Some t" "0 < t"
  shows "st_lost s = Some (t - n)"
proof -
  have "st_lost s = (case st_rx_count s of Some n \<Rightarrow>
      if 0 < denominator_of (st_transmitted s) (st_requested s)
      then Some (denominator_of (st_transmitted s) (st_requested s) - n) else None | None \<Rightarrow> None)"
    using assms(1) by (auto simp: summarize_step_def bind_eq_Inr Let_def split: option.split)
  then show ?thesis using assms(2-4) by (simp add: denominator_of_def)
qed

lemma summarize_step_rate:
  assumes "summarize_step show v f = Inr s"
  shows "st_error_rate s = map_option (fsub (Fin 1)) (st_delivery s)"
  using assms by (auto simp: summarize_step_def bind_eq_Inr Let_def)

text \<open>The worst step is not beaten by any valid step.\<close>

lemma worst_fold:
  "rate_key s \<noteq> NaN \<Longrightarrow> \<forall>t \<in> set ts. rate_key t \<noteq> NaN \<Longrightarrow>
   w = foldl (\<lambda>w t. if flt (rate_key w) (rate_key t) then t else w) s ts \<Longrightarrow>
   w \<in> set (s # ts) \<and> (\<forall>t \<in> set (s # ts). rate_key t \<le> rate_key w)"
proof (induction ts arbitrary: s)
  case (Cons t ts)
  let ?s = "if flt (rate_key s) (rate_key t) then t else s"
  have I: "w \<in> set (?s # ts) \<and> (\<forall>u \<in> set (?s # ts). rate_key u \<le> rate_key w)"
    using Cons.prems by (intro Cons.IH) simp_all
  have "rate_key s \<le> rate_key ?s" "rate_key t \<le> rate_key ?s" using Cons.prems by (auto simp: flt_less)
  with I have "rate_key s \<le> rate_key w" "rate_key t \<le> rate_key w" by (meson list.set_intros(1) order_trans)+
  with I show ?case by (auto split: if_splits)
qed simp

section \<open>Properties\<close>

lemma analyze_attenuation_Inr:
  assumes "analyze_attenuation show files labels min_steps rd rate = Inr r"
  shows "sw_valid r = length (filter valid_step (sw_steps r)) \<and>
    sw_degraded r = length (filter (degraded_step rate) (filter valid_step (sw_steps r))) \<and>
    sw_worst r = worst_of (filter valid_step (sw_steps r)) \<and>
    sw_pass r = (min_steps \<le> int (sw_valid r) \<and> (rd \<longrightarrow> filter (degraded_step rate) (filter valid_step (sw_steps r)) \<noteq> []))"
  using assms by (auto simp: analyze_attenuation_def bind_eq_Inr Let_def split: if_splits)


text \<open>The worst step a sweep reports is one of its valid steps and no valid step has a
  higher packet error rate, a missing rate counting as zero.\<close>

theorem attenuation_worst:
  assumes "analyze_attenuation show files labels min_steps rd rate = Inr r" "sw_worst r = Some w"
    "\<forall>s \<in> set (sw_steps r). rate_key s \<noteq> NaN"
  shows "w \<in> set (sw_steps r) \<and> valid_step w \<and> (\<forall>s \<in> set (sw_steps r). valid_step s \<longrightarrow> rate_key s \<le> rate_key w)"
proof -
  let ?v = "filter valid_step (sw_steps r)"
  have w: "worst_of ?v = Some w" using analyze_attenuation_Inr[OF assms(1)] assms(2) by simp
  then obtain s ts where v: "?v = s # ts" by (cases ?v) (simp_all add: worst_of_def)
  have sub: "set (s # ts) \<subseteq> set (sw_steps r)" unfolding v[symmetric] by auto
  have "w \<in> set (s # ts) \<and> (\<forall>t \<in> set (s # ts). rate_key t \<le> rate_key w)"
    by (rule worst_fold) (use w v sub assms(3) in \<open>auto simp: worst_of_def\<close>)
  then show ?thesis unfolding v[symmetric] by auto
qed

definition sample_step :: "int \<Rightarrow> pyval" where
  "sample_step ratio = PDict [(''transmitted_packets'', PInt 4), (''rx_count'', PInt (4 * ratio)), (''delivery_ratio'', PInt ratio)]"

lemma sample_sweep:
  "\<exists>r w. analyze_attenuation (\<lambda>_. []) [sample_step 1, sample_step 0] None 2 True (Fin 1) = Inr r \<and> sw_worst r = Some w \<and>
     sw_pass r \<and> rate_key w = Fin 1 \<and> (\<forall>s \<in> set (sw_steps r). rate_key s \<noteq> NaN)"
  by (simp add: analyze_attenuation_def sample_step_def load_summaries_def summarize_step_def field_def int_number_def
    opt_number_def trunc_rat_def float_of_int_eval to_float_eval denominator_of_def delivery_of_def
    label_keys_def copied_fields_def fallback_label_def fsub_def valid_step_def degraded_step_def worst_of_def rate_key_def
    Let_def)

theorem attenuation_worst_witness:
  "\<exists>r w. analyze_attenuation (\<lambda>_. []) [sample_step 1, sample_step 0] None 2 True (Fin 1) = Inr r \<and>
     w \<in> set (sw_steps r) \<and> valid_step w \<and> rate_key w = Fin 1"
proof -
  obtain r w where r: "analyze_attenuation (\<lambda>_. []) [sample_step 1, sample_step 0] None 2 True (Fin 1) = Inr r"
    "sw_worst r = Some w" "\<forall>s \<in> set (sw_steps r). rate_key s \<noteq> NaN" "rate_key w = Fin 1"
    using sample_sweep by blast
  then show ?thesis using attenuation_worst[OF r(1-3)] by blast
qed

end
