(* ===== verification/Production_Record.thy ===== *)
theory Production_Record
  imports Py_Json
begin

text \<open>
  \<^verbatim>\<open>tools/validate_production_test_record.py\<close>: the fail-closed checks of a production test record.
\<close>

definition DISPOSITIONS :: "string list" where
  "DISPOSITIONS = [''PASS'', ''REWORK'', ''SCRAP'', ''QUARANTINE'']"

definition OUTCOMES :: "string list" where
  "OUTCOMES = [''PASS'', ''FAIL'', ''SKIP'']"

definition DEVICE_STATES :: "string list" where
  "DEVICE_STATES = [''BLANK'', ''FACTORY_TEST'', ''IDENTITY_INSTALLED'', ''PRODUCTION_LOCKED'', ''QUARANTINED'', ''RETIRED'']"

definition required_fields :: "string list" where
  "required_fields = [''record_version'', ''unit_serial'', ''pcb_lot'', ''fixture_id'', ''station_id'',
     ''limit_set_revision'', ''firmware'', ''steps'', ''disposition'', ''provisioning_anomaly'', ''device_state'',
     ''identity_fingerprint'']"

section \<open>Measurements\<close>

text \<open>\<^verbatim>\<open>a < b\<close> on two values that are numbers.\<close>

definition num_less :: "pyval \<Rightarrow> pyval \<Rightarrow> bool" where
  "num_less a b \<longleftrightarrow> py_less a b = Inr True"

definition limit_errors :: "string \<Rightarrow> pyval \<Rightarrow> pyval \<Rightarrow> pyval \<Rightarrow> string list" where
  "limit_errors label value minimum maximum =
     (if \<not> is_plain_number value then [label @ ''.value must be numeric'']
      else if minimum \<noteq> PNone \<and> \<not> is_plain_number minimum then [label @ ''.minimum must be numeric or null'']
      else if maximum \<noteq> PNone \<and> \<not> is_plain_number maximum then [label @ ''.maximum must be numeric or null'']
      else msg_if (minimum \<noteq> PNone \<and> maximum \<noteq> PNone \<and> num_less maximum minimum) (label @ '' minimum exceeds maximum'') @
           msg_if (minimum \<noteq> PNone \<and> num_less value minimum) (label @ ''.value is below minimum'') @
           msg_if (maximum \<noteq> PNone \<and> num_less maximum value) (label @ ''.value is above maximum''))"

definition measurement_errors :: "bool \<Rightarrow> string \<Rightarrow> pyval \<Rightarrow> string list" where
  "measurement_errors limits_required label m =
     (if \<not> is_dict m then [label @ '' must be an object'']
      else let minimum = dget m ''minimum'' PNone; maximum = dget m ''maximum'' PNone
        in msg_if (\<not> py_truth (dget m ''name'' PNone) \<or> \<not> py_truth (dget m ''unit'' PNone)) (label @ '' requires name and unit'') @
           msg_if (contains_key m ''value'' \<noteq> Inr True) (label @ ''.value is missing'') @
           msg_if (limits_required \<and> minimum = PNone \<and> maximum = PNone) (label @ '' has no acceptance limit'') @
           limit_errors label (dget m ''value'' PNone) minimum maximum)"

definition measurements_errors :: "bool \<Rightarrow> string \<Rightarrow> pyval list \<Rightarrow> string list" where
  "measurements_errors limits_required prefix ms =
     concat (map (\<lambda>(j, m). measurement_errors limits_required (prefix @ ''.measurements['' @ show_int (int j) @ '']'') m)
       (enumerate 0 ms))"

section \<open>Steps\<close>

record step_state =
  failed :: bool
  seen_ids :: "string list"

definition step_prefix :: "nat \<Rightarrow> string" where
  "step_prefix i = ''steps['' @ show_int (int i) @ '']''"

definition measurement_report :: "string \<Rightarrow> pyval \<Rightarrow> string list" where
  "measurement_report prefix step =
     (case dget step ''measurements'' (PList []) of
        PList ms \<Rightarrow>
          (let required = py_truth (dget step ''limits_required'' (PBool False))
           in msg_if (required \<and> ms = []) (prefix @ '' requires at least one bounded measurement'') @
              measurements_errors required prefix ms)
      | _ \<Rightarrow> [prefix @ ''.measurements must be a list''])"

definition check_step :: "(pyval \<Rightarrow> string) \<Rightarrow> nat \<times> pyval \<Rightarrow> step_state \<Rightarrow> (string list \<times> step_state) result" where
  "check_step show = (\<lambda>(i, step) s.
     (let prefix = step_prefix i
      in if \<not> is_dict step then Inr ([prefix @ '' must be an object''], s)
         else let test_id = str_of show (dget step ''test_id'' (PStr '''')); outcome = dget step ''outcome'' PNone
           in bind (in_strings outcome OUTCOMES) (\<lambda>known.
             Inr (msg_if (test_id = [] \<or> test_id \<in> set (seen_ids s)) (prefix @ ''.test_id is missing or duplicated'') @
                  msg_if (\<not> known) (prefix @ ''.outcome is invalid'') @
                  msg_if (outcome = PStr ''FAIL'' \<and> \<not> py_truth (dget step ''failure_code'' PNone))
                    (prefix @ ''.failure_code required for FAIL'') @
                  msg_if (outcome = PStr ''SKIP'' \<and> \<not> py_truth (dget step ''skip_authorization'' PNone))
                    (prefix @ ''.skip_authorization required for SKIP'') @
                  measurement_report prefix step,
                  \<lparr>failed = failed s \<or> outcome = PStr ''FAIL'', seen_ids = test_id # seen_ids s\<rparr>))))"

section \<open>The record\<close>

definition head_report :: "(pyval \<Rightarrow> string) \<Rightarrow> pyval \<Rightarrow> report" where
  "head_report show record =
     all_of
       [say (bind (getitem record ''disposition'') (\<lambda>v. not_res (in_strings v DISPOSITIONS))) ''invalid disposition'',
        say (bind (getitem record ''record_version'') (\<lambda>v. Inr (\<not> py_eq v (PInt 2)))) ''record_version must be 2'',
        say (bind (getitem record ''device_state'') (\<lambda>v. not_res (in_strings v DEVICE_STATES))) ''invalid device_state'',
        say (bind (getitem record ''identity_fingerprint'') (\<lambda>v. Inr (\<not> hex_digits 16 (str_of show v))))
          ''identity_fingerprint must be 8-byte lowercase hex'']"

definition firmware_report :: "(pyval \<Rightarrow> string) \<Rightarrow> pyval \<Rightarrow> string list" where
  "firmware_report show firmware =
     concat (map (\<lambda>p. msg_if (\<not> hex_digits 64 (str_of show (dget firmware p (PStr ''''))))
       (''firmware.'' @ p @ '' must be lowercase SHA-256'')) [''radio_sha256'', ''audio_sha256''])"

definition step_passes :: "pyval \<Rightarrow> bool" where
  "step_passes step \<longleftrightarrow> is_dict step \<and> dget step ''outcome'' PNone = PStr ''PASS''"

definition tail_errors :: "pyval \<Rightarrow> pyval \<Rightarrow> pyval \<Rightarrow> bool \<Rightarrow> pyval list \<Rightarrow> string list" where
  "tail_errors anomaly disposition state step_failed steps =
     msg_if (\<not> is_bool anomaly) ''provisioning_anomaly must be boolean'' @
     msg_if (py_truth anomaly \<and> disposition \<noteq> PStr ''QUARANTINE'') ''provisioning anomaly requires QUARANTINE'' @
     msg_if (py_truth anomaly \<and> state \<noteq> PStr ''QUARANTINED'') ''provisioning anomaly requires QUARANTINED device_state'' @
     msg_if (step_failed \<and> disposition = PStr ''PASS'') ''failed step prohibits PASS disposition'' @
     msg_if (disposition = PStr ''PASS'' \<and> list_ex (\<lambda>s. \<not> step_passes s) steps) ''PASS disposition requires every step to pass'' @
     msg_if (disposition = PStr ''PASS'' \<and> state \<noteq> PStr ''PRODUCTION_LOCKED'')
       ''PASS disposition requires PRODUCTION_LOCKED device_state'' @
     msg_if (disposition = PStr ''QUARANTINE'' \<and> state \<noteq> PStr ''QUARANTINED'')
       ''QUARANTINE disposition requires QUARANTINED device_state''"

definition missing_fields :: "pyval \<Rightarrow> report" where
  "missing_fields record =
     all_of (map (\<lambda>f. say (not_res (contains_key record f)) (''missing '' @ f)) required_fields)"

definition steps_report :: "(pyval \<Rightarrow> string) \<Rightarrow> pyval \<Rightarrow> pyval list \<Rightarrow> report" where
  "steps_report show record steps =
     bind (fold_report (check_step show) (enumerate 0 steps) \<lparr>failed = False, seen_ids = []\<rparr>) (\<lambda>(es, st).
     bind (getitem record ''provisioning_anomaly'') (\<lambda>anomaly.
     bind (getitem record ''disposition'') (\<lambda>disposition.
     bind (getitem record ''device_state'') (\<lambda>state.
       Inr (es @ tail_errors anomaly disposition state (failed st) steps)))))"

definition record_body :: "(pyval \<Rightarrow> string) \<Rightarrow> pyval \<Rightarrow> pyval \<Rightarrow> pyval \<Rightarrow> report" where
  "record_body show record steps firmware =
     (case steps of
        PList (s # ss) \<Rightarrow>
          if \<not> is_dict firmware then Inr [''firmware must be an object'']
          else all_of [Inr (firmware_report show firmware), steps_report show record (s # ss)]
      | _ \<Rightarrow> Inr [''steps must be a nonempty list''])"

definition validate_record :: "(pyval \<Rightarrow> string) \<Rightarrow> pyval \<Rightarrow> report" where
  "validate_record show record =
     bind (missing_fields record) (\<lambda>missing.
     if missing \<noteq> [] then Inr missing
     else bind (head_report show record) (\<lambda>head.
          bind (getitem record ''steps'') (\<lambda>steps.
          bind (getitem record ''firmware'') (\<lambda>firmware.
          bind (record_body show record steps firmware) (\<lambda>es. Inr (head @ es))))))"

section \<open>What an accepted record holds\<close>

definition within_limits :: "pyval \<Rightarrow> bool" where
  "within_limits m \<longleftrightarrow> is_dict m \<and> is_plain_number (dget m ''value'' PNone) \<and>
     (dget m ''minimum'' PNone = PNone \<or> \<not> num_less (dget m ''value'' PNone) (dget m ''minimum'' PNone)) \<and>
     (dget m ''maximum'' PNone = PNone \<or> \<not> num_less (dget m ''maximum'' PNone) (dget m ''value'' PNone))"

lemma measurement_errors_silent: "measurement_errors r l m = [] \<Longrightarrow> within_limits m"
  by (auto simp: measurement_errors_def limit_errors_def within_limits_def Let_def split: if_splits)

lemma measurements_errors_silent:
  assumes "measurements_errors r p ms = []" "m \<in> set ms"
  shows "within_limits m"
proof -
  obtain j where "j < length ms" "ms ! j = m" using assms(2) by (auto simp: in_set_conv_nth)
  then have "(j, m) \<in> set (enumerate 0 ms)" by (auto simp: in_set_enumerate_eq)
  then have "measurement_errors r (p @ ''.measurements['' @ show_int (int j) @ '']'') m = []"
    using assms(1) by (auto simp: measurements_errors_def)
  then show ?thesis by (rule measurement_errors_silent)
qed

text \<open>A step that raised no message: its measurements are a list, each within its limits, and there is one
  where limits are required.\<close>

definition sound_step :: "pyval \<Rightarrow> bool" where
  "sound_step step \<longleftrightarrow> is_dict step \<and> (case dget step ''measurements'' (PList []) of
     PList ms \<Rightarrow> list_all within_limits ms \<and> (ms \<noteq> [] \<or> \<not> py_truth (dget step ''limits_required'' (PBool False)))
   | _ \<Rightarrow> False)"

lemma check_step_silent:
  assumes "check_step show (i, step) s = Inr ([], s')"
  shows "sound_step step \<and> str_of show (dget step ''test_id'' (PStr '''')) \<notin> set (seen_ids s) \<and>
    str_of show (dget step ''test_id'' (PStr '''')) \<noteq> [] \<and>
    seen_ids s' = str_of show (dget step ''test_id'' (PStr '''')) # seen_ids s"
proof -
  have d: "is_dict step" using assms by (auto simp: check_step_def Let_def split: if_splits)
  with assms have m: "measurement_report (step_prefix i) step = []"
    and t: "str_of show (dget step ''test_id'' (PStr '''')) \<notin> set (seen_ids s)"
      "str_of show (dget step ''test_id'' (PStr '''')) \<noteq> []"
      "seen_ids s' = str_of show (dget step ''test_id'' (PStr '''')) # seen_ids s"
    by (auto simp: check_step_def Let_def bind_eq_Inr)
  have "sound_step step"
    using d m by (auto simp: measurement_report_def sound_step_def Let_def list_all_iff
      dest: measurements_errors_silent split: pyval.splits)
  with t show ?thesis by blast
qed

definition test_ids :: "(pyval \<Rightarrow> string) \<Rightarrow> pyval list \<Rightarrow> string list" where
  "test_ids show steps = map (\<lambda>s. str_of show (dget s ''test_id'' (PStr ''''))) steps"

lemma check_steps_silent:
  assumes "fold_report (check_step show) (enumerate 0 steps) \<lparr>failed = False, seen_ids = []\<rparr> = Inr ([], st)"
  shows "list_all sound_step steps \<and> distinct (test_ids show steps) \<and> [] \<notin> set (test_ids show steps)"
proof -
  obtain ts where ts: "ts ! 0 = \<lparr>failed = False, seen_ids = []\<rparr>"
    "\<forall>i < length steps. check_step show (enumerate 0 steps ! i) (ts ! i) = Inr ([], ts ! Suc i)"
    using fold_report_Inr[OF assms] by auto
  have step: "check_step show (i, steps ! i) (ts ! i) = Inr ([], ts ! Suc i)" if "i < length steps" for i
    using ts(2) that by (simp add: nth_enumerate_eq)
  note silent = check_step_silent[OF step]
  have seen: "i \<le> length steps \<Longrightarrow> seen_ids (ts ! i) = rev (take i (test_ids show steps))" for i
  proof (induction i)
    case (Suc i)
    then show ?case using silent[of i] by (simp add: test_ids_def take_Suc_conv_app_nth)
  qed (simp add: ts(1))
  have fresh: "test_ids show steps ! i \<notin> set (take i (test_ids show steps)) \<and> test_ids show steps ! i \<noteq> []"
    if "i < length steps" for i
    using silent[OF that] seen[of i] that by (simp add: test_ids_def)
  have "distinct (test_ids show steps)"
    unfolding distinct_conv_nth
  proof (intro allI impI)
    fix i j assume ij: "i < length (test_ids show steps)" "j < length (test_ids show steps)" "i \<noteq> j"
    have "test_ids show steps ! a \<noteq> test_ids show steps ! b" if "a < b" "b < length (test_ids show steps)" for a b
      using fresh[of b] that by (auto simp: test_ids_def in_set_conv_nth)
    then show "test_ids show steps ! i \<noteq> test_ids show steps ! j" using ij by (metis linorder_neqE_nat)
  qed
  moreover have "[] \<notin> set (test_ids show steps)"
  proof
    assume "[] \<in> set (test_ids show steps)"
    then obtain i where "i < length (test_ids show steps)" "test_ids show steps ! i = []"
      by (auto simp: in_set_conv_nth)
    then show False using fresh[of i] by (simp add: test_ids_def)
  qed
  moreover have "list_all sound_step steps" using silent by (auto simp: list_all_length)
  ultimately show ?thesis by blast
qed

lemma validate_record_silent:
  assumes "validate_record show record = Inr []"
  obtains steps disposition anomaly state where
    "getitem record ''steps'' = Inr (PList steps)" "steps \<noteq> []"
    "getitem record ''disposition'' = Inr disposition" "getitem record ''device_state'' = Inr state"
    "getitem record ''provisioning_anomaly'' = Inr anomaly"
    "list_all sound_step steps" "distinct (test_ids show steps)" "[] \<notin> set (test_ids show steps)"
    "\<exists>step_failed. tail_errors anomaly disposition state step_failed steps = []"
proof -
  obtain steps firmware where g: "getitem record ''steps'' = Inr steps" "record_body show record steps firmware = Inr []"
    using assms by (auto simp: validate_record_def bind_eq_Inr split: if_splits)
  then obtain s ss where st: "steps = PList (s # ss)" and r: "steps_report show record (s # ss) = Inr []"
    by (auto simp: record_body_def split: pyval.splits list.splits if_splits)
  obtain st' anomaly disposition state where
    f: "fold_report (check_step show) (enumerate 0 (s # ss)) \<lparr>failed = False, seen_ids = []\<rparr> = Inr ([], st')"
    and d: "getitem record ''disposition'' = Inr disposition" "getitem record ''device_state'' = Inr state"
      "getitem record ''provisioning_anomaly'' = Inr anomaly"
    and t: "tail_errors anomaly disposition state (failed st') (s # ss) = []"
    using r by (auto simp: steps_report_def bind_eq_Inr simp del: enumerate_simps)
  show ?thesis
    by (rule that[of "s # ss" disposition state anomaly])
       (use check_steps_silent[OF f] t g(1) d st in \<open>auto simp del: enumerate_simps\<close>)
qed

section \<open>Properties\<close>


definition sample_measurement :: pyval where
  "sample_measurement = PDict [(''name'', PStr ''v''), (''unit'', PStr ''V''), (''value'', PInt 3), (''minimum'', PInt 1), (''maximum'', PNone)]"

definition sample_record :: pyval where
  "sample_record = PDict [(''record_version'', PInt 2), (''unit_serial'', PStr ''u''), (''pcb_lot'', PStr ''l''),
     (''fixture_id'', PStr ''f''), (''station_id'', PStr ''s''), (''limit_set_revision'', PStr ''r''),
     (''firmware'', PDict [(''radio_sha256'', PStr (replicate 64 (CHR ''a''))), (''audio_sha256'', PStr (replicate 64 (CHR ''0'')))]),
     (''steps'', PList [PDict [(''test_id'', PStr ''T1''), (''outcome'', PStr ''PASS''), (''limits_required'', PBool True),
        (''measurements'', PList [sample_measurement])]]),
     (''disposition'', PStr ''PASS''), (''provisioning_anomaly'', PBool False), (''device_state'', PStr ''PRODUCTION_LOCKED''),
     (''identity_fingerprint'', PStr (replicate 16 (CHR ''f'')))]"

lemma sample_record_accepted: "validate_record no_show sample_record = Inr []"
  by (simp add: validate_record_def missing_fields_def required_fields_def sample_record_def head_report_def record_body_def
    in_strings_def DISPOSITIONS_def DEVICE_STATES_def OUTCOMES_def not_res_def say_def py_eq_def hex_digits_def str_of_def
    list_all_iff lower_hex_def firmware_report_def steps_report_def fold_report_def check_step_def measurement_report_def
    measurements_errors_def measurement_errors_def limit_errors_def sample_measurement_def num_less_def py_less_def
    step_passes_def tail_errors_def msg_if_def Let_def)


text \<open>A measured value that is not a number at all, in the sense of IEEE 754, is within any limits: no
  comparison with it holds, so no message is raised.\<close>

lemma nan_measurement_accepted:
  "measurement_errors True label (PDict [(''name'', PStr ''v''), (''unit'', PStr ''V''), (''value'', PFloat NaN),
     (''minimum'', PInt 0), (''maximum'', PInt 1)]) = []"
  by (simp add: measurement_errors_def limit_errors_def num_less_def py_less_def msg_if_def)

end
