(* ===== verification/Py_Path.thy ===== *)
theory Py_Path
  imports Py_Text Py_Format
begin

text \<open>
  What the tools use of \<^verbatim>\<open>pathlib\<close>, for POSIX paths: parts, name, suffix, stem, and the texts of a path and
  of a path with another name.  Also substring tests, first-separator splits and joins of strings.
\<close>

fun has_sub :: "string \<Rightarrow> string \<Rightarrow> bool" where
  "has_sub p [] = (p = [])"
| "has_sub p (c # s) = (starts_with (c # s) p \<or> has_sub p s)"

text \<open>\<^verbatim>\<open>s.split(c, 1)\<close>, \<open>None\<close> where \<open>c\<close> does not occur.\<close>

definition split_first :: "char \<Rightarrow> string \<Rightarrow> (string \<times> string) option" where
  "split_first c s = (if c \<in> set s then Some (takeWhile (\<lambda>x. x \<noteq> c) s, tl (dropWhile (\<lambda>x. x \<noteq> c) s)) else None)"

section \<open>Paths\<close>

definition path_root :: "string \<Rightarrow> string" where
  "path_root s = (if starts_with s ''//'' \<and> \<not> starts_with s ''///'' then ''//'' else if starts_with s ''/'' then ''/'' else [])"

definition path_parts :: "string \<Rightarrow> string list" where
  "path_parts s = filter (\<lambda>p. p \<noteq> [] \<and> p \<noteq> ''.'') (split_on (CHR ''/'') s)"

definition path_join :: "string \<Rightarrow> string list \<Rightarrow> string" where
  "path_join anchor parts = (if anchor = [] \<and> parts = [] then ''.'' else anchor @ join_with ''/'' parts)"

text \<open>\<^verbatim>\<open>str(Path(s))\<close>, and \<^verbatim>\<open>Path(anchor) / s\<close>, where an absolute \<open>s\<close> replaces the anchor.\<close>

definition path_text :: "string \<Rightarrow> string" where
  "path_text s = path_join (path_root s) (path_parts s)"

definition path_div :: "string \<Rightarrow> string \<Rightarrow> string" where
  "path_div anchor s = (if path_root s \<noteq> [] then path_text s else path_join (path_root anchor) (path_parts anchor @ path_parts s))"

definition path_name :: "string \<Rightarrow> string" where
  "path_name s = (case rev (path_parts s) of [] \<Rightarrow> [] | p # _ \<Rightarrow> p)"

text \<open>The suffix of a name starts at its last dot, unless that is the first or last character.\<close>

definition name_suffix :: "string \<Rightarrow> string" where
  "name_suffix n = (let ext = rev (takeWhile (\<lambda>c. c \<noteq> CHR ''.'') (rev n))
     in if ext \<noteq> [] \<and> Suc (length ext) < length n then CHR ''.'' # ext else [])"

definition name_stem :: "string \<Rightarrow> string" where
  "name_stem n = take (length n - length (name_suffix n)) n"

definition path_suffix :: "string \<Rightarrow> string" where
  "path_suffix s = name_suffix (path_name s)"

definition path_with_name :: "string \<Rightarrow> string \<Rightarrow> string result" where
  "path_with_name s new =
     (if path_name s = [] then Inl (ValueError ''path has an empty name'')
      else Inr (path_join (path_root s) (butlast (path_parts s) @ [new])))"

definition path_with_suffix :: "string \<Rightarrow> string \<Rightarrow> string result" where
  "path_with_suffix s suffix = path_with_name s (name_stem (path_name s) @ suffix)"

lemma path_name_nonempty: "path_suffix s \<noteq> [] \<Longrightarrow> path_name s \<noteq> []"
  by (auto simp: path_suffix_def name_suffix_def Let_def)

lemma path_with_name_ok: "path_suffix s \<noteq> [] \<Longrightarrow> \<exists>t. path_with_name s new = Inr t"
  using path_name_nonempty by (simp add: path_with_name_def)

lemma path_with_suffix_ok: "path_suffix s \<noteq> [] \<Longrightarrow> \<exists>t. path_with_suffix s suffix = Inr t"
  using path_with_name_ok by (simp add: path_with_suffix_def)

lemma has_sub_iff: "has_sub p s \<longleftrightarrow> (\<exists>u v. s = u @ p @ v)"
proof (induction p s rule: has_sub.induct)
  case (2 p c s)
  have "starts_with (c # s) p \<longleftrightarrow> (\<exists>v. c # s = p @ v)"
    by (auto simp: starts_with_def) (metis append_take_drop_id)
  then show ?case using 2 by (auto simp: Cons_eq_append_conv)
qed simp

end
