(* ===== verification/Product_Release.thy ===== *)
theory Product_Release
  imports Py_Json Py_Path Sha256
begin

text \<open>
  \<^verbatim>\<open>tools/validate_product_release_manifest.py\<close>: the checks of the product release manifest and of the
  artifacts it names.  A path is a POSIX path text; the file tree under the artifact root is the argument
  \<open>tree\<close>, which says of a relative path whether it leaves the root, names no file, or what the file holds.
\<close>

definition STATUSES :: "string list" where
  "STATUSES = [''BLOCKED'', ''FAIL'', ''PASS'']"

definition GATE_IDS :: "string list" where
  "GATE_IDS = [''NETWORK_RADIO'', ''AUDIO'', ''POWER_CHARGING'', ''FIRMWARE_SECURITY_SERVICE'',
     ''MECHANICAL_ENVIRONMENTAL'', ''HUMAN_FACTORS_STATUS'', ''MANUFACTURING_IDENTITY'', ''REGULATORY_RF'',
     ''RELEASE_DOCUMENTATION'', ''INTEGRATED_PRODUCT'']"

text \<open>\<^verbatim>\<open>f"AV-{index:03d}"\<close>.\<close>

definition test_name :: "nat \<Rightarrow> string" where
  "test_name i = ''AV-'' @ zero_pad 3 (nat_digits i)"

definition ALL_TESTS :: "string list" where
  "ALL_TESTS = map test_name [1..<41]"

definition utc_stamp :: "pyval \<Rightarrow> bool" where
  "utc_stamp v = (case v of PStr s \<Rightarrow> CHR ''T'' \<in> set s \<and> ends_with s ''Z'' | _ \<Rightarrow> False)"

definition unsafe_path :: "string \<Rightarrow> bool" where
  "unsafe_path s \<longleftrightarrow> path_text s = [] \<or> starts_with s ''/'' \<or> ''..'' \<in> set (path_parts s)"

section \<open>One gate\<close>

definition tests_invalid :: "pyval \<Rightarrow> bool result" where
  "tests_invalid v =
     (case v of
        PList (t # ts) \<Rightarrow> bind (py_set (t # ts)) (\<lambda>s.
          or_res (Inr (length s \<noteq> length (t # ts))) (any_res (\<lambda>x. not_res (in_strings x ALL_TESTS)) (t # ts)))
      | _ \<Rightarrow> Inr True)"

text \<open>The tests of a gate: none where the list is not acceptable.\<close>

definition required_tests :: "pyval \<Rightarrow> (bool \<times> pyval list) result" where
  "required_tests v = bind (tests_invalid v) (\<lambda>bad.
     Inr (bad, if bad then [] else case v of PList ts \<Rightarrow> ts | _ \<Rightarrow> []))"

text \<open>One evidence item: its messages and the tests it gives evidence for.\<close>

definition check_evidence :: "(pyval \<Rightarrow> string) \<Rightarrow> string \<Rightarrow> pyval list \<Rightarrow> pyval \<Rightarrow> string list \<times> pyval list" where
  "check_evidence show label required item =
     (if \<not> is_dict item then ([label @ '' must be an object''], [])
      else let tests = (case dget item ''test_ids'' PNone of PList (t # ts) \<Rightarrow> t # ts | _ \<Rightarrow> []);
               bad = (tests = [] \<or> list_ex (\<lambda>t. \<not> mem_eq t required) tests)
        in (msg_if (unsafe_path (str_of show (dget item ''artifact_file'' (PStr ''''))))
              (label @ '' requires a safe relative artifact_file'') @
            msg_if (\<not> hex_digits 64 (str_of show (dget item ''sha256'' (PStr '''')))) (label @ '' requires lowercase SHA-256'') @
            msg_if (\<not> utc_stamp (dget item ''executed_utc'' PNone)) (label @ '' requires executed_utc'') @
            msg_if (dget item ''result'' PNone \<noteq> PStr ''PASS'') (label @ ''.result must be PASS'') @
            msg_if bad (label @ ''.test_ids must be a nonempty subset of the gate tests''),
            if bad then [] else tests))"

definition evidence_items :: "(pyval \<Rightarrow> string) \<Rightarrow> string \<Rightarrow> pyval list \<Rightarrow> pyval list \<Rightarrow> string list \<times> pyval list" where
  "evidence_items show gate_id required items =
     (let rs = map (\<lambda>(i, item). check_evidence show (gate_id @ ''.evidence['' @ show_int (int i) @ '']'') required item)
        (enumerate 0 items)
      in (concat (map fst rs), concat (map snd rs)))"

record release_state =
  declared :: "pyval list"
  passed :: "pyval list"
  blockers :: "pyval list"

definition blocker_missing :: "pyval \<Rightarrow> bool" where
  "blocker_missing v = (case v of PStr s \<Rightarrow> strip s = [] | _ \<Rightarrow> True)"

definition lacking :: "pyval list \<Rightarrow> pyval list \<Rightarrow> string list" where
  "lacking required found = sort (remdups (map (\<lambda>t. case t of PStr s \<Rightarrow> s | _ \<Rightarrow> [])
     (filter (\<lambda>t. \<not> mem_eq t found) required)))"

text \<open>A gate of a known status whose tests were read.\<close>

definition judge_gate :: "(pyval \<Rightarrow> string) \<Rightarrow> pyval \<Rightarrow> pyval \<Rightarrow> bool \<Rightarrow> pyval list \<Rightarrow> release_state \<Rightarrow> string list \<times> release_state" where
  "judge_gate show gid gate bad required st =
     (let gate_id = str_of show gid; status = dget gate ''status'' PNone; evidence = dget gate ''evidence'' PNone;
          items = evidence_items show gate_id required (case evidence of PList xs \<Rightarrow> xs | _ \<Rightarrow> []);
          head = msg_if bad (gate_id @ '' has invalid required_tests'') @
                 msg_if (\<not> is_list evidence) (gate_id @ ''.evidence must be a list'') @ fst items;
          blocker = dget gate ''blocker'' PNone; missing = lacking required (snd items);
          st' = st\<lparr>declared := declared st @ required\<rparr>
      in if status = PStr ''PASS''
         then (head @ msg_if (missing \<noteq> []) (gate_id @ '' PASS lacks evidence for: '' @ join_with '', '' missing) @
                 msg_if (blocker \<noteq> PNone \<and> blocker \<noteq> PStr '''') (gate_id @ '' PASS must not retain a blocker''),
               st'\<lparr>passed := passed st @ snd items\<rparr>)
         else (head @ msg_if (blocker_missing blocker) (gate_id @ '' '' @ str_of show status @ '' requires a blocker''),
               st'\<lparr>blockers := blockers st @ [gid]\<rparr>))"

definition check_gate :: "(pyval \<Rightarrow> string) \<Rightarrow> pyval \<times> pyval \<Rightarrow> release_state \<Rightarrow> (string list \<times> release_state) result" where
  "check_gate show = (\<lambda>(gid, gate) st.
     bind (in_strings (dget gate ''status'' PNone) STATUSES) (\<lambda>known.
       if \<not> known then Inr ([str_of show gid @ '' has invalid status''], st)
       else bind (required_tests (dget gate ''required_tests'' PNone)) (\<lambda>(bad, required).
         Inr (judge_gate show gid gate bad required st))))"

section \<open>The manifest\<close>

definition identity_fields :: "string list" where
  "identity_fields = [''release_version'', ''hardware_revision'', ''radio_firmware_sha256'', ''audio_firmware_sha256'',
     ''system_firmware_sha256'', ''created_utc'']"

definition identity_complete :: "pyval \<Rightarrow> bool" where
  "identity_complete data = list_all (\<lambda>f. dget data f PNone \<noteq> PNone \<and> dget data f PNone \<noteq> PStr '''') identity_fields"

definition passing_errors :: "(pyval \<Rightarrow> string) \<Rightarrow> pyval \<Rightarrow> pyval list \<Rightarrow> string list" where
  "passing_errors show data passed_tests =
     concat (map (\<lambda>f. msg_if (\<not> hex_digits 64 (str_of show (dget data f (PStr '''')))) (f @ '' must be lowercase SHA-256''))
       [''radio_firmware_sha256'', ''audio_firmware_sha256'', ''system_firmware_sha256'']) @
     msg_if (\<not> utc_stamp (dget data ''created_utc'' PNone)) ''created_utc must be UTC'' @
     msg_if (\<not> identity_complete data) ''passing release requires complete release identity'' @
     msg_if (\<not> set_is passed_tests ALL_TESTS) ''passing release lacks evidence coverage for AV-001 through AV-040''"

definition status_errors :: "bool \<Rightarrow> pyval \<Rightarrow> string list \<Rightarrow> string list" where
  "status_errors all_pass top_status errors =
     (let es = errors @ msg_if (top_status = PStr ''PASS'' \<and> (\<not> all_pass \<or> errors \<noteq> []))
            ''top-level PASS requires every release gate and test to pass''
      in es @ msg_if (all_pass \<and> es = [] \<and> top_status \<noteq> PStr ''PASS'') ''all passing gates require top-level PASS'')"

text \<open>The messages in front of the last two checks, once every gate was checked.\<close>

definition all_gates_pass :: "pyval vdict \<Rightarrow> release_state \<Rightarrow> bool" where
  "all_gates_pass gates st \<longleftrightarrow> blockers st = [] \<and> length gates = length GATE_IDS"

definition manifest_errors :: "(pyval \<Rightarrow> string) \<Rightarrow> pyval \<Rightarrow> pyval list \<Rightarrow> pyval vdict \<Rightarrow> string list \<Rightarrow> release_state \<Rightarrow> bool \<Rightarrow> string list" where
  "manifest_errors show data gs gates gate_errors st known =
     msg_if (length gates \<noteq> length gs \<or> \<not> set_is (map fst gates) GATE_IDS)
       ''gates must exactly match the ten controlled release domains'' @
     gate_errors @
     msg_if (\<not> set_is (declared st) ALL_TESTS) ''release domains must collectively declare AV-001 through AV-040'' @
     msg_if (\<not> known) ''invalid top-level release status'' @
     (if all_gates_pass gates st then passing_errors show data (passed st) else [])"

text \<open>The messages and the blocked gates.\<close>

definition validate_manifest :: "(pyval \<Rightarrow> string) \<Rightarrow> pyval \<Rightarrow> (string list \<times> pyval list) result" where
  "validate_manifest show data =
     (if \<not> is_dict data then Inl AttributeError
      else let head = msg_if (dget data ''schema'' PNone \<noteq> PStr ''openref-product-release-v1'' \<or>
             dget data ''product'' PNone \<noteq> PStr ''OpenRef'') ''invalid product release schema or product''
        in case dget data ''gates'' PNone of
          PList gs \<Rightarrow>
            bind (vdict_by (\<lambda>g. Inr (dget g ''id'' PNone)) (filter is_dict gs)) (\<lambda>gates.
            bind (fold_report (check_gate show) gates \<lparr>declared = [], passed = [], blockers = []\<rparr>) (\<lambda>(es, st).
            bind (in_strings (dget data ''status'' PNone) STATUSES) (\<lambda>known.
              Inr (status_errors (all_gates_pass gates st) (dget data ''status'' PNone)
                     (head @ manifest_errors show data gs gates es st known), blockers st))))
        | _ \<Rightarrow> Inr (head @ [''gates must be a list''], []))"

section \<open>Artifacts\<close>

datatype artifact = Escapes | Absent | Contents "byte list"

definition artifact_error :: "(pyval \<Rightarrow> string) \<Rightarrow> (string \<Rightarrow> artifact) \<Rightarrow> pyval \<Rightarrow> pyval \<Rightarrow> report" where
  "artifact_error show tree gate item =
     bind (get_default item ''artifact_file'' (PStr '''')) (\<lambda>file.
     bind (get_default item ''sha256'' PNone) (\<lambda>expected.
     bind (get_default gate ''id'' PNone) (\<lambda>gid.
       let name = str_of show gid @ '':'' @ str_of show (dget item ''artifact_file'' PNone)
       in Inr (case tree (str_of show file) of
            Escapes \<Rightarrow> [''artifact escapes evidence root: '' @ str_of show gid]
          | Absent \<Rightarrow> [''artifact is missing: '' @ name]
          | Contents bs \<Rightarrow> msg_if (PStr (hex_of_bytes (sha256 bs)) \<noteq> expected) (''artifact hash mismatch: '' @ name)))))"

definition verify_artifacts :: "(pyval \<Rightarrow> string) \<Rightarrow> (string \<Rightarrow> artifact) \<Rightarrow> pyval \<Rightarrow> report" where
  "verify_artifacts show tree data =
     bind (bind (get_default data ''gates'' (PList [])) py_iter) (\<lambda>gates.
       all_of (map (\<lambda>gate. bind (bind (get_default gate ''evidence'' (PList [])) py_iter) (\<lambda>items.
         all_of (map (artifact_error show tree gate) items))) gates))"

section \<open>What an accepted release holds\<close>

text \<open>An evidence item that raised no message and names the test.\<close>

definition item_proves :: "(pyval \<Rightarrow> string) \<Rightarrow> pyval \<Rightarrow> pyval \<Rightarrow> bool" where
  "item_proves show t item \<longleftrightarrow> is_dict item \<and> \<not> unsafe_path (str_of show (dget item ''artifact_file'' (PStr ''''))) \<and>
     hex_digits 64 (str_of show (dget item ''sha256'' (PStr ''''))) \<and> utc_stamp (dget item ''executed_utc'' PNone) \<and>
     dget item ''result'' PNone = PStr ''PASS'' \<and>
     (case dget item ''test_ids'' PNone of PList ts \<Rightarrow> t \<in> set ts | _ \<Rightarrow> False)"

lemma check_evidence_silent:
  "check_evidence show label required item = ([], found) \<Longrightarrow> t \<in> set found \<Longrightarrow> item_proves show t item"
  by (auto simp: check_evidence_def item_proves_def Let_def split: if_splits pyval.splits list.splits)

lemma evidence_items_silent:
  assumes "evidence_items show g required items = ([], found)" "t \<in> set found"
  shows "\<exists>item \<in> set items. item_proves show t item"
proof -
  obtain i item where i: "(i, item) \<in> set (enumerate 0 items)"
    and t: "t \<in> set (snd (check_evidence show (g @ ''.evidence['' @ show_int (int i) @ '']'') required item))"
    using assms by (auto simp: evidence_items_def Let_def)
  let ?c = "check_evidence show (g @ ''.evidence['' @ show_int (int i) @ '']'') required item"
  have "\<forall>p \<in> set (enumerate 0 items). fst (case p of (i, item) \<Rightarrow>
      check_evidence show (g @ ''.evidence['' @ show_int (int i) @ '']'') required item) = []"
    using assms(1) by (simp add: evidence_items_def Let_def)
  from this[rule_format, OF i] have "fst ?c = []" by simp
  then have "?c = ([], snd ?c)" by (metis prod.collapse)
  from check_evidence_silent[OF this t] have "item_proves show t item" .
  moreover have "item \<in> set items" using i by (auto simp: in_set_enumerate_eq)
  ultimately show ?thesis by blast
qed

lemma lacking_none:
  assumes "lacking required found = []" "PStr t \<in> set required"
  shows "PStr t \<in> set found"
proof -
  have "set (lacking required found) = (\<lambda>t. case t of PStr s \<Rightarrow> s | _ \<Rightarrow> []) ` {t \<in> set required. \<not> mem_eq t found}"
    by (auto simp: lacking_def)
  then have "mem_eq (PStr t) found" using assms by auto
  then show ?thesis by (auto simp: mem_eq_def list_ex_iff)
qed

definition gate_proved :: "(pyval \<Rightarrow> string) \<Rightarrow> pyval \<Rightarrow> bool" where
  "gate_proved show gate \<longleftrightarrow> dget gate ''status'' PNone = PStr ''PASS'' \<and>
     (\<exists>required items. dget gate ''required_tests'' PNone = PList required \<and> required \<noteq> [] \<and>
        dget gate ''evidence'' PNone = PList items \<and>
        (\<forall>t \<in> set required. t \<in> set (map PStr ALL_TESTS) \<and> (\<exists>item \<in> set items. item_proves show t item)))"

lemma required_tests_good:
  assumes "required_tests v = Inr (False, required)"
  shows "v = PList required \<and> required \<noteq> [] \<and> set required \<subseteq> set (map PStr ALL_TESTS)"
proof -
  have b: "tests_invalid v = Inr False" "required = (case v of PList ts \<Rightarrow> ts | _ \<Rightarrow> [])"
    using assms by (auto simp: required_tests_def bind_eq_Inr)
  then obtain t ts where v: "v = PList (t # ts)" by (auto simp: tests_invalid_def split: pyval.splits list.splits)
  with b(1) have "\<forall>x \<in> set (t # ts). in_strings x ALL_TESTS = Inr True"
    by (auto simp: tests_invalid_def bind_eq_Inr)
  then have "set (t # ts) \<subseteq> set (map PStr ALL_TESTS)" unfolding in_strings_True by (auto simp: image_iff) 
  then show ?thesis using b(2) v by simp
qed

lemma judge_gate_silent:
  assumes "judge_gate show gid gate bad required st = ([], st')" "blockers st' = []"
    "required_tests (dget gate ''required_tests'' PNone) = Inr (bad, required)"
  shows "gate_proved show gate \<and> blockers st = []"
proof -
  obtain item_errors found where e: "evidence_items show (str_of show gid) required
      (case dget gate ''evidence'' PNone of PList xs \<Rightarrow> xs | _ \<Rightarrow> []) = (item_errors, found)"
    by (meson surj_pair)
  have pass: "dget gate ''status'' PNone = PStr ''PASS''" and none: "bad = False" "is_list (dget gate ''evidence'' PNone)"
    "item_errors = []" "lacking required found = []" "blockers st = []"
    using assms(1,2) by (auto simp: judge_gate_def Let_def e split: if_splits)
  note R = required_tests_good[OF assms(3)[unfolded none(1)]]
  obtain items where items: "dget gate ''evidence'' PNone = PList items"
    using none(2) by (cases "dget gate ''evidence'' PNone") auto
  have "\<exists>item \<in> set items. item_proves show t item" if "t \<in> set required" for t
  proof -
    obtain s where "t = PStr s" using R \<open>t \<in> set required\<close> by auto
    then have "t \<in> set found" using lacking_none[OF none(4)] \<open>t \<in> set required\<close> by simp
    then show ?thesis using evidence_items_silent[OF e[unfolded none(3)]] items by simp
  qed
  then show ?thesis using pass R items none(5) unfolding gate_proved_def by blast
qed

lemma check_gate_silent:
  assumes "check_gate show (gid, gate) st = Inr ([], st')" "blockers st' = []"
  shows "gate_proved show gate \<and> blockers st = []"
proof -
  obtain bad required where "required_tests (dget gate ''required_tests'' PNone) = Inr (bad, required)"
    "judge_gate show gid gate bad required st = ([], st')"
    using assms(1) by (auto simp: check_gate_def bind_eq_Inr split: if_splits)
  then show ?thesis using judge_gate_silent assms(2) by blast
qed

lemma check_gates_silent:
  assumes "fold_report (check_gate show) gates st = Inr ([], st')" "blockers st' = []"
  shows "\<forall>(gid, gate) \<in> set gates. gate_proved show gate"
proof -
  obtain ts where ts: "ts ! length gates = st'"
    "\<forall>i < length gates. check_gate show (gates ! i) (ts ! i) = Inr ([], ts ! Suc i)"
    using fold_report_Inr[OF assms(1)] by auto
  have down: "k \<le> length gates \<Longrightarrow> blockers (ts ! (length gates - k)) = []" for k
  proof (induction k)
    case (Suc k)
    then obtain i where i: "i = length gates - Suc k" "Suc i = length gates - k" "i < length gates" by auto
    have "check_gate show (fst (gates ! i), snd (gates ! i)) (ts ! i) = Inr ([], ts ! Suc i)" using ts(2) i(3) by simp
    then show ?case using check_gate_silent Suc i by fastforce
  qed (simp add: ts(1) assms(2))
  have "gate_proved show (snd (gates ! i))" if "i < length gates" for i
  proof -
    have "check_gate show (fst (gates ! i), snd (gates ! i)) (ts ! i) = Inr ([], ts ! Suc i)" using ts(2) that by simp
    moreover have "blockers (ts ! Suc i) = []" using down[of "length gates - Suc i"] that by (simp add: Suc_diff_Suc)
    ultimately show ?thesis using check_gate_silent by blast
  qed
  then show ?thesis by (metis (mono_tags, lifting) case_prodI2 in_set_conv_nth snd_conv)
qed

section \<open>Properties\<close>

lemma release_gates:
  assumes "vdict_by (\<lambda>g. Inr (dget g ''id'' PNone)) (filter is_dict gs) = Inr gates" "length gates = length gs"
  shows "map snd gates = gs \<and> map fst gates = map (\<lambda>g. dget g ''id'' PNone) gs"
proof -
  have f: "length (filter is_dict gs) = length gs"
    using vdict_by_length[OF assms(1)] assms(2) length_filter_le[of is_dict gs] by simp
  then have fs: "filter is_dict gs = gs" by (metis filter_True length_filter_less less_irrefl)
  have "map snd gates = gs \<and> map Inr (map fst gates) = map (\<lambda>g. Inr (dget g ''id'' PNone) :: pyval result) gs"
    using vdict_by_full[OF assms(1)] assms(2) unfolding fs by blast
  moreover have "map (\<lambda>g. Inr (dget g ''id'' PNone) :: pyval result) gs = map Inr (map (\<lambda>g. dget g ''id'' PNone) gs)" by simp
  ultimately show ?thesis using inj_map_eq_map[of "Inr :: pyval \<Rightarrow> pyval result"] inj_Inr by metis
qed

lemma status_errors_pass:
  "status_errors all_pass (PStr ''PASS'') errors = [] \<longleftrightarrow> all_pass \<and> errors = []"
  by (auto simp: status_errors_def Let_def msg_if_def)

lemma validate_manifest_pass:
  assumes "validate_manifest show data = Inr ([], bs)" "dget data ''status'' PNone = PStr ''PASS''"
  obtains gs gates st where "dget data ''gates'' PNone = PList gs"
    "vdict_by (\<lambda>g. Inr (dget g ''id'' PNone)) (filter is_dict gs) = Inr gates"
    "length gates = length gs" "set_is (map fst gates) GATE_IDS" "length gates = length GATE_IDS"
    "fold_report (check_gate show) gates \<lparr>declared = [], passed = [], blockers = []\<rparr> = Inr ([], st)"
    "blockers st = []" "bs = []" "passing_errors show data (passed st) = []"
proof -
  obtain gs where gs: "dget data ''gates'' PNone = PList gs"
    using assms by (cases "dget data ''gates'' PNone") (auto simp: validate_manifest_def Let_def split: if_splits)
  obtain gates es st head known where r: "vdict_by (\<lambda>g. Inr (dget g ''id'' PNone)) (filter is_dict gs) = Inr gates"
    "fold_report (check_gate show) gates \<lparr>declared = [], passed = [], blockers = []\<rparr> = Inr (es, st)"
    "status_errors (all_gates_pass gates st) (PStr ''PASS'') (head @ manifest_errors show data gs gates es st known) = []"
    "bs = blockers st"
    using assms(1) by (auto simp: validate_manifest_def Let_def bind_eq_Inr gs assms(2) split: if_splits)
  then have a: "all_gates_pass gates st" "manifest_errors show data gs gates es st known = []"
    by (simp_all add: status_errors_pass)
  then have "es = []" "passing_errors show data (passed st) = []" "length gates = length gs" "set_is (map fst gates) GATE_IDS"
    by (simp_all add: manifest_errors_def)
  then show ?thesis using that gs r a(1) by (simp add: all_gates_pass_def)
qed


text \<open>An empty file name passes the path check: \<^verbatim>\<open>str(Path(""))\<close> is \<^verbatim>\<open>"."\<close>, never empty.\<close>

lemma empty_artifact_accepted: "\<not> unsafe_path ''''"
  by (simp add: unsafe_path_def path_text_def path_join_def path_root_def path_parts_def starts_with_def)

end
