(* ===== verification/Audio_Benchmark.thy ===== *)
theory Audio_Benchmark
  imports Py_Json
begin

text \<open>
  \<^verbatim>\<open>tools/validate_audio_benchmark_result.py\<close>: the checks of an audio-processor benchmark result.
\<close>

definition EXPECTED :: "(string \<times> pyval) list" where
  "EXPECTED = [(''schema'', PStr ''openref-audio-benchmark-v1''), (''benchmark_version'', PInt 1),
     (''execution_mode'', PStr ''paced-target''), (''sample_rate_hz'', PInt 16000), (''channel_count'', PInt 1),
     (''sample_format'', PStr ''signed-16-bit-pcm''), (''frame_duration_us'', PInt 10000), (''codec_frame_bytes'', PInt 40),
     (''encoder_count'', PInt 1), (''decoder_count'', PInt 5), (''plc_period_packets'', PInt 97),
     (''warmup_blocks'', PInt 1000), (''requested_blocks'', PInt 180000), (''processing_budget_us'', PInt 8000)]"

text \<open>A numeric entry of the table.\<close>

definition expected_int :: "string \<Rightarrow> int" where
  "expected_int k = (case map_of EXPECTED k of Some (PInt n) \<Rightarrow> n | _ \<Rightarrow> 0)"

definition plc_calls_between :: "int \<Rightarrow> int \<Rightarrow> int \<Rightarrow> int" where
  "plc_calls_between period first_block blocks =
     (let interval = 2 * period; last_block = first_block + blocks - 1;
          first_multiple = max 1 ((first_block - 1 + interval - 1) div interval);
          last_multiple = (last_block - 1) div interval
      in max 0 (last_multiple - first_multiple + 1))"

definition expected_plc_calls :: int where
  "expected_plc_calls =
     plc_calls_between (expected_int ''plc_period_packets'') (expected_int ''warmup_blocks'') (expected_int ''requested_blocks'')"

definition EXPECTED_PACING_TICKS :: int where
  "EXPECTED_PACING_TICKS = expected_int ''warmup_blocks'' + expected_int ''requested_blocks''"

definition EXPECTED_ELAPSED_US :: int where
  "EXPECTED_ELAPSED_US = EXPECTED_PACING_TICKS * expected_int ''frame_duration_us''"

definition PACING_ELAPSED_TOLERANCE_US :: int where
  "PACING_ELAPSED_TOLERANCE_US = 1000"

definition REQUIRED_TEXT :: "string list" where
  "REQUIRED_TEXT = [''target'', ''silicon_revision'', ''compiler'', ''optimization'', ''codec'', ''firmware_commit'',
     ''memory_placement'', ''clock_configuration'', ''timer_source'', ''current_measurement'']"

definition REQUIRED_COUNTS :: "string list" where
  "REQUIRED_COUNTS = [''completed_blocks'', ''plc_calls'', ''encode_failures'', ''decode_failures'', ''process_failures'',
     ''deadline_misses'', ''maximum_encode_us'', ''maximum_render_us'', ''maximum_total_us'', ''average_encode_us'',
     ''average_render_us'', ''average_total_us'', ''stack_high_water_bytes'', ''pacing_ticks'', ''pacing_overruns'', ''elapsed_us'']"

definition PLACEHOLDER_TEXT :: "string list" where
  "PLACEHOLDER_TEXT = [''unknown'', ''not_measured'', ''n/a'', ''na'', ''none'', ''null'', ''tbd'']"

section \<open>The checks\<close>

definition res_get :: "pyval \<Rightarrow> string \<Rightarrow> pyval" where
  "res_get result k = dget result k PNone"

text \<open>\<^verbatim>\<open>isinstance(v, int) and not isinstance(v, bool)\<close>, with the integer.\<close>

definition int_at :: "pyval \<Rightarrow> string \<Rightarrow> int option" where
  "int_at result k = (case res_get result k of PInt n \<Rightarrow> Some n | _ \<Rightarrow> None)"

definition int_is :: "pyval \<Rightarrow> string \<Rightarrow> (int \<Rightarrow> bool) \<Rightarrow> bool" where
  "int_is result k bad = (case int_at result k of None \<Rightarrow> False | Some n \<Rightarrow> bad n)"

text \<open>\<^verbatim>\<open>repr\<close> of an entry of the table.\<close>

definition expected_repr :: "pyval \<Rightarrow> string" where
  "expected_repr v = (case v of PStr s \<Rightarrow> [CHR 0x27] @ s @ [CHR 0x27] | PInt n \<Rightarrow> show_int n | _ \<Rightarrow> [])"

definition expected_errors :: "pyval \<Rightarrow> string list" where
  "expected_errors result =
     concat (map (\<lambda>(f, e). msg_if (res_get result f \<noteq> e) (f @ '' must equal '' @ expected_repr e)) EXPECTED)"

definition text_error :: "pyval \<Rightarrow> string \<Rightarrow> string list" where
  "text_error result f =
     (case res_get result f of
        PStr s \<Rightarrow> if strip s = [] then [f @ '' must be a non-empty string'']
                 else msg_if (lower (strip s) \<in> set PLACEHOLDER_TEXT) (f @ '' must not be placeholder provenance'')
      | _ \<Rightarrow> [f @ '' must be a non-empty string''])"

definition count_error :: "pyval \<Rightarrow> string \<Rightarrow> string list" where
  "count_error result f =
     msg_if (case int_at result f of None \<Rightarrow> True | Some n \<Rightarrow> n < 0) (f @ '' must be a non-negative integer'')"

text \<open>\<^verbatim>\<open>math.isfinite\<close> converts an integer to a float first, which raises beyond the float range.\<close>

definition current_error :: "pyval \<Rightarrow> string \<Rightarrow> report" where
  "current_error result f =
     say (case res_get result f of
            PInt n \<Rightarrow> bind (float_of_int n) (\<lambda>_. Inr (n \<le> 0))
          | PFloat (Fin x) \<Rightarrow> Inr (x \<le> 0)
          | _ \<Rightarrow> Inr True) (f @ '' must be a positive finite measurement'')"

definition CURRENTS :: "string list" where
  "CURRENTS = [''idle_current_ma'', ''one_talker_current_ma'', ''six_talker_current_ma'']"

definition exact_errors :: "pyval \<Rightarrow> string list" where
  "exact_errors result =
     msg_if (res_get result ''complete'' \<noteq> PBool True) ''complete must be true'' @
     msg_if (res_get result ''passed'' \<noteq> PBool True) ''passed must be true'' @
     msg_if (int_is result ''completed_blocks'' (\<lambda>n. n \<noteq> 180000)) ''completed_blocks must equal 180000'' @
     msg_if (int_is result ''plc_calls'' (\<lambda>n. n \<noteq> expected_plc_calls)) (''plc_calls must equal '' @ show_int expected_plc_calls) @
     msg_if (int_is result ''stack_high_water_bytes'' (\<lambda>n. n \<le> 0)) ''stack_high_water_bytes must be positive'' @
     msg_if (int_is result ''pacing_ticks'' (\<lambda>n. n \<noteq> EXPECTED_PACING_TICKS))
       (''pacing_ticks must equal '' @ show_int EXPECTED_PACING_TICKS) @
     msg_if (\<not> py_eq (res_get result ''pacing_overruns'') (PInt 0)) ''pacing_overruns must equal 0''"

definition elapsed_errors :: "pyval \<Rightarrow> string list" where
  "elapsed_errors result =
     (case (int_at result ''elapsed_us'', int_at result ''maximum_total_us'') of
        (Some e, Some m) \<Rightarrow> msg_if (\<not> (EXPECTED_ELAPSED_US \<le> e \<and> e \<le> EXPECTED_ELAPSED_US + m + PACING_ELAPSED_TOLERANCE_US))
          ''elapsed_us must cover exactly the paced workload plus the final block and bounded interrupt latency''
      | _ \<Rightarrow> [])"

definition failure_errors :: "pyval \<Rightarrow> string list" where
  "failure_errors result =
     concat (map (\<lambda>f. msg_if (\<not> py_eq (res_get result f) (PInt 0)) (f @ '' must equal 0''))
       [''encode_failures'', ''decode_failures'', ''process_failures'', ''deadline_misses''])"

definition maximum_errors :: "pyval \<Rightarrow> string list" where
  "maximum_errors result =
     msg_if (int_is result ''maximum_total_us'' (\<lambda>n. 8000 < n)) ''maximum_total_us must be at most 8000'' @
     msg_if (int_is result ''maximum_total_us'' (\<lambda>n. n \<le> 0)) ''maximum_total_us must be positive''"

definition pair_error :: "pyval \<Rightarrow> string \<times> string \<Rightarrow> string list" where
  "pair_error result = (\<lambda>(avg, top).
     (case (int_at result avg, int_at result top) of
        (Some a, Some m) \<Rightarrow> msg_if (m < a) (avg @ '' must be at most '' @ top) | _ \<Rightarrow> []))"

definition timing_pairs :: "(string \<times> string) list" where
  "timing_pairs = [(''average_encode_us'', ''maximum_encode_us''), (''average_render_us'', ''maximum_render_us''),
     (''average_total_us'', ''maximum_total_us'')]"

definition sum_errors :: "pyval \<Rightarrow> string list" where
  "sum_errors result =
     (case (int_at result ''average_total_us'', int_at result ''average_encode_us'', int_at result ''average_render_us'') of
        (Some t, Some e, Some r) \<Rightarrow> msg_if (\<not> (e + r \<le> t \<and> t \<le> e + r + 1))
          ''average_total_us must be the sum of component averages, allowing one microsecond of truncation''
      | _ \<Rightarrow> []) @
     (case (int_at result ''maximum_total_us'', int_at result ''maximum_encode_us'', int_at result ''maximum_render_us'') of
        (Some t, Some e, Some r) \<Rightarrow> msg_if (t < e \<or> t < r) ''maximum_total_us must cover encode and render maxima''
      | _ \<Rightarrow> [])"

definition clock_errors :: "pyval \<Rightarrow> string list" where
  "clock_errors result =
     msg_if (case int_at result ''clock_hz'' of None \<Rightarrow> True | Some n \<Rightarrow> n \<le> 0) ''clock_hz must be a positive integer''"

text \<open>The messages before and after the current measurements, the only check that can raise.\<close>

definition identity_errors :: "pyval \<Rightarrow> string list" where
  "identity_errors result = expected_errors result @ concat (map (text_error result) REQUIRED_TEXT) @
     clock_errors result @ concat (map (count_error result) REQUIRED_COUNTS)"

definition timing_errors :: "pyval \<Rightarrow> string list" where
  "timing_errors result = exact_errors result @ elapsed_errors result @ failure_errors result @ maximum_errors result @
     concat (map (pair_error result) timing_pairs) @ sum_errors result"

definition validate_result :: "pyval \<Rightarrow> report" where
  "validate_result result =
     (if \<not> is_dict result then Inr [''root must be a JSON object'']
      else bind (all_of (map (current_error result) CURRENTS))
        (\<lambda>es. Inr (identity_errors result @ es @ timing_errors result)))"

section \<open>Facts\<close>

lemma validate_result_silent:
  assumes "validate_result r = Inr []"
  shows "is_dict r \<and> expected_errors r = [] \<and> concat (map (count_error r) REQUIRED_COUNTS) = [] \<and> exact_errors r = [] \<and>
    elapsed_errors r = [] \<and> failure_errors r = [] \<and> maximum_errors r = [] \<and>
    concat (map (pair_error r) timing_pairs) = [] \<and> sum_errors r = []"
  using assms by (auto simp: validate_result_def identity_errors_def timing_errors_def bind_eq_Inr
    simp del: concat_eq_Nil_conv all_of.simps split: if_splits)

lemma count_known:
  assumes "concat (map (count_error r) REQUIRED_COUNTS) = []" "k \<in> set REQUIRED_COUNTS"
  obtains n where "int_at r k = Some n" "0 \<le> n" "res_get r k = PInt n"
proof -
  have "count_error r k = []" using assms by auto
  then obtain n where "int_at r k = Some n" "0 \<le> n" by (auto simp: count_error_def split: option.splits)
  then show ?thesis using that by (auto simp: int_at_def split: pyval.splits)
qed

lemma plc_values:
  "expected_plc_calls = 927" "EXPECTED_PACING_TICKS = 181000" "EXPECTED_ELAPSED_US = 1810000000"
  by (simp_all add: expected_plc_calls_def EXPECTED_PACING_TICKS_def EXPECTED_ELAPSED_US_def expected_int_def EXPECTED_def
    plc_calls_between_def)

text \<open>The multiples of an interval between two bounds, counted.\<close>

lemma card_multiples:
  assumes "0 < (q :: int)" "0 \<le> a"
  shows "{b. a < b \<and> b \<le> c \<and> (\<exists>j \<ge> 1. b = q * j + 1)} = (\<lambda>j. q * j + 1) ` {max 1 ((a + q - 1) div q)..(c - 1) div q}"
proof -
  have hi: "j \<le> x div q \<longleftrightarrow> q * j \<le> x" for j x
  proof
    assume "j \<le> x div q"
    then have "q * j \<le> q * (x div q)" using assms(1) by simp
    also have "\<dots> \<le> x" using pos_mod_sign[OF assms(1), of x] by (simp add: minus_mod_eq_mult_div [symmetric])
    finally show "q * j \<le> x" .
  next
    assume "q * j \<le> x"
    then have "q * j div q \<le> x div q" using zdiv_mono1 assms(1) by blast
    then show "j \<le> x div q" using assms(1) by simp
  qed
  have lo: "(a + q - 1) div q \<le> j \<longleftrightarrow> a \<le> q * j" for j
    using hi[of "j + 1" "a + q - 1"] by (auto simp: algebra_simps)
  show ?thesis by (auto simp: lo hi)
qed

section \<open>Properties\<close>

text \<open>The number of loss-concealment calls the validator expects, computed in closed form
  from the period, is the number of measured blocks \<open>2 k + 1\<close> whose packet \<open>k > 0\<close> is a multiple of the
  period.\<close>

theorem expected_plc_calls_count:
  "expected_plc_calls = int (card {b :: int. 1000 \<le> b \<and> b < 1000 + 180000 \<and> (\<exists>k > 0. 97 dvd k \<and> b = 2 * k + 1)})"
proof -
  have "{b :: int. 1000 \<le> b \<and> b < 1000 + 180000 \<and> (\<exists>k > 0. 97 dvd k \<and> b = 2 * k + 1)} =
    {b. 999 < b \<and> b \<le> 180999 \<and> (\<exists>j \<ge> 1. b = 194 * j + 1)}"
  proof (intro Collect_cong)
    fix b :: int
    have "(\<exists>k > 0. 97 dvd k \<and> b = 2 * k + 1) \<longleftrightarrow> (\<exists>j \<ge> 1. b = 194 * j + 1)"
    proof
      assume "\<exists>k > 0. 97 dvd k \<and> b = 2 * k + 1"
      then obtain j where "0 < 97 * j" "b = 2 * (97 * j) + 1" by (auto simp: dvd_def)
      then show "\<exists>j \<ge> 1. b = 194 * j + 1" by (intro exI[of _ j]) simp
    next
      assume "\<exists>j \<ge> 1. b = 194 * j + 1"
      then obtain j where "1 \<le> j" "b = 194 * j + 1" by blast
      then show "\<exists>k > 0. 97 dvd k \<and> b = 2 * k + 1" by (intro exI[of _ "97 * j"]) simp
    qed
    then show "(1000 \<le> b \<and> b < 1000 + 180000 \<and> (\<exists>k > 0. 97 dvd k \<and> b = 2 * k + 1)) =
      (999 < b \<and> b \<le> 180999 \<and> (\<exists>j \<ge> 1. b = 194 * j + 1))" by auto
  qed
  also have "\<dots> = (\<lambda>j. 194 * j + 1) ` {6..932}"
    using card_multiples[of 194 999 180999] by simp
  also have "card \<dots> = 927" by (subst card_image) (auto simp: inj_on_def)
  finally show ?thesis by (simp add: plc_values)
qed

text \<open>C28 (bounds). The timing of an accepted benchmark result is consistent: the averages are at most the
  maxima, the total average is the sum of its parts up to one microsecond, the maximum total lies in the
  8 ms budget and covers both parts, no deadline was missed, and the elapsed time is that of the 181000
  paced ticks plus at most the last block and the tolerance.\<close>

theorem accepted_timing:
  assumes "validate_result r = Inr []"
  shows "\<exists>ae ar avg me mr mx el. int_at r ''average_encode_us'' = Some ae \<and> int_at r ''average_render_us'' = Some ar \<and>
    int_at r ''average_total_us'' = Some avg \<and> int_at r ''maximum_encode_us'' = Some me \<and>
    int_at r ''maximum_render_us'' = Some mr \<and> int_at r ''maximum_total_us'' = Some mx \<and> int_at r ''elapsed_us'' = Some el \<and>
    0 \<le> ae \<and> ae \<le> me \<and> me \<le> mx \<and> 0 \<le> ar \<and> ar \<le> mr \<and> mr \<le> mx \<and> ae + ar \<le> avg \<and> avg \<le> ae + ar + 1 \<and> avg \<le> mx \<and>
    0 < mx \<and> mx \<le> 8000 \<and> res_get r ''deadline_misses'' = PInt 0 \<and>
    1810000000 \<le> el \<and> el \<le> 1810000000 + mx + 1000"
proof -
  note S = validate_result_silent[OF assms]
  then have c: "concat (map (count_error r) REQUIRED_COUNTS) = []" by blast
  note known = count_known[OF c]
  obtain ae where ae: "int_at r ''average_encode_us'' = Some ae" "0 \<le> ae" by (rule known[of "''average_encode_us''"]) (simp add: REQUIRED_COUNTS_def)
  obtain ar where ar: "int_at r ''average_render_us'' = Some ar" "0 \<le> ar" by (rule known[of "''average_render_us''"]) (simp add: REQUIRED_COUNTS_def)
  obtain avg where avg: "int_at r ''average_total_us'' = Some avg" by (rule known[of "''average_total_us''"]) (simp add: REQUIRED_COUNTS_def)
  obtain me where me: "int_at r ''maximum_encode_us'' = Some me" by (rule known[of "''maximum_encode_us''"]) (simp add: REQUIRED_COUNTS_def)
  obtain mr where mr: "int_at r ''maximum_render_us'' = Some mr" by (rule known[of "''maximum_render_us''"]) (simp add: REQUIRED_COUNTS_def)
  obtain mx where mx: "int_at r ''maximum_total_us'' = Some mx" by (rule known[of "''maximum_total_us''"]) (simp add: REQUIRED_COUNTS_def)
  obtain el where el: "int_at r ''elapsed_us'' = Some el" by (rule known[of "''elapsed_us''"]) (simp add: REQUIRED_COUNTS_def)
  obtain dm where dm: "res_get r ''deadline_misses'' = PInt dm" by (rule known[of "''deadline_misses''"]) (simp add: REQUIRED_COUNTS_def)
  have p: "ae \<le> me" "ar \<le> mr" "avg \<le> mx" using S ae ar avg me mr mx by (auto simp: pair_error_def timing_pairs_def)
  have s: "ae + ar \<le> avg" "avg \<le> ae + ar + 1" "me \<le> mx" "mr \<le> mx" using S ae ar avg me mr mx by (auto simp: sum_errors_def)
  have m: "0 < mx" "mx \<le> 8000" using S mx by (auto simp: maximum_errors_def int_is_def)
  have e: "1810000000 \<le> el" "el \<le> 1810000000 + mx + 1000"
    using S mx el by (auto simp: elapsed_errors_def plc_values PACING_ELAPSED_TOLERANCE_US_def)
  have "dm = 0" using S dm by (simp add: failure_errors_def py_eq_def)
  then show ?thesis using ae ar avg me mr mx el dm p s m e by simp
qed

definition sample_result :: pyval where
  "sample_result = PDict (EXPECTED @ map (\<lambda>f. (f, PStr ''x'')) REQUIRED_TEXT @ [(''clock_hz'', PInt 1)] @
     [(''idle_current_ma'', PFloat (Fin 1)), (''one_talker_current_ma'', PFloat (Fin 1)), (''six_talker_current_ma'', PFloat (Fin 1)),
      (''complete'', PBool True), (''passed'', PBool True), (''completed_blocks'', PInt 180000), (''plc_calls'', PInt 927),
      (''stack_high_water_bytes'', PInt 9), (''pacing_ticks'', PInt 181000), (''pacing_overruns'', PInt 0),
      (''elapsed_us'', PInt 1810000005), (''maximum_total_us'', PInt 9), (''maximum_encode_us'', PInt 5), (''maximum_render_us'', PInt 4),
      (''average_total_us'', PInt 4), (''average_encode_us'', PInt 2), (''average_render_us'', PInt 1),
      (''encode_failures'', PInt 0), (''decode_failures'', PInt 0), (''process_failures'', PInt 0), (''deadline_misses'', PInt 0)])"

text \<open>The record's entries.\<close>

lemma sample_values:
  "res_get sample_result ''clock_hz'' = PInt 1"
  "res_get sample_result ''idle_current_ma'' = PFloat (Fin 1)"
  "res_get sample_result ''one_talker_current_ma'' = PFloat (Fin 1)"
  "res_get sample_result ''six_talker_current_ma'' = PFloat (Fin 1)"
  "res_get sample_result ''complete'' = PBool True"
  "res_get sample_result ''passed'' = PBool True"
  "res_get sample_result ''completed_blocks'' = PInt 180000"
  "res_get sample_result ''plc_calls'' = PInt 927"
  "res_get sample_result ''stack_high_water_bytes'' = PInt 9"
  "res_get sample_result ''pacing_ticks'' = PInt 181000"
  "res_get sample_result ''pacing_overruns'' = PInt 0"
  "res_get sample_result ''elapsed_us'' = PInt 1810000005"
  "res_get sample_result ''maximum_total_us'' = PInt 9"
  "res_get sample_result ''maximum_encode_us'' = PInt 5"
  "res_get sample_result ''maximum_render_us'' = PInt 4"
  "res_get sample_result ''average_total_us'' = PInt 4"
  "res_get sample_result ''average_encode_us'' = PInt 2"
  "res_get sample_result ''average_render_us'' = PInt 1"
  "res_get sample_result ''encode_failures'' = PInt 0"
  "res_get sample_result ''decode_failures'' = PInt 0"
  "res_get sample_result ''process_failures'' = PInt 0"
  "res_get sample_result ''deadline_misses'' = PInt 0"
  by (simp_all add: sample_result_def EXPECTED_def REQUIRED_TEXT_def res_get_def)

lemma sample_expected: "\<forall>(f, e) \<in> set EXPECTED. res_get sample_result f = e"
  by (simp add: sample_result_def EXPECTED_def res_get_def)

lemma sample_texts: "\<forall>f \<in> set REQUIRED_TEXT. res_get sample_result f = PStr ''x''"
  by (simp add: sample_result_def EXPECTED_def REQUIRED_TEXT_def res_get_def)

lemmas sample_lookup = sample_values int_at_def int_is_def

lemma sample_parts_silent:
  "expected_errors sample_result = []" "exact_errors sample_result = []" "elapsed_errors sample_result = []"
  "failure_errors sample_result = []" "maximum_errors sample_result = []" "sum_errors sample_result = []"
  using sample_expected
  by (auto simp: expected_errors_def,
      simp_all add: sample_lookup exact_errors_def elapsed_errors_def failure_errors_def maximum_errors_def sum_errors_def
        PACING_ELAPSED_TOLERANCE_US_def plc_values py_eq_def)

lemma sample_text_silent: "concat (map (text_error sample_result) REQUIRED_TEXT) = []"
  using sample_texts by (auto simp: text_error_def strip_def is_space_def lower_def lower_char_def PLACEHOLDER_TEXT_def)

lemma sample_counts_silent:
  "concat (map (count_error sample_result) REQUIRED_COUNTS) = []"
  "concat (map (pair_error sample_result) timing_pairs) = []"
  by (simp_all add: sample_lookup count_error_def REQUIRED_COUNTS_def pair_error_def timing_pairs_def)

lemma sample_clock_silent: "clock_errors sample_result = []"
  by (simp add: sample_lookup clock_errors_def)

lemma sample_currents_silent: "all_of (map (current_error sample_result) CURRENTS) = Inr []"
  by (simp add: sample_lookup CURRENTS_def current_error_def say_def)

lemma sample_result_accepted: "validate_result sample_result = Inr []"
proof -
  have "identity_errors sample_result = []" "timing_errors sample_result = []"
    unfolding identity_errors_def timing_errors_def sample_parts_silent sample_text_silent sample_counts_silent sample_clock_silent
    by (simp_all only: append_Nil)
  moreover have "is_dict sample_result" by (simp add: sample_result_def)
  ultimately show ?thesis unfolding validate_result_def sample_currents_silent by simp
qed

theorem accepted_timing_witness:
  "\<exists>mx el. int_at sample_result ''maximum_total_us'' = Some mx \<and> int_at sample_result ''elapsed_us'' = Some el \<and>
    0 < mx \<and> mx \<le> 8000 \<and> el \<le> 1810000000 + mx + 1000"
  using accepted_timing[OF sample_result_accepted] by blast

end
