(* ===== verification/Power_Budget.thy ===== *)
theory Power_Budget
  imports Py_Json
begin

text \<open>
  \<^verbatim>\<open>tools/openref_power_budget.py\<close>: the wearable power budget in floating point, from a JSON
  configuration whose objects may not repeat a key.  \<open>json\<close> is the text of the configuration as
  \<^verbatim>\<open>json.loads\<close> parses it, objects still as lists of pairs; \<open>show\<close> is the text of a float or container.
\<close>

section \<open>Loading\<close>

datatype json = JScalar pyval | JArray "json list" | JObject "(string \<times> json) list"

definition unique_object :: "(string \<times> pyval) list \<Rightarrow> (string \<times> pyval) list result" where
  "unique_object pairs =
     fold_res (\<lambda>(k, v) d. if k \<in> fst ` set d then Inl (ValueError (''duplicate JSON key: '' @ k)) else Inr (d @ [(k, v)])) pairs []"

text \<open>\<^verbatim>\<open>object_pairs_hook\<close> is called on every object, inner objects first.\<close>

fun hook :: "json \<Rightarrow> pyval result"
  and hook_list :: "json list \<Rightarrow> pyval list result"
  and hook_pairs :: "(string \<times> json) list \<Rightarrow> (string \<times> pyval) list result" where
  "hook (JScalar v) = Inr v"
| "hook (JArray xs) = bind (hook_list xs) (\<lambda>vs. Inr (PList vs))"
| "hook (JObject ps) = bind (hook_pairs ps) (\<lambda>vs. bind (unique_object vs) (\<lambda>d. Inr (PDict d)))"
| "hook_list [] = Inr []"
| "hook_list (x # xs) = bind (hook x) (\<lambda>v. bind (hook_list xs) (\<lambda>vs. Inr (v # vs)))"
| "hook_pairs [] = Inr []"
| "hook_pairs ((k, x) # ps) = bind (hook x) (\<lambda>v. bind (hook_pairs ps) (\<lambda>vs. Inr ((k, v) # vs)))"

definition load_config :: "json \<Rightarrow> pyval result" where
  "load_config text = bind (hook text) (\<lambda>v.
     if is_dict v then Inr v else Inl (ValueError ''power budget root must be an object''))"

section \<open>Evidence classes\<close>

definition VALID_EVIDENCE_CLASSES :: "string list" where
  "VALID_EVIDENCE_CLASSES = [''assumed'', ''datasheet'', ''measured'']"

definition evidence_class_of :: "(pyval \<Rightarrow> string) \<Rightarrow> pyval \<Rightarrow> string \<Rightarrow> string list \<Rightarrow> (string \<times> string list) result" where
  "evidence_class_of show v label unmeasured =
     (let c = str_of show v
      in if c \<notin> set VALID_EVIDENCE_CLASSES then Inl (ValueError (''invalid evidence class for '' @ label))
         else Inr (c, if c \<noteq> ''measured'' then unmeasured @ [label] else unmeasured))"

section \<open>Reserve factors\<close>

type_synonym reserve = "pyfloat \<times> (string \<times> pyfloat) list \<times> string list"

definition factor_step :: "(pyval \<Rightarrow> string) \<Rightarrow> pyval \<Rightarrow> string \<times> pyval \<Rightarrow> reserve \<Rightarrow> reserve result" where
  "factor_step show factor_evidence = (\<lambda>(name, factor) (product, factors, unmeasured).
     bind (py_float factor) (\<lambda>value.
     if \<not> (flt (Fin 0) value \<and> fle value (Fin 1)) then Inl (ValueError ''usable-capacity factors must be in (0, 1]'')
     else bind (get_default factor_evidence name (PStr ''assumed'')) (\<lambda>c.
       bind (evidence_class_of show c (''battery.usable_capacity_factors.'' @ name) unmeasured) (\<lambda>(_, unmeasured').
       Inr (fmul product value, factors @ [(name, value)], unmeasured')))))"

section \<open>Loads\<close>

record budget_load =
  load_name :: pyval
  load_evidence :: pyval
  load_class :: string
  rail_mw :: pyfloat
  battery_mw :: pyfloat

text \<open>\<^verbatim>\<open>round(x, k)\<close>: the float nearest to the decimal nearest to \<open>x\<close>.\<close>

fun round_to :: "nat \<Rightarrow> pyfloat \<Rightarrow> pyfloat" where
  "round_to k (Fin x) = to_float (of_int (round_half_even (x * 10 ^ k)) / 10 ^ k)"
| "round_to k v = v"

definition load_rail :: "pyval \<Rightarrow> pyfloat \<Rightarrow> pyfloat result" where
  "load_rail load duty =
     bind (contains_key load ''power_mw'') (\<lambda>rated.
     if rated then
       bind (bind (getitem load ''power_mw'') py_float) (\<lambda>p.
       if flt p (Fin 0) then Inl (ValueError ''load power must be nonnegative'') else Inr (fmul p duty))
     else
       bind (bind (getitem load ''voltage_v'') py_float) (\<lambda>v.
       bind (bind (getitem load ''current_ma'') py_float) (\<lambda>i.
       if flt v (Fin 0) \<or> flt i (Fin 0) then Inl (ValueError ''load voltage and current must be nonnegative'')
       else Inr (fmul (fmul v i) duty))))"

type_synonym load_sum = "budget_load list \<times> pyfloat \<times> string list"

definition load_step :: "(pyval \<Rightarrow> string) \<Rightarrow> pyval \<Rightarrow> load_sum \<Rightarrow> load_sum result" where
  "load_step show load = (\<lambda>(loads, total, unmeasured).
     bind (bind (get_default load ''duty_cycle'' (PFloat (Fin 1))) py_float) (\<lambda>duty.
     bind (bind (get_default load ''conversion_efficiency'' (PFloat (Fin 1))) py_float) (\<lambda>efficiency.
     if \<not> (fle (Fin 0) duty \<and> fle duty (Fin 1)) \<or> \<not> (flt (Fin 0) efficiency \<and> fle efficiency (Fin 1))
     then Inl (ValueError ''duty must be in [0, 1] and efficiency in (0, 1]'')
     else bind (load_rail load duty) (\<lambda>rail.
       bind (get_default load ''evidence_class'' (PStr ''assumed'')) (\<lambda>c.
       bind (getitem load ''name'') (\<lambda>name.
       bind (evidence_class_of show c (''loads.'' @ str_of show name) unmeasured) (\<lambda>(cls, unmeasured').
       bind (fdiv rail efficiency) (\<lambda>battery.
       bind (getitem load ''evidence'') (\<lambda>evidence.
       Inr (loads @ [\<lparr>load_name = name, load_evidence = evidence, load_class = cls, rail_mw = round_to 3 rail,
              battery_mw = round_to 3 battery\<rparr>], fadd total battery, unmeasured'))))))))))"

section \<open>The budget\<close>

record budget =
  budget_name :: pyval
  budget_status :: pyval
  total_average_mw :: pyfloat
  nominal_battery_wh :: pyfloat
  usable_battery_wh :: pyfloat
  usable_capacity_fraction :: pyfloat
  usable_capacity_factors :: "(string \<times> pyfloat) list"
  estimated_endurance_h :: pyfloat
  target_endurance_h :: pyfloat
  target_margin_h :: pyfloat
  maximum_average_mw_at_target :: pyfloat
  load_headroom_factor :: pyfloat
  required_nominal_capacity_mah :: pyfloat
  release_ready :: bool
  unmeasured_inputs :: "string list"
  budget_loads :: "budget_load list"

definition conclude :: "pyval \<Rightarrow> pyfloat \<Rightarrow> pyfloat \<Rightarrow> pyfloat \<Rightarrow> reserve \<Rightarrow> load_sum \<Rightarrow> budget result" where
  "conclude config voltage_v capacity_mah target_h = (\<lambda>(product, factors, _) (loads, total, unmeasured).
     bind (fdiv (fmul voltage_v capacity_mah) (Fin 1000)) (\<lambda>nominal_wh.
     let usable_wh = fmul nominal_wh product in
     bind (fdiv (fmul usable_wh (Fin 1000)) total) (\<lambda>endurance_h.
     bind (fdiv (fmul total target_h) (Fin 1000)) (\<lambda>required_usable_wh.
     bind (fdiv required_usable_wh (fmul voltage_v product)) (\<lambda>q.
     bind (fdiv (fmul usable_wh (Fin 1000)) target_h) (\<lambda>maximum_average.
     bind (getitem config ''name'') (\<lambda>name.
     bind (getitem config ''status'') (\<lambda>status.
     bind (fdiv maximum_average total) (\<lambda>headroom.
     Inr \<lparr>budget_name = name, budget_status = status, total_average_mw = round_to 3 total,
       nominal_battery_wh = round_to 3 nominal_wh, usable_battery_wh = round_to 3 usable_wh,
       usable_capacity_fraction = round_to 5 product, usable_capacity_factors = factors,
       estimated_endurance_h = round_to 3 endurance_h, target_endurance_h = target_h,
       target_margin_h = round_to 3 (fsub endurance_h target_h),
       maximum_average_mw_at_target = round_to 3 maximum_average, load_headroom_factor = round_to 3 headroom,
       required_nominal_capacity_mah = round_to 1 (fmul q (Fin 1000)), release_ready = (unmeasured = []),
       unmeasured_inputs = unmeasured, budget_loads = loads\<rparr>)))))))))"

fun dict_items :: "pyval \<Rightarrow> (string \<times> pyval) list result" where
  "dict_items (PDict d) = Inr d"
| "dict_items _ = Inl AttributeError"

definition reserve_of :: "(pyval \<Rightarrow> string) \<Rightarrow> pyval \<Rightarrow> reserve result" where
  "reserve_of show battery =
     bind (get_default battery ''capacity_evidence_class'' (PStr ''assumed'')) (\<lambda>c.
     bind (evidence_class_of show c ''battery.capacity_mah'' []) (\<lambda>(_, unmeasured).
     bind (get_default battery ''factor_evidence_class'' (PDict [])) (\<lambda>factor_evidence.
     bind (bind (getitem battery ''usable_capacity_factors'') dict_items) (\<lambda>items.
     fold_res (factor_step show factor_evidence) items (Fin 1, [], unmeasured)))))"

definition evaluate :: "(pyval \<Rightarrow> string) \<Rightarrow> pyval \<Rightarrow> budget result" where
  "evaluate show config =
     bind (getitem config ''battery'') (\<lambda>battery.
     bind (bind (getitem battery ''nominal_voltage_v'') py_float) (\<lambda>voltage_v.
     bind (bind (getitem battery ''capacity_mah'') py_float) (\<lambda>capacity_mah.
     bind (bind (getitem config ''target_endurance_h'') py_float) (\<lambda>target_h.
     if fle voltage_v (Fin 0) \<or> fle capacity_mah (Fin 0) \<or> fle target_h (Fin 0)
     then Inl (ValueError ''battery voltage, capacity, and endurance must be positive'')
     else bind (reserve_of show battery) (\<lambda>(product, factors, unmeasured).
       bind (bind (getitem config ''loads'') py_iter) (\<lambda>items.
       bind (fold_res (load_step show) items ([], Fin 0, unmeasured)) (\<lambda>(loads, total, unmeasured').
       if fle total (Fin 0) then Inl (ValueError ''total average load must be positive'')
       else conclude config voltage_v capacity_mah target_h (product, factors, unmeasured) (loads, total, unmeasured'))))))))"


section \<open>Loading keeps every key once\<close>

lemma unique_object_fold:
  "fold_res (\<lambda>(k, v) d. if k \<in> fst ` set d then Inl (ValueError (''duplicate JSON key: '' @ k)) else Inr (d @ [(k, v)])) ps d0 = Inr d
   \<longleftrightarrow> distinct (map fst ps) \<and> fst ` set ps \<inter> fst ` set d0 = {} \<and> d = d0 @ ps"
proof (induction ps arbitrary: d0)
  case (Cons p ps)
  obtain k v where p: "p = (k, v)" by fastforce
  show ?case by (auto simp: p Cons.IH)
qed auto

lemma unique_object_Inr: "unique_object ps = Inr d \<longleftrightarrow> distinct (map fst ps) \<and> d = ps"
  by (simp add: unique_object_def unique_object_fold)

fun plain :: "json \<Rightarrow> pyval" where
  "plain (JScalar v) = v"
| "plain (JArray xs) = PList (map plain xs)"
| "plain (JObject ps) = PDict (map (\<lambda>(k, x). (k, plain x)) ps)"

fun unique_keys :: "json \<Rightarrow> bool" where
  "unique_keys (JScalar _) = True"
| "unique_keys (JArray xs) = list_all unique_keys xs"
| "unique_keys (JObject ps) = (distinct (map fst ps) \<and> list_all (\<lambda>(_, x). unique_keys x) ps)"

lemma hook_Inr:
  "hook j = Inr v \<longleftrightarrow> unique_keys j \<and> v = plain j"
  "hook_list xs = Inr vs \<longleftrightarrow> list_all unique_keys xs \<and> vs = map plain xs"
  "hook_pairs ps = Inr ws \<longleftrightarrow> list_all (\<lambda>(_, x). unique_keys x) ps \<and> ws = map (\<lambda>(k, x). (k, plain x)) ps"
  by (induction j and xs and ps arbitrary: v and vs and ws rule: hook_hook_list_hook_pairs.induct)
     (auto simp: bind_eq_Inr unique_object_Inr comp_def case_prod_unfold)

text \<open>C29 (type). A configuration loads exactly when its root is an object and no object in it, at any
  depth, repeats a key; what is loaded is then the text's value with nothing dropped or merged.\<close>

theorem load_config_iff:
  "load_config j = Inr v \<longleftrightarrow> unique_keys j \<and> v = plain j \<and> is_dict v"
  by (auto simp: load_config_def bind_eq_Inr hook_Inr)

section \<open>Readiness\<close>

lemma evidence_class_Inr:
  "evidence_class_of show v label u = Inr (c, u') \<Longrightarrow>
    c = str_of show v \<and> c \<in> set VALID_EVIDENCE_CLASSES \<and> (u' = [] \<longleftrightarrow> u = [] \<and> c = ''measured'')"
  by (auto simp: evidence_class_of_def Let_def split: if_splits)

lemma factor_step_Inr:
  assumes "factor_step show ev (name, factor) (p, fs, u) = Inr (p', fs', u')"
  shows "\<exists>value c. fs' = fs @ [(name, value)] \<and> p' = fmul p value \<and> flt (Fin 0) value \<and> fle value (Fin 1) \<and>
    get_default ev name (PStr ''assumed'') = Inr c \<and> (u' = [] \<longleftrightarrow> u = [] \<and> str_of show c = ''measured'')"
  using assms by (force simp: factor_step_def bind_eq_Inr dest: evidence_class_Inr split: if_splits)

lemma load_step_Inr:
  assumes "load_step show l (ls, t, u) = Inr (ls', t', u')"
  shows "\<exists>x. ls' = ls @ [x] \<and> (u' = [] \<longleftrightarrow> u = [] \<and> load_class x = ''measured'')"
  using assms by (force simp: load_step_def bind_eq_Inr dest: evidence_class_Inr split: if_splits)


text \<open>The classes a budget rests on: of the capacity, of each factor, of each load.\<close>

definition measured :: "(pyval \<Rightarrow> string) \<Rightarrow> pyval \<Rightarrow> string \<Rightarrow> bool" where
  "measured show d k \<longleftrightarrow> str_of show (dget d k (PStr ''assumed'')) = ''measured''"

lemma get_default_dget: "get_default d k v = Inr c \<Longrightarrow> c = dget d k v"
  by (cases d) auto

lemma fold_factors:
  assumes "fold_res (factor_step show ev) items (Fin 1, [], u0) = Inr (p, fs, u)"
  shows "(\<exists>r. p = Fin r \<and> representable r \<and> 0 \<le> r \<and> r \<le> 1) \<and>
    (u = [] \<longleftrightarrow> u0 = [] \<and> (\<forall>n \<in> fst ` set fs. measured show ev n))"
proof -
  define I :: "reserve \<Rightarrow> bool" where "I = (\<lambda>(p, fs, u). (\<exists>r. p = Fin r \<and> representable r \<and> 0 \<le> r \<and> r \<le> 1) \<and>
    (u = [] \<longleftrightarrow> u0 = [] \<and> (\<forall>n \<in> fst ` set fs. measured show ev n)))"
  have "I (p, fs, u)"
  proof (rule fold_res_invariant[OF assms])
    show "I (Fin 1, [], u0)" by (simp add: I_def representable_def to_float_eval)
    fix x t t' assume I: "I t" and s: "factor_step show ev x t = Inr t'"
    obtain p fs u p' fs' u' name factor where t: "t = (p, fs, u)" "t' = (p', fs', u')" "x = (name, factor)"
      by (metis prod_cases3 surj_pair)
    from factor_step_Inr[OF s[unfolded t]] obtain w c where v: "fs' = fs @ [(name, w)]" "p' = fmul p w"
      "flt (Fin 0) w" "fle w (Fin 1)" "get_default ev name (PStr ''assumed'') = Inr c"
      "u' = [] \<longleftrightarrow> u = [] \<and> str_of show c = ''measured''" by blast
    obtain y where y: "w = Fin y" "0 < y" "y \<le> 1" using v(3,4) by (cases w) auto
    obtain r where r: "p = Fin r" "representable r" "0 \<le> r" "r \<le> 1" using I by (auto simp: I_def t)
    obtain q where q: "fmul (Fin r) (Fin y) = Fin q" "0 \<le> q" "q \<le> r"
      using fmul_le_left[OF r(2,3), of y] y(2,3) by (meson less_imp_le)
    then have "representable q" by (auto intro: to_float_representable)
    moreover have "c = dget ev name (PStr ''assumed'')" using v(5) by (rule get_default_dget)
    ultimately show "I t'" using I v q r y by (auto simp: I_def t measured_def)
  qed
  then show ?thesis by (simp add: I_def)
qed

lemma fold_loads:
  assumes "fold_res (load_step show) items ([], t0, u0) = Inr (ls, t, u)"
  shows "u = [] \<longleftrightarrow> u0 = [] \<and> (\<forall>l \<in> set ls. load_class l = ''measured'')"
proof -
  define I :: "load_sum \<Rightarrow> bool" where
    "I = (\<lambda>(ls, t, u). u = [] \<longleftrightarrow> u0 = [] \<and> (\<forall>l \<in> set ls. load_class l = ''measured''))"
  have "I (ls, t, u)"
  proof (rule fold_res_invariant[OF assms])
    show "I ([], t0, u0)" by (simp add: I_def)
    fix x s s' assume I: "I s" and e: "load_step show x s = Inr s'"
    obtain a b c a' b' c' where t: "s = (a, b, c)" "s' = (a', b', c')" by (metis prod_cases3)
    show "I s'" using I load_step_Inr[OF e[unfolded t]] by (auto simp: I_def t)
  qed
  then show ?thesis by (simp add: I_def)
qed

lemma reserve_of_Inr:
  assumes "reserve_of show battery = Inr (p, fs, u)"
  shows "(\<exists>r. p = Fin r \<and> representable r \<and> 0 \<le> r \<and> r \<le> 1) \<and>
    (u = [] \<longleftrightarrow> measured show battery ''capacity_evidence_class'' \<and>
       (\<forall>n \<in> fst ` set fs. measured show (dget battery ''factor_evidence_class'' (PDict [])) n))"
proof -
  obtain c l u0 ev items where e: "get_default battery ''capacity_evidence_class'' (PStr ''assumed'') = Inr c"
    "evidence_class_of show c ''battery.capacity_mah'' [] = Inr (l, u0)"
    "get_default battery ''factor_evidence_class'' (PDict []) = Inr ev"
    "fold_res (factor_step show ev) items (Fin 1, [], u0) = Inr (p, fs, u)"
    using assms unfolding reserve_of_def by (fastforce simp: bind_eq_Inr)
  show ?thesis using fold_factors[OF e(4)] evidence_class_Inr[OF e(2)] get_default_dget[OF e(1)] get_default_dget[OF e(3)]
    by (auto simp: measured_def)
qed

lemma conclude_Inr:
  assumes "conclude config v c h (p, fs, u0) (ls, t, u) = Inr b"
  shows "\<exists>n. fdiv (fmul v c) (Fin 1000) = Inr n \<and> nominal_battery_wh b = round_to 3 n \<and>
    usable_battery_wh b = round_to 3 (fmul n p) \<and> usable_capacity_fraction b = round_to 5 p \<and>
    usable_capacity_factors b = fs \<and> budget_loads b = ls \<and> unmeasured_inputs b = u \<and> release_ready b = (u = [])"
  using assms by (auto simp: conclude_def Let_def bind_eq_Inr)

lemma evaluate_Inr:
  assumes "evaluate show config = Inr b"
  shows "\<exists>battery v c h p fs u0 ls t u. getitem config ''battery'' = Inr battery \<and>
    reserve_of show battery = Inr (p, fs, u0) \<and>
    (\<exists>items. fold_res (load_step show) items ([], Fin 0, u0) = Inr (ls, t, u)) \<and>
    \<not> fle v (Fin 0) \<and> \<not> fle c (Fin 0) \<and> conclude config v c h (p, fs, u0) (ls, t, u) = Inr b"
  using assms unfolding evaluate_def by (fastforce simp: bind_eq_Inr split: if_splits)


section \<open>Properties\<close>

text \<open>C30 (functional). A budget is ready for release exactly when nothing it rests on is assumed: the battery
  capacity, every reserve factor and every load are of evidence class \<^verbatim>\<open>measured\<close>.\<close>

theorem release_ready_iff:
  assumes "evaluate show config = Inr b"
  shows "release_ready b \<longleftrightarrow>
       (let battery = dget config ''battery'' PNone in
        measured show battery ''capacity_evidence_class'' \<and>
        (\<forall>n \<in> fst ` set (usable_capacity_factors b). measured show (dget battery ''factor_evidence_class'' (PDict [])) n) \<and>
        (\<forall>l \<in> set (budget_loads b). load_class l = ''measured''))"
proof -
  obtain battery v c h p fs u0 ls t u items where e: "getitem config ''battery'' = Inr battery"
    "reserve_of show battery = Inr (p, fs, u0)" "fold_res (load_step show) items ([], Fin 0, u0) = Inr (ls, t, u)"
    "conclude config v c h (p, fs, u0) (ls, t, u) = Inr b"
    using evaluate_Inr[OF assms] by blast
  have d: "dget config ''battery'' PNone = battery" using e(1) by (cases config) (auto simp: of_option_def split: option.splits)
  note facts = conclude_Inr[OF e(4)] reserve_of_Inr[OF e(2)] fold_loads[OF e(3)]
  then have "release_ready b \<longleftrightarrow> u = []" "usable_capacity_factors b = fs" "budget_loads b = ls" by blast+
  then show ?thesis using facts(2,3) by (simp add: d Let_def)
qed

lemma round_to_mono: "fle a b \<Longrightarrow> fle (round_to k a) (round_to k b)"
proof (cases "(a, b)" rule: fle.cases)
  fix x y assume ab: "(a, b) = (Fin x, Fin y)" and le: "fle a b"
  then have "x * 10 ^ k \<le> y * 10 ^ k" by (simp add: mult_right_mono)
  then have "(of_int (round_half_even (x * 10 ^ k)) :: rat) \<le> of_int (round_half_even (y * 10 ^ k))"
    using round_half_even_mono by (simp only: of_int_le_iff)
  then have "of_int (round_half_even (x * 10 ^ k)) / 10 ^ k \<le> (of_int (round_half_even (y * 10 ^ k)) :: rat) / 10 ^ k"
    by (rule divide_right_mono) simp
  then show ?thesis using ab to_float_mono by simp
qed (auto simp: to_float_def Let_def elim!: fle.elims)


lemma quotient_facts:
  assumes "\<not> fle v (Fin 0)" "\<not> fle c (Fin 0)" "fdiv (fmul v c) (Fin 1000) = Inr (Fin x)"
  shows "representable x \<and> 0 \<le> x"
proof -
  obtain y where y: "fmul v c = Fin y" "to_float (y / 1000) = Fin x"
    using assms(3) by (cases "fmul v c") (auto simp: inf_of_sign_def split: if_splits)
  then obtain a d where ad: "v = Fin a" "c = Fin d" "to_float (a * d) = Fin y"
    by (cases "(v, c)" rule: fmul.cases) (auto simp: inf_of_sign_def split: if_splits)
  then have "0 \<le> a * d" using assms(1,2) by (simp add: not_le)
  then have "0 \<le> y" using to_float_mono[of 0 "a * d"] ad(3) by (simp add: to_float_eval)
  then have "0 \<le> x" using to_float_mono[of 0 "y / 1000"] y(2) by (simp add: to_float_eval)
  then show ?thesis using y(2) to_float_representable by blast
qed

text \<open>C31 (bounds). In floating point as in exact arithmetic, the reserve never adds energy: the reported usable
  fraction lies in [0, 1] and, when the nominal energy is finite, the usable energy reported is between zero
  and the nominal energy reported.\<close>

theorem usable_at_most_nominal:
  assumes "evaluate show config = Inr b"
  shows "fle (Fin 0) (usable_capacity_fraction b) \<and> fle (usable_capacity_fraction b) (Fin 1) \<and>
    (is_fin (nominal_battery_wh b) \<longrightarrow>
       fle (Fin 0) (usable_battery_wh b) \<and> fle (usable_battery_wh b) (nominal_battery_wh b))"
proof -
  obtain battery v c h p fs u0 ls t u where e: "reserve_of show battery = Inr (p, fs, u0)"
    "\<not> fle v (Fin 0)" "\<not> fle c (Fin 0)" "conclude config v c h (p, fs, u0) (ls, t, u) = Inr b"
    using evaluate_Inr[OF assms] by blast
  obtain r where r: "p = Fin r" "representable r" "0 \<le> r" "r \<le> 1" using reserve_of_Inr[OF e(1)] by blast
  obtain n where n: "fdiv (fmul v c) (Fin 1000) = Inr n" "nominal_battery_wh b = round_to 3 n"
    "usable_battery_wh b = round_to 3 (fmul n p)" "usable_capacity_fraction b = round_to 5 p"
    using conclude_Inr[OF e(4)] by blast
  have zero: "round_to k (Fin 0) = Fin 0" "round_to k (Fin 1) = Fin 1" for k
    using round_half_even_of_int[of "10 ^ k"] by (simp_all add: to_float_eval round_half_even_eval)
  have "fle (Fin 0) (round_to 5 p)" "fle (round_to 5 p) (Fin 1)"
    using round_to_mono[of "Fin 0" p 5] round_to_mono[of p "Fin 1" 5] r zero by (simp_all del: round_to.simps)
  moreover have "fle (Fin 0) (usable_battery_wh b) \<and> fle (usable_battery_wh b) (nominal_battery_wh b)"
    if fin: "is_fin (nominal_battery_wh b)"
  proof -
    obtain x where x: "n = Fin x" using fin n(2) by (cases n) auto
    have q: "representable x \<and> 0 \<le> x" by (rule quotient_facts[OF e(2,3) n(1)[unfolded x]])
    obtain y where y: "fmul n p = Fin y" "0 \<le> y" "y \<le> x" using fmul_le_left[of x r] q r x by blast
    show ?thesis using round_to_mono[of "Fin 0" "Fin y" 3] round_to_mono[of "Fin y" "Fin x" 3] y x n zero
      by (simp del: round_to.simps)
  qed
  ultimately show ?thesis using n by simp
qed


text \<open>The same check admits a battery voltage that is not a number, which no comparison rejects.\<close>

definition sample_budget :: "pyval \<Rightarrow> pyval" where
  "sample_budget voltage = PDict [(''name'', PStr ''t''), (''status'', PStr ''assumed''), (''target_endurance_h'', PInt 8),
     (''battery'', PDict [(''nominal_voltage_v'', voltage), (''capacity_mah'', PInt 1000),
        (''capacity_evidence_class'', PStr ''measured''), (''usable_capacity_factors'', PDict [])]),
     (''loads'', PList [PDict [(''name'', PStr ''l''), (''evidence'', PStr ''e''), (''evidence_class'', PStr ''measured''),
        (''power_mw'', PInt 500)]])]"

lemmas budget_eval = sample_budget_def evaluate_def reserve_of_def evidence_class_of_def VALID_EVIDENCE_CLASSES_def load_step_def
  load_rail_def conclude_def str_of_def to_float_eval float_of_int_eval

lemma sample_budget_accepted: "\<exists>b. evaluate no_show (sample_budget (PInt 4)) = Inr b \<and> is_fin (nominal_battery_wh b)"
  by (simp add: budget_eval fsub_def round_half_even_eval Let_def)

lemma nan_voltage_accepted: "\<exists>b. evaluate no_show (sample_budget (PFloat NaN)) = Inr b \<and> release_ready b"
  by (simp add: budget_eval fsub_def round_half_even_eval Let_def)

theorem release_ready_iff_witness:
  "\<exists>b. evaluate no_show (sample_budget (PInt 4)) = Inr b \<and>
     (release_ready b \<longrightarrow> measured no_show (dget (sample_budget (PInt 4)) ''battery'' PNone) ''capacity_evidence_class'')"
proof -
  obtain b where b: "evaluate no_show (sample_budget (PInt 4)) = Inr b" using sample_budget_accepted by blast
  show ?thesis using b release_ready_iff[OF b] by (simp add: Let_def)
qed

theorem usable_at_most_nominal_witness:
  "\<exists>b. evaluate no_show (sample_budget (PInt 4)) = Inr b \<and> fle (usable_battery_wh b) (nominal_battery_wh b)"
  using sample_budget_accepted usable_at_most_nominal by blast

end
