(* ===== verification/Fixture_Readiness.thy ===== *)
theory Fixture_Readiness
  imports Py_Json Py_Path
begin

text \<open>
  \<^verbatim>\<open>tools/prototype0_fixture_readiness.py\<close>: the readiness metadata of the three external fixtures (gates
  E0-03, E0-05 and E0-07): its templates and their completion from assignments, its validation, and the
  analyzer command a ready fixture is run with.  \<open>loads\<close> stands for \<^verbatim>\<open>json.loads\<close> of an assigned text
  (\<open>None\<close> where it raises \<^verbatim>\<open>JSONDecodeError\<close>), \<open>show\<close> for the text of a float or container.
\<close>

definition REQUIRED_AUDIO_EVENTS :: "string list" where
  "REQUIRED_AUDIO_EVENTS = [''impulse'', ''capture_frame'', ''packet_queue'', ''tx_start'', ''rx_done'', ''playback_output'']"

definition READINESS_SCHEMA :: string where
  "READINESS_SCHEMA = ''prototype0-fixture-readiness-v1''"

definition DEFAULT_AUDIO_EVENT_ALIASES :: "(string \<times> string) list" where
  "DEFAULT_AUDIO_EVENT_ALIASES =
     [(''impulse'', ''impulse''), (''capture'', ''capture_frame''), (''queue'', ''packet_queue''), (''tx_start'', ''tx_start''),
      (''rx'', ''rx_done''), (''playback'', ''playback_output'')]"

definition alias_keys :: "string list" where
  "alias_keys = map fst DEFAULT_AUDIO_EVENT_ALIASES"

definition default_aliases :: pyval where
  "default_aliases = PDict (map (\<lambda>(k, v). (k, PStr v)) DEFAULT_AUDIO_EVENT_ALIASES)"

section \<open>Texts, numbers and paths\<close>

text \<open>\<^verbatim>\<open>_number\<close>: what \<^verbatim>\<open>float\<close> rejects as a type or a value is absent; an integer beyond the float range
  still raises.\<close>

definition number_of :: "pyval \<Rightarrow> pyfloat option result" where
  "number_of v =
     (case py_float v of
        Inr x \<Rightarrow> Inr (Some x)
      | Inl TypeError \<Rightarrow> Inr None
      | Inl (ValueError _) \<Rightarrow> Inr None
      | Inl e \<Rightarrow> Inl e)"

definition PLACEHOLDER_FRAGMENTS :: "string list" where
  "PLACEHOLDER_FRAGMENTS = [''yyyy'', ''describe'', ''model'', ''attenuator db'', ''shielding method'', ''electrical or acoustic'']"

definition filled_string :: "string \<Rightarrow> bool" where
  "filled_string s \<longleftrightarrow> strip s \<noteq> [] \<and> \<not> list_ex (\<lambda>p. has_sub p (lower (strip s))) PLACEHOLDER_FRAGMENTS"

fun is_filled_text :: "pyval \<Rightarrow> bool" where
  "is_filled_text (PStr s) = filled_string s"
| "is_filled_text _ = False"

fun has_suffix :: "pyval \<Rightarrow> string \<Rightarrow> bool" where
  "has_suffix (PStr s) suffix = (filled_string s \<and> lower (path_suffix s) = suffix)"
| "has_suffix _ _ = False"

definition posix_string :: "string \<Rightarrow> string" where
  "posix_string s = map (\<lambda>c. if c = CHR 0x5C then CHR ''/'' else c) s"

definition as_posix_path :: "(pyval \<Rightarrow> string) \<Rightarrow> pyval \<Rightarrow> string" where
  "as_posix_path show v = posix_string (str_of show v)"

text \<open>\<^verbatim>\<open>Path(value)\<close> of a value that is not a string raises.\<close>

fun string_of :: "pyval \<Rightarrow> string result" where
  "string_of (PStr s) = Inr s"
| "string_of _ = Inl TypeError"

definition summary_json_for_csv :: "pyval \<Rightarrow> string result" where
  "summary_json_for_csv v = bind (string_of v) (\<lambda>s. bind (path_with_suffix s ''.summary.json'') (Inr \<circ> posix_string))"

definition attenuation_name :: "string \<Rightarrow> string" where
  "attenuation_name n =
     (if ends_with n ''-step-00-baseline.json'' then take (length n - 22) n
      else if ends_with n ''-baseline.json'' then take (length n - 14) n
      else name_stem n) @ ''-attenuation-summary.json''"

definition attenuation_summary_json :: "pyval \<Rightarrow> string result" where
  "attenuation_summary_json v =
     bind (string_of v) (\<lambda>s. bind (path_with_name s (attenuation_name (path_name s))) (Inr \<circ> posix_string))"

definition quote_item :: "string \<Rightarrow> string" where
  "quote_item s =
     (if s = [] \<or> list_ex is_space s \<or> CHR 0x27 \<in> set s
      then [CHR 0x27] @ concat (map (\<lambda>c. if c = CHR 0x27 then [c, c] else [c]) s) @ [CHR 0x27] else s)"

definition command_text :: "string list \<Rightarrow> string" where
  "command_text command = join_with '' '' (map quote_item command)"

section \<open>Completing a template\<close>

definition coerce_set_value :: "(string \<Rightarrow> pyval option) \<Rightarrow> string \<Rightarrow> pyval" where
  "coerce_set_value loads s =
     (let l = lower s
      in if l = ''true'' then PBool True else if l = ''false'' then PBool False else if l = ''null'' then PNone
         else if starts_with s ''{'' \<or> starts_with s ''['' then (case loads s of Some v \<Rightarrow> v | None \<Rightarrow> PStr s)
         else case parse_int s of
             Inr n \<Rightarrow> PInt n
           | Inl _ \<Rightarrow> (case parse_float s of Inr x \<Rightarrow> PFloat x | Inl _ \<Rightarrow> PStr s))"

text \<open>\<^verbatim>\<open>str.isdigit\<close>, which also holds of superscript digits, and the index such a text names.\<close>

definition str_isdigit :: "string \<Rightarrow> bool" where
  "str_isdigit s \<longleftrightarrow> s \<noteq> [] \<and> list_all (\<lambda>c. is_digit c \<or> (of_char c :: nat) \<in> {178, 179, 185}) s"

definition list_index :: "string \<Rightarrow> pyval list \<Rightarrow> string \<Rightarrow> nat result" where
  "list_index assignment xs part =
     (if \<not> str_isdigit part then Inl (ValueError (''list path segment must be numeric: '' @ assignment))
      else bind (parse_int part) (\<lambda>n. if n < int (length xs) then Inr (nat n) else Inl IndexError))"

fun set_path :: "string \<Rightarrow> pyval \<Rightarrow> string list \<Rightarrow> pyval \<Rightarrow> pyval result" where
  "set_path assignment v [] target = Inl IndexError"
| "set_path assignment v [leaf] target =
     (case target of
        PList xs \<Rightarrow> bind (list_index assignment xs leaf) (\<lambda>i. Inr (PList (xs[i := v])))
      | PDict d \<Rightarrow> if leaf \<notin> fst ` set d then Inl (ValueError (''unknown assignment path: '' @ assignment))
                   else Inr (PDict (dict_set leaf v d))
      | _ \<Rightarrow> Inl (ValueError (''assignment path cannot set scalar: '' @ assignment)))"
| "set_path assignment v (part # q # rest) target =
     (case target of
        PList xs \<Rightarrow> bind (list_index assignment xs part) (\<lambda>i.
          bind (set_path assignment v (q # rest) (xs ! i)) (\<lambda>t. Inr (PList (xs[i := t]))))
      | PDict d \<Rightarrow> (case map_of d part of
            None \<Rightarrow> Inl (ValueError (''unknown assignment path: '' @ assignment))
          | Some u \<Rightarrow> bind (set_path assignment v (q # rest) u) (\<lambda>t. Inr (PDict (dict_set part t d))))
      | _ \<Rightarrow> Inl (ValueError (''assignment path cannot descend through scalar: '' @ assignment)))"

definition apply_set :: "(string \<Rightarrow> pyval option) \<Rightarrow> string \<Rightarrow> pyval \<Rightarrow> pyval result" where
  "apply_set loads assignment data =
     (case split_first (CHR ''='') assignment of
        None \<Rightarrow> Inl (ValueError (''assignment must be path=value: '' @ assignment))
      | Some (path, raw_value) \<Rightarrow>
          let parts = filter (\<lambda>p. p \<noteq> []) (split_on (CHR ''.'') path)
          in if parts = [] then Inl (ValueError (''assignment path is empty: '' @ assignment))
             else set_path assignment (coerce_set_value loads raw_value) parts data)"

definition STEP_KEYS :: "string list" where
  "STEP_KEYS = [''label'', ''physical_setting'', ''summary_json'']"

definition step_item :: "string \<Rightarrow> string \<Rightarrow> (string \<times> pyval) list \<Rightarrow> (string \<times> pyval) list result" where
  "step_item assignment part step =
     (case split_first (CHR ''='') part of
        None \<Rightarrow> Inl (ValueError (''attenuated step item must be key=value: '' @ assignment))
      | Some (key, v) \<Rightarrow>
          if strip key \<notin> set STEP_KEYS then Inl (ValueError (''unsupported attenuated step key: '' @ strip key))
          else Inr (dict_set (strip key) (PStr (strip v)) step))"

definition parse_step_assignment :: "string \<Rightarrow> pyval result" where
  "parse_step_assignment assignment =
     (let parts = filter (\<lambda>p. p \<noteq> []) (map strip (split_on (CHR '','') assignment))
      in bind (fold_res (step_item assignment) parts []) (\<lambda>step.
           let missing = filter (\<lambda>k. k \<notin> fst ` set step) STEP_KEYS
           in if missing \<noteq> [] then Inl (ValueError (''attenuated step missing: '' @ join_with '', '' missing))
              else Inr (PDict step)))"

text \<open>\<^verbatim>\<open>data[key] = v\<close>.\<close>

fun set_item :: "string \<Rightarrow> pyval \<Rightarrow> pyval \<Rightarrow> pyval result" where
  "set_item k v (PDict d) = Inr (PDict (dict_set k v d))"
| "set_item k v _ = Inl TypeError"

definition apply_attenuated_steps :: "string list \<Rightarrow> pyval \<Rightarrow> pyval result" where
  "apply_attenuated_steps assignments data =
     (if assignments = [] then Inr data
      else bind (map_res parse_step_assignment assignments) (\<lambda>steps. set_item ''attenuated_steps'' (PList steps) data))"

definition parse_audio_event_assignment :: "string \<Rightarrow> (string \<times> string) result" where
  "parse_audio_event_assignment assignment =
     (case split_first (CHR ''='') assignment of
        None \<Rightarrow> Inl (ValueError (''audio event assignment must be key=value: '' @ assignment))
      | Some (k, v) \<Rightarrow>
          let key = strip k; label = strip v
          in if key \<notin> set alias_keys
             then Inl (ValueError (''unsupported audio event key '' @ key @ ''; expected one of '' @ join_with '', '' (sort alias_keys)))
             else if \<not> filled_string label then Inl (ValueError (''audio event '' @ key @ '' must have a filled label''))
             else Inr (key, label))"

text \<open>\<^verbatim>\<open>dict(v)\<close>: of a dictionary its copy, of anything else its elements read as pairs.\<close>

definition pair_of :: "pyval \<Rightarrow> (pyval \<times> pyval) result" where
  "pair_of x = bind (py_iter x) (\<lambda>ys. case ys of
     [k, v] \<Rightarrow> if hashable k then Inr (k, v) else Inl TypeError
   | _ \<Rightarrow> Inl (ValueError ''dictionary update sequence element has the wrong length''))"

definition dict_of :: "pyval \<Rightarrow> pyval vdict result" where
  "dict_of v =
     (case v of
        PDict d \<Rightarrow> Inr (map (\<lambda>(k, x). (PStr k, x)) d)
      | _ \<Rightarrow> bind (py_iter v) (\<lambda>xs. fold_res (\<lambda>x d. bind (pair_of x) (\<lambda>(k, y). Inr (vdict_set k y d))) xs []))"

text \<open>\<^verbatim>\<open>sorted(aliases)\<close> of keys one of which is a string raises unless all are.\<close>

definition string_keys :: "pyval vdict \<Rightarrow> (string \<times> pyval) list result" where
  "string_keys d = map_res (\<lambda>(k, v). bind (string_of k) (\<lambda>s. Inr (s, v))) d"

definition apply_audio_events :: "string list \<Rightarrow> pyval \<Rightarrow> pyval result" where
  "apply_audio_events assignments data =
     (if assignments = [] then Inr data
      else bind (bind (get_default data ''event_aliases'' default_aliases) dict_of) (\<lambda>old.
        bind (fold_res (\<lambda>a d. bind (parse_audio_event_assignment a) (\<lambda>(k, label).
          Inr (vdict_set (PStr k) (PStr label) d))) assignments old) (\<lambda>new.
        bind (string_keys new) (\<lambda>aliases.
        bind (set_item ''event_aliases'' (PDict aliases) data)
          (set_item ''events'' (PList (map snd (sort_key fst aliases))))))))"


section \<open>Templates\<close>

definition template_e003 :: pyval where
  "template_e003 = PDict [(''schema'', PStr READINESS_SCHEMA), (''gate'', PStr ''E0-03''),
     (''instrument'', PStr ''logic analyzer or oscilloscope model''), (''ground_connected'', PBool False),
     (''sample_rate_hz'', PInt 5000000), (''channels'', PDict [(''queue'', PStr ''PB3''), (''start'', PStr ''PB2'')]),
     (''expected_samples'', PInt 100),
     (''output_csv'', PStr ''firmware/prototype0/fg23/results/YYYYMMDD-e0-03-scheduled-tx-gpio.csv''),
     (''analyzer_flags'', PList [PStr ''--fail-on-unpaired-edges''])]"

definition template_e005 :: pyval where
  "template_e005 = PDict [(''schema'', PStr READINESS_SCHEMA), (''gate'', PStr ''E0-05''),
     (''method'', PStr ''calibrated attenuator, shield box, or repeatable shielding''), (''rf_path'', PInt 0),
     (''same_direction_all_steps'', PBool True), (''packet_count_per_step'', PInt 200),
     (''baseline_summary_json'', PStr ''firmware/prototype0/fg23/results/YYYYMMDD-e0-05-step-00-baseline.json''),
     (''attenuated_steps'', PList [PDict [(''label'', PStr ''step-01''),
        (''physical_setting'', PStr ''attenuator dB or shielding method''),
        (''summary_json'', PStr ''firmware/prototype0/fg23/results/YYYYMMDD-e0-05-step-01.json'')]]),
     (''physical_setup_note'', PStr ''describe fixture, cable path, spacing, enclosure, or body/shielding method'')]"

definition template_e007 :: pyval where
  "template_e007 = PDict [(''schema'', PStr READINESS_SCHEMA), (''gate'', PStr ''E0-07''),
     (''fixture_method'', PStr ''electrical or acoustic loopback method''), (''firmware_timing_markers'', PBool False),
     (''expected_samples'', PInt 10), (''target_latency_ms'', PInt 120), (''max_latency_ms'', PInt 180),
     (''events'', PList (map PStr (sort REQUIRED_AUDIO_EVENTS))), (''event_aliases'', default_aliases),
     (''output_csv'', PStr ''firmware/prototype0/fg23/results/YYYYMMDD-e0-07-audio-loopback.csv'')]"

definition template :: "string \<Rightarrow> pyval result" where
  "template gate =
     (if gate = ''E0-03'' then Inr template_e003
      else if gate = ''E0-05'' then Inr template_e005
      else if gate = ''E0-07'' then Inr template_e007
      else Inl (ValueError (''unsupported gate '' @ gate)))"

section \<open>Validation\<close>

text \<open>\<^verbatim>\<open>(_number(v) or 0) < n\<close>.\<close>

definition below :: "pyval \<Rightarrow> int \<Rightarrow> bool result" where
  "below v n = bind (number_of v) (\<lambda>x. Inr (flt (case x of None \<Rightarrow> Fin 0 | Some f \<Rightarrow> f) (fint n)))"

definition scheduled_report :: "pyval \<Rightarrow> report" where
  "scheduled_report data =
     (let channels = (case got data ''channels'' of PDict d \<Rightarrow> PDict d | _ \<Rightarrow> PDict []);
          flags = dget data ''analyzer_flags'' (PList []);
          flags_ok = (case flags of PList xs \<Rightarrow> list_all is_str xs | _ \<Rightarrow> False)
      in all_of
        [Inr (msg_if (\<not> is_filled_text (got data ''instrument'')) ''instrument is required''),
         Inr (msg_if (got data ''ground_connected'' \<noteq> PBool True) ''ground_connected must be true''),
         say (below (got data ''sample_rate_hz'') 5000000) ''sample_rate_hz must be at least 5000000'',
         Inr (msg_if (got channels ''queue'' \<noteq> PStr ''PB3'') ''channels.queue must be PB3''),
         Inr (msg_if (got channels ''start'' \<noteq> PStr ''PB2'') ''channels.start must be PB2''),
         say (below (got data ''expected_samples'') 100) ''expected_samples must be at least 100'',
         Inr (msg_if (\<not> has_suffix (got data ''output_csv'') ''.csv'') ''output_csv must be a filled .csv path''),
         Inr (msg_if (\<not> flags_ok) ''analyzer_flags must be a list of strings''),
         Inr (msg_if (\<not> (flags_ok \<and> py_in (PStr ''--fail-on-unpaired-edges'') flags = Inr True))
           ''analyzer_flags must include --fail-on-unpaired-edges'')])"

definition step_errors :: "nat \<Rightarrow> pyval \<Rightarrow> string list" where
  "step_errors i step =
     (let p = ''attenuated_steps['' @ show_int (int i) @ '']''
      in if \<not> is_dict step then [p @ '' must be an object'']
         else msg_if (\<not> is_filled_text (got step ''label'')) (p @ ''.label is required'') @
              msg_if (\<not> is_filled_text (got step ''physical_setting'')) (p @ ''.physical_setting is required'') @
              msg_if (\<not> has_suffix (got step ''summary_json'') ''.json'') (p @ ''.summary_json must be a filled .json path''))"

text \<open>The stripped labels of the steps that have one.\<close>

fun step_labels :: "pyval list \<Rightarrow> string list" where
  "step_labels [] = []"
| "step_labels (step # steps) =
     (case got step ''label'' of
        PStr s \<Rightarrow> if is_dict step \<and> filled_string s then strip s # step_labels steps else step_labels steps
      | _ \<Rightarrow> step_labels steps)"

definition attenuation_report :: "pyval \<Rightarrow> report" where
  "attenuation_report data = all_of
     [Inr (msg_if (\<not> is_filled_text (got data ''method'')) ''method is required''),
      Inr (msg_if (\<not> py_eq (got data ''rf_path'') (PInt 0)) ''rf_path must be 0 for the qualified bench path''),
      Inr (msg_if (got data ''same_direction_all_steps'' \<noteq> PBool True) ''same_direction_all_steps must be true''),
      say (below (got data ''packet_count_per_step'') 200) ''packet_count_per_step must be at least 200'',
      Inr (msg_if (\<not> has_suffix (got data ''baseline_summary_json'') ''.json'')
        ''baseline_summary_json must be a filled .json path''),
      Inr (case got data ''attenuated_steps'' of
          PList (s # ss) \<Rightarrow> concat (map (\<lambda>(i, x). step_errors i x) (enumerate 0 (s # ss))) @
            msg_if (\<not> distinct (step_labels (s # ss))) ''attenuated_steps labels must be unique''
        | _ \<Rightarrow> [''attenuated_steps must contain at least one step'']),
      Inr (msg_if (\<not> is_filled_text (got data ''physical_setup_note'')) ''physical_setup_note is required'')]"

definition latency_errors :: "pyfloat option \<Rightarrow> pyfloat option \<Rightarrow> string list" where
  "latency_errors target maximum =
     msg_if (case target of None \<Rightarrow> True | Some t \<Rightarrow> fle t (Fin 0)) ''target_latency_ms must be positive'' @
     msg_if (case maximum of None \<Rightarrow> True | Some m \<Rightarrow> fle m (Fin 0)) ''max_latency_ms must be positive'' @
     msg_if (case (target, maximum) of (Some t, Some m) \<Rightarrow> flt m t | _ \<Rightarrow> False)
       ''max_latency_ms must be greater than or equal to target_latency_ms''"

text \<open>The event labels the aliases stand for, and what is wrong with the aliases.\<close>

definition alias_check :: "pyval \<Rightarrow> string list \<times> string list" where
  "alias_check aliases =
     (case aliases of
        PDict d \<Rightarrow>
          if fst ` set d \<noteq> set alias_keys
          then ([''event_aliases must contain: '' @ join_with '', '' (sort alias_keys)], REQUIRED_AUDIO_EVENTS)
          else if \<not> list_all (is_filled_text \<circ> snd) d
          then ([''event_aliases values must be filled strings''], REQUIRED_AUDIO_EVENTS)
          else let labels = map (str_of (\<lambda>_. []) \<circ> snd) d
            in (msg_if (\<not> distinct labels) ''event_aliases values must be unique'', labels)
      | _ \<Rightarrow> ([''event_aliases must contain: '' @ join_with '', '' (sort alias_keys)], REQUIRED_AUDIO_EVENTS))"

text \<open>The labels listed under \<^verbatim>\<open>events\<close>, nothing where that is not a list of strings.\<close>

definition event_labels :: "pyval \<Rightarrow> string list option" where
  "event_labels v = (case v of PList xs \<Rightarrow> if list_all is_str xs then Some (map (str_of (\<lambda>_. [])) xs) else None | _ \<Rightarrow> None)"

definition event_errors :: "string list \<Rightarrow> pyval \<Rightarrow> string list" where
  "event_errors expected v =
     (let raw = (case event_labels v of Some xs \<Rightarrow> xs | None \<Rightarrow> []);
          missing = sort (remdups (filter (\<lambda>e. e \<notin> set raw) expected));
          unexpected = sort (remdups (filter (\<lambda>e. e \<notin> set expected) raw))
      in msg_if (event_labels v = None) ''events must be a list of strings'' @
         msg_if (\<not> distinct raw) ''events must not contain duplicates'' @
         msg_if (missing \<noteq> []) (''events missing: '' @ join_with '', '' missing) @
         msg_if (unexpected \<noteq> []) (''events unexpected: '' @ join_with '', '' unexpected))"

definition loopback_report :: "pyval \<Rightarrow> report" where
  "loopback_report data =
     (let (alias_errors, expected) = alias_check (dget data ''event_aliases'' default_aliases)
      in all_of
        [Inr (msg_if (\<not> is_filled_text (got data ''fixture_method'')) ''fixture_method is required''),
         Inr (msg_if (got data ''firmware_timing_markers'' \<noteq> PBool True) ''firmware_timing_markers must be true''),
         say (below (got data ''expected_samples'') 10) ''expected_samples must be at least 10'',
         bind (number_of (got data ''target_latency_ms'')) (\<lambda>target.
           bind (number_of (got data ''max_latency_ms'')) (\<lambda>maximum. Inr (latency_errors target maximum))),
         Inr alias_errors,
         Inr (event_errors expected (dget data ''events'' (PList []))),
         Inr (msg_if (\<not> has_suffix (got data ''output_csv'') ''.csv'') ''output_csv must be a filled .csv path'')])"

definition validate_readiness :: "string \<Rightarrow> pyval \<Rightarrow> report" where
  "validate_readiness gate data =
     (if \<not> is_dict data then Inl AttributeError
      else all_of
        [Inr (msg_if (got data ''schema'' \<noteq> PStr READINESS_SCHEMA) (''schema must be '' @ READINESS_SCHEMA)),
         Inr (msg_if (got data ''gate'' \<noteq> PStr gate) (''gate must be '' @ gate)),
         if gate = ''E0-03'' then scheduled_report data
         else if gate = ''E0-05'' then attenuation_report data
         else if gate = ''E0-07'' then loopback_report data
         else Inr [''unsupported gate '' @ gate]])"


section \<open>The analyzer command\<close>

definition item :: "(pyval \<Rightarrow> string) \<Rightarrow> pyval \<Rightarrow> string \<Rightarrow> pyval result" where
  "item show data k = bind (getitem data k) (\<lambda>v. Inr (PStr (str_of show v)))"

definition path_item :: "(pyval \<Rightarrow> string) \<Rightarrow> pyval \<Rightarrow> string \<Rightarrow> pyval result" where
  "path_item show data k = bind (getitem data k) (\<lambda>v. Inr (PStr (as_posix_path show v)))"

definition scheduled_command :: "(pyval \<Rightarrow> string) \<Rightarrow> pyval \<Rightarrow> pyval list result" where
  "scheduled_command show data =
     bind (bind (get_default data ''analyzer_flags'' (PList [])) py_iter) (\<lambda>flags.
     bind (path_item show data ''output_csv'') (\<lambda>csv.
     bind (bind (getitem data ''channels'') (\<lambda>c. getitem c ''queue'')) (\<lambda>queue.
     bind (bind (getitem data ''channels'') (\<lambda>c. getitem c ''start'')) (\<lambda>start.
     bind (item show data ''expected_samples'') (\<lambda>samples.
     bind (bind (getitem data ''output_csv'') summary_json_for_csv) (\<lambda>json.
     Inr ([PStr ''python'', PStr ''tools/analyze_scheduled_tx_gpio.py'', csv, PStr ''--queue-channel'', queue,
           PStr ''--start-channel'', start, PStr ''--expected-samples'', samples] @ flags @ [PStr ''--json'', PStr json])))))))"

definition attenuation_command :: "(pyval \<Rightarrow> string) \<Rightarrow> pyval \<Rightarrow> pyval list result" where
  "attenuation_command show data =
     bind (getitem data ''attenuated_steps'') (\<lambda>steps.
     bind (path_item show data ''baseline_summary_json'') (\<lambda>baseline.
     bind (bind (py_iter steps) (map_res (\<lambda>step. path_item show step ''summary_json''))) (\<lambda>summaries.
     bind (bind (py_iter steps) (map_res (\<lambda>step. getitem step ''label''))) (\<lambda>labels.
     bind (bind (getitem data ''baseline_summary_json'') attenuation_summary_json) (\<lambda>json.
     Inr ([PStr ''python'', PStr ''tools/analyze_attenuation_sweep.py''] @ (baseline # summaries) @ [PStr ''--labels''] @
          (PStr ''baseline'' # labels) @
          [PStr ''--min-steps'', PStr (show_int (int (length (baseline # summaries)))), PStr ''--json'', PStr json]))))))"

text \<open>The renamed events as arguments, in the order of the sorted keys.\<close>

definition alias_args :: "(pyval \<Rightarrow> string) \<Rightarrow> pyval \<Rightarrow> pyval list result" where
  "alias_args show aliases =
     bind (map_res (\<lambda>k. bind (get_default aliases k PNone) (\<lambda>v.
         if Some v = map_option PStr (map_of DEFAULT_AUDIO_EVENT_ALIASES k) then Inr []
         else bind (getitem aliases k) (\<lambda>v. Inr [PStr ''--event'', PStr (k @ ''='' @ str_of show v)]))) (sort alias_keys))
       (Inr \<circ> concat)"

definition loopback_command :: "(pyval \<Rightarrow> string) \<Rightarrow> pyval \<Rightarrow> pyval list result" where
  "loopback_command show data =
     bind (bind (get_default data ''event_aliases'' default_aliases) (alias_args show)) (\<lambda>aliases.
     bind (path_item show data ''output_csv'') (\<lambda>csv.
     bind (item show data ''expected_samples'') (\<lambda>samples.
     bind (item show data ''target_latency_ms'') (\<lambda>target.
     bind (item show data ''max_latency_ms'') (\<lambda>maximum.
     bind (bind (getitem data ''output_csv'') summary_json_for_csv) (\<lambda>json.
     Inr ([PStr ''python'', PStr ''tools/analyze_audio_loopback.py'', csv, PStr ''--expected-samples'', samples,
           PStr ''--target-latency-ms'', target, PStr ''--max-latency-ms'', maximum] @ aliases @ [PStr ''--json'', PStr json])))))))"

definition analysis_command :: "(pyval \<Rightarrow> string) \<Rightarrow> string \<Rightarrow> pyval \<Rightarrow> pyval list option result" where
  "analysis_command show gate data =
     (if gate = ''E0-03'' then bind (scheduled_command show data) (Inr \<circ> Some)
      else if gate = ''E0-05'' then bind (attenuation_command show data) (Inr \<circ> Some)
      else if gate = ''E0-07'' then bind (loopback_command show data) (Inr \<circ> Some)
      else Inr None)"

section \<open>The modes of the tool\<close>

text \<open>The assignments are applied to a fresh template, then the result is validated; a \<^verbatim>\<open>ValueError\<close> of an
  assignment ends the tool.  The Boolean is whether the exit code is 0.\<close>

definition fill :: "(string \<Rightarrow> pyval option) \<Rightarrow> string \<Rightarrow> string list \<Rightarrow> string list \<Rightarrow> string list \<Rightarrow> (pyval \<times> bool) result" where
  "fill loads gate assignments steps events =
     bind (template gate) (\<lambda>t0.
     bind (fold_res (apply_set loads) assignments t0) (\<lambda>t1.
     bind (apply_attenuated_steps steps t1) (\<lambda>t2.
     bind (apply_audio_events events t2) (\<lambda>result.
     bind (validate_readiness gate result) (\<lambda>failures.
       Inr (if failures = [] then (result, True)
            else (PDict [(''gate'', PStr gate), (''pass'', PBool False), (''failures'', PList (map PStr failures)),
                         (''metadata'', result)], False)))))))"

text \<open>\<^verbatim>\<open>char.isspace()\<close> and \<^verbatim>\<open>"'" in item\<close> are asked of strings only.\<close>

definition check_mode :: "(pyval \<Rightarrow> string) \<Rightarrow> string \<Rightarrow> string \<Rightarrow> pyval \<Rightarrow> (pyval \<times> bool) result" where
  "check_mode show gate file data =
     bind (validate_readiness gate data) (\<lambda>failures.
       let report = [(''gate'', PStr gate), (''input'', PStr file), (''pass'', PBool (failures = [])),
                     (''failures'', PList (map PStr failures))]
       in if failures \<noteq> [] then Inr (PDict report, False)
          else bind (analysis_command show gate data) (\<lambda>command.
            bind (map_res string_of (case command of Some c \<Rightarrow> c | None \<Rightarrow> [])) (\<lambda>items.
              Inr (PDict (report @ [(''analysis_command'', case command of Some c \<Rightarrow> PList c | None \<Rightarrow> PNone),
                                    (''analysis_command_text'', PStr (command_text items))]), True))))"

section \<open>A ready fixture has a command\<close>

lemma number_of_Some: "below v n = Inr False \<Longrightarrow> 0 < n \<Longrightarrow> v \<noteq> PNone"
  by (auto simp: below_def number_of_def fint_def)

lemma got_getitem:
  assumes "is_dict data" "got data k \<noteq> PNone"
  shows "getitem data k = Inr (got data k)"
  using assms by (cases data) (auto simp: got_def split: option.splits)

lemma has_suffixE:
  assumes "has_suffix v suffix" "suffix \<noteq> []"
  obtains s where "v = PStr s" "filled_string s" "path_suffix s \<noteq> []"
  using assms by (cases "(v, suffix)" rule: has_suffix.cases) (auto simp: lower_def)


lemma suffix_getitem:
  assumes "is_dict data" "has_suffix (got data k) suffix" "suffix \<noteq> []"
  obtains s where "getitem data k = Inr (PStr s)" "path_suffix s \<noteq> []" "filled_string s"
proof -
  obtain s where s: "got data k = PStr s" "filled_string s" "path_suffix s \<noteq> []"
    using assms(2,3) by (rule has_suffixE)
  then show thesis using that got_getitem[OF assms(1), of k] by simp
qed

lemma summary_json_for_csv_ok: "path_suffix s \<noteq> [] \<Longrightarrow> \<exists>t. summary_json_for_csv (PStr s) = Inr t"
  using path_with_suffix_ok[of s "''.summary.json''"] by (auto simp: summary_json_for_csv_def)

lemma attenuation_summary_json_ok: "path_suffix s \<noteq> [] \<Longrightarrow> \<exists>t. attenuation_summary_json (PStr s) = Inr t"
  using path_with_name_ok[of s "attenuation_name (path_name s)"] by (auto simp: attenuation_summary_json_def)

lemma scheduled_ready:
  assumes d: "is_dict data" and ok: "scheduled_report data = Inr []"
  shows "\<exists>cmd. scheduled_command show data = Inr cmd \<and> list_all is_str cmd"
proof -
  have csv: "has_suffix (got data ''output_csv'') ''.csv''" and n: "below (got data ''expected_samples'') 100 = Inr False"
    using ok by (auto simp: scheduled_report_def Let_def simp del: has_suffix.simps all_of.simps)
  obtain s where s: "getitem data ''output_csv'' = Inr (PStr s)" "path_suffix s \<noteq> []"
    using suffix_getitem[OF d csv] by auto
  obtain j where j: "summary_json_for_csv (PStr s) = Inr j" using summary_json_for_csv_ok[OF s(2)] by blast
  have samples: "getitem data ''expected_samples'' = Inr (got data ''expected_samples'')"
    using got_getitem[OF d] number_of_Some[OF n] by simp
  obtain xs where xs: "dget data ''analyzer_flags'' (PList []) = PList xs" "list_all is_str xs"
    using ok by (auto simp: scheduled_report_def Let_def simp del: all_of.simps split: pyval.splits)
  then have flags: "get_default data ''analyzer_flags'' (PList []) = Inr (PList xs)" using d by (cases data) auto
  obtain ch where c: "got data ''channels'' = PDict ch" "got (PDict ch) ''queue'' = PStr ''PB3''" "got (PDict ch) ''start'' = PStr ''PB2''"
    using ok by (cases "got data ''channels''") (auto simp: scheduled_report_def got_def Let_def simp del: all_of.simps)
  then have ch: "getitem data ''channels'' = Inr (PDict ch)" "getitem (PDict ch) ''queue'' = Inr (PStr ''PB3'')"
    "getitem (PDict ch) ''start'' = Inr (PStr ''PB2'')"
    using got_getitem[OF d, of "''channels''"] got_getitem[of "PDict ch" "''queue''"] got_getitem[of "PDict ch" "''start''"] by simp_all
  show ?thesis using xs(2) by (simp add: scheduled_command_def path_item_def item_def s j samples flags ch del: getitem.simps)
qed

lemma map_res_each:
  assumes "\<forall>x \<in> set xs. \<exists>y. f x = Inr y \<and> P y"
  shows "\<exists>ys. map_res f xs = Inr ys \<and> list_all P ys \<and> length ys = length xs"
  using assms
proof (induction xs)
  case (Cons x xs)
  then obtain y ys where "f x = Inr y" "P y" "map_res f xs = Inr ys" "list_all P ys" "length ys = length xs" by auto
  then show ?case by simp
qed simp

lemma step_ready:
  assumes "step_errors i step = []"
  shows "\<exists>v l. path_item show step ''summary_json'' = Inr (PStr v) \<and> getitem step ''label'' = Inr (PStr l)"
proof -
  have d: "is_dict step" and js: "has_suffix (got step ''summary_json'') ''.json''" and l: "is_filled_text (got step ''label'')"
    using assms by (auto simp: step_errors_def Let_def split: if_splits simp del: has_suffix.simps is_filled_text.simps)
  obtain s where s: "getitem step ''summary_json'' = Inr (PStr s)" using suffix_getitem[OF d js] by auto
  obtain t where "got step ''label'' = PStr t" using l by (cases "got step ''label''") auto
  then have "getitem step ''label'' = Inr (PStr t)" using got_getitem[OF d, of "''label''"] by simp
  then show ?thesis by (simp add: path_item_def s)
qed

lemma attenuation_ready:
  assumes d: "is_dict data" and ok: "attenuation_report data = Inr []"
  shows "\<exists>cmd. attenuation_command show data = Inr cmd \<and> list_all is_str cmd"
proof -
  have bl: "has_suffix (got data ''baseline_summary_json'') ''.json''"
    using ok by (auto simp: attenuation_report_def simp del: has_suffix.simps all_of.simps)
  obtain s where s: "getitem data ''baseline_summary_json'' = Inr (PStr s)" "path_suffix s \<noteq> []"
    using suffix_getitem[OF d bl] by auto
  obtain j where j: "attenuation_summary_json (PStr s) = Inr j" using attenuation_summary_json_ok[OF s(2)] by blast
  obtain ss where ss: "got data ''attenuated_steps'' = PList ss" "concat (map (\<lambda>(i, x). step_errors i x) (enumerate 0 ss)) = []"
    using ok by (auto simp: attenuation_report_def simp del: all_of.simps split: pyval.splits list.splits)
  then have steps: "getitem data ''attenuated_steps'' = Inr (PList ss)" using got_getitem[OF d, of "''attenuated_steps''"] by simp
  have each: "\<exists>i. step_errors i x = []" if x: "x \<in> set ss" for x
  proof -
    obtain i where i: "i < length ss" "x = ss ! i" using x by (auto simp: in_set_conv_nth)
    then have "(i, x) \<in> set (enumerate 0 ss)" by (simp add: in_set_enumerate_eq)
    then show ?thesis using ss(2) by (force simp: concat_eq_Nil_conv)
  qed
  obtain ps where ps: "map_res (\<lambda>step. path_item show step ''summary_json'') ss = Inr ps" "list_all is_str ps" "length ps = length ss"
    using map_res_each[of ss "\<lambda>step. path_item show step ''summary_json''" is_str] each step_ready is_str.simps(1) by metis
  obtain ls where ls: "map_res (\<lambda>step. getitem step ''label'') ss = Inr ls" "list_all is_str ls"
    using map_res_each[of ss "\<lambda>step. getitem step ''label''" is_str] each step_ready is_str.simps(1) by metis
  show ?thesis using ps(2) ls(2) by (simp add: attenuation_command_def path_item_def[of "show" data] s j steps ps ls del: getitem.simps)
qed


lemma getitem_alias:
  assumes "fst ` set d = set alias_keys" "k \<in> set (sort alias_keys)"
  shows "\<exists>v. getitem (PDict d) k = Inr v \<and> get_default (PDict d) k PNone = Inr v"
proof -
  have "k \<in> fst ` set d" using assms by simp
  then obtain v where "map_of d k = Some v" by (metis domD dom_map_of_conv_image_fst)
  then show ?thesis by simp
qed

lemma alias_args_ready:
  assumes "fst ` set d = set alias_keys"
  shows "\<exists>args. alias_args show (PDict d) = Inr args \<and> list_all is_str args"
proof -
  let ?f = "\<lambda>k. bind (get_default (PDict d) k PNone) (\<lambda>v.
     if Some v = map_option PStr (map_of DEFAULT_AUDIO_EVENT_ALIASES k) then Inr []
     else bind (getitem (PDict d) k) (\<lambda>v. Inr [PStr ''--event'', PStr (k @ ''='' @ str_of show v)]))"
  have "\<forall>k \<in> set (sort alias_keys). \<exists>y. ?f k = Inr y \<and> list_all is_str y"
  proof
    fix k assume k: "k \<in> set (sort alias_keys)"
    obtain v where "getitem (PDict d) k = Inr v" "get_default (PDict d) k PNone = Inr v" using getitem_alias[OF assms k] by blast
    then show "\<exists>y. ?f k = Inr y \<and> list_all is_str y" by (simp del: getitem.simps get_default.simps)
  qed
  from map_res_each[OF this] obtain ys where "map_res ?f (sort alias_keys) = Inr ys" "list_all (list_all is_str) ys" by blast
  then show ?thesis by (simp add: alias_args_def list_all_iff del: getitem.simps get_default.simps)
qed

lemma alias_check_silent:
  "fst (alias_check v) = [] \<Longrightarrow> \<exists>d. v = PDict d \<and> fst ` set d = set alias_keys \<and>
     snd (alias_check v) = map (str_of (\<lambda>_. []) \<circ> snd) d \<and> distinct (snd (alias_check v)) \<and> list_all (is_filled_text \<circ> snd) d"
  by (auto simp: alias_check_def Let_def split: pyval.splits if_splits)

lemma loopback_silent:
  assumes "loopback_report data = Inr []"
  shows "fst (alias_check (dget data ''event_aliases'' default_aliases)) = [] \<and>
    event_errors (snd (alias_check (dget data ''event_aliases'' default_aliases))) (dget data ''events'' (PList [])) = [] \<and>
    below (got data ''expected_samples'') 10 = Inr False \<and> has_suffix (got data ''output_csv'') ''.csv'' \<and>
    (\<exists>t m. number_of (got data ''target_latency_ms'') = Inr t \<and> number_of (got data ''max_latency_ms'') = Inr m \<and> latency_errors t m = [])"
  using assms by (auto simp: loopback_report_def case_prod_unfold Let_def bind_eq_Inr simp del: all_of.simps has_suffix.simps)

lemma latency_present:
  "number_of a = Inr t \<Longrightarrow> number_of b = Inr m \<Longrightarrow> latency_errors t m = [] \<Longrightarrow> a \<noteq> PNone \<and> b \<noteq> PNone"
  by (auto simp: latency_errors_def number_of_def)

lemma loopback_ready:
  assumes d: "is_dict data" and ok: "loopback_report data = Inr []"
  shows "\<exists>cmd. loopback_command show data = Inr cmd \<and> list_all is_str cmd"
proof -
  note silent = loopback_silent[OF ok]
  obtain s where s: "getitem data ''output_csv'' = Inr (PStr s)" "path_suffix s \<noteq> []"
    using suffix_getitem[OF d, of "''output_csv''" "''.csv''"] silent by auto
  obtain j where j: "summary_json_for_csv (PStr s) = Inr j" using summary_json_for_csv_ok[OF s(2)] by blast
  have samples: "getitem data ''expected_samples'' = Inr (got data ''expected_samples'')"
    using got_getitem[OF d] number_of_Some[of _ 10] silent by simp
  have lat: "getitem data ''target_latency_ms'' = Inr (got data ''target_latency_ms'')"
    "getitem data ''max_latency_ms'' = Inr (got data ''max_latency_ms'')"
    using got_getitem[OF d] latency_present silent by blast+
  obtain al where al: "dget data ''event_aliases'' default_aliases = PDict al" "fst ` set al = set alias_keys"
    using alias_check_silent silent by blast
  then have al': "get_default data ''event_aliases'' default_aliases = Inr (PDict al)" using d by (cases data) auto
  obtain args where args: "alias_args show (PDict al) = Inr args" "list_all is_str args" using alias_args_ready[OF al(2)] by blast
  show ?thesis using args(2) by (simp add: loopback_command_def path_item_def item_def s j samples lat al' args(1) del: getitem.simps)
qed

section \<open>Properties\<close>

lemma ready_has_command:
  assumes "validate_readiness gate data = Inr []"
  shows "\<exists>cmd. analysis_command show gate data = Inr (Some cmd) \<and> list_all is_str cmd"
proof -
  have d: "is_dict data" using assms by (auto simp: validate_readiness_def split: if_splits)
  then have r: "(if gate = ''E0-03'' then scheduled_report data
      else if gate = ''E0-05'' then attenuation_report data
      else if gate = ''E0-07'' then loopback_report data else Inr [''unsupported gate '' @ gate]) = Inr []"
    using assms by (auto simp: validate_readiness_def simp del: all_of.simps)
  consider "gate = ''E0-03''" "scheduled_report data = Inr []" | "gate = ''E0-05''" "attenuation_report data = Inr []" |
    "gate = ''E0-07''" "loopback_report data = Inr []"
    using r by (auto split: if_splits)
  then show ?thesis
    using scheduled_ready[OF d, of "show"] attenuation_ready[OF d, of "show"] loopback_ready[OF d, of "show"] by cases (auto simp: analysis_command_def)
qed


text \<open>C32 (safety). Metadata that passes validation can be run: for every gate the analyzer command is built
  without an exception, and all its arguments are strings.\<close>

theorem ready_fixture_has_command:
  assumes "validate_readiness gate data = Inr []"
  shows "\<exists>cmd. analysis_command show gate data = Inr (Some cmd) \<and> list_all is_str cmd"
  using assms by (rule ready_has_command)

definition sample_scheduled :: pyval where
  "sample_scheduled = PDict [(''schema'', PStr READINESS_SCHEMA), (''gate'', PStr ''E0-03''), (''instrument'', PStr ''Saleae''),
     (''ground_connected'', PBool True), (''sample_rate_hz'', PInt 5000000),
     (''channels'', PDict [(''queue'', PStr ''PB3''), (''start'', PStr ''PB2'')]), (''expected_samples'', PInt 100),
     (''output_csv'', PStr ''a.csv''), (''analyzer_flags'', PList [PStr ''--fail-on-unpaired-edges''])]"

lemmas text_eval = is_space_def strip_def lower_def lower_char_def PLACEHOLDER_FRAGMENTS_def filled_string_def starts_with_def

lemma sample_instrument_filled: "filled_string ''Saleae''"
  by (simp add: text_eval)

lemma sample_csv: "filled_string ''a.csv''" "lower (path_suffix ''a.csv'') = ''.csv''"
  by (simp_all add: text_eval path_suffix_def path_name_def path_parts_def name_suffix_def)

lemma sample_scheduled_ready: "validate_readiness ''E0-03'' sample_scheduled = Inr []"
  by (simp add: validate_readiness_def sample_scheduled_def scheduled_report_def got_def below_def number_of_def fint_def
    float_of_int_eval sample_instrument_filled sample_csv mem_eq_def msg_if_def say_def)

theorem ready_fixture_has_command_witness:
  "\<exists>cmd. analysis_command no_show ''E0-03'' sample_scheduled = Inr (Some cmd) \<and> list_all is_str cmd"
  using ready_fixture_has_command[OF sample_scheduled_ready] .


text \<open>No template is ready as it stands: whichever gate it is printed for, validation of the
  unedited template reports a failure.\<close>

theorem template_not_ready:
  "case template gate of Inr t \<Rightarrow> validate_readiness gate t \<noteq> Inr [] | Inl _ \<Rightarrow> gate \<notin> {''E0-03'', ''E0-05'', ''E0-07''}"
proof -
  have "validate_readiness ''E0-03'' template_e003 \<noteq> Inr []"
    by (simp add: validate_readiness_def scheduled_report_def template_e003_def got_def Let_def del: all_of.simps)
  moreover have "\<not> filled_string ''describe fixture, cable path, spacing, enclosure, or body/shielding method''"
    by (simp add: text_eval)
  then have "validate_readiness ''E0-05'' template_e005 \<noteq> Inr []"
    by (simp add: validate_readiness_def attenuation_report_def template_e005_def got_def del: all_of.simps)
  moreover have "validate_readiness ''E0-07'' template_e007 \<noteq> Inr []"
    by (simp add: validate_readiness_def loopback_report_def template_e007_def got_def Let_def case_prod_unfold del: all_of.simps)
  ultimately show ?thesis by (simp add: template_def)
qed

lemma sort_remdups_Nil: "sort (remdups xs) = [] \<longleftrightarrow> xs = []"
  by (metis length_0_conv length_sort remdups_eq_nil_iff)

text \<open>The metadata of a ready loopback fixture lists each event once, and lists exactly the
  labels its aliases give to the six stages of the audio path.\<close>

theorem ready_loopback_events:
  assumes "validate_readiness ''E0-07'' data = Inr []"
  shows "\<exists>aliases events. dget data ''event_aliases'' default_aliases = PDict aliases \<and> fst ` set aliases = set alias_keys \<and>
    event_labels (dget data ''events'' (PList [])) = Some events \<and> distinct events \<and>
    set events = str_of (\<lambda>_. []) ` snd ` set aliases"
proof -
  have "loopback_report data = Inr []" using assms by (auto simp: validate_readiness_def simp del: all_of.simps split: if_splits)
  note s = loopback_silent[OF this]
  obtain d where d: "dget data ''event_aliases'' default_aliases = PDict d" "fst ` set d = set alias_keys"
    "snd (alias_check (PDict d)) = map (str_of (\<lambda>_. []) \<circ> snd) d"
    using alias_check_silent s by metis
  have e: "event_errors (map (str_of (\<lambda>_. []) \<circ> snd) d) (dget data ''events'' (PList [])) = []" using s d by simp
  then obtain events where ev: "event_labels (dget data ''events'' (PList [])) = Some events"
    by (auto simp: event_errors_def Let_def)
  then have "distinct events" "filter (\<lambda>x. x \<notin> set events) (map (str_of (\<lambda>_. []) \<circ> snd) d) = []"
    "filter (\<lambda>x. x \<notin> set (map (str_of (\<lambda>_. []) \<circ> snd) d)) events = []"
    using e by (simp_all add: event_errors_def Let_def sort_remdups_Nil)
  then have "set events = set (map (str_of (\<lambda>_. []) \<circ> snd) d)" by (auto simp: filter_empty_conv)
  then show ?thesis using d ev \<open>distinct events\<close> by (intro exI[of _ d] exI[of _ events]) (simp add: image_comp)
qed

definition sample_loopback :: pyval where
  "sample_loopback = PDict [(''schema'', PStr READINESS_SCHEMA), (''gate'', PStr ''E0-07''), (''fixture_method'', PStr ''Saleae''),
     (''firmware_timing_markers'', PBool True), (''expected_samples'', PInt 10), (''target_latency_ms'', PInt 120),
     (''max_latency_ms'', PInt 180),
     (''events'', PList [PStr ''impulse'', PStr ''capture_frame'', PStr ''packet_queue'', PStr ''tx_start'', PStr ''rx_done'',
        PStr ''playback_output'']),
     (''output_csv'', PStr ''a.csv'')]"

lemma default_labels: "alias_check default_aliases = ([], REQUIRED_AUDIO_EVENTS)"
proof -
  have "list_all (filled_string \<circ> snd) DEFAULT_AUDIO_EVENT_ALIASES"
    by (simp add: DEFAULT_AUDIO_EVENT_ALIASES_def text_eval)
  then have "list_all (is_filled_text \<circ> snd) (map (\<lambda>(k, v). (k, PStr v)) DEFAULT_AUDIO_EVENT_ALIASES)"
    by (auto simp: list_all_iff)
  then show ?thesis
    by (simp add: alias_check_def default_aliases_def alias_keys_def image_comp comp_def case_prod_unfold)
       (simp add: DEFAULT_AUDIO_EVENT_ALIASES_def REQUIRED_AUDIO_EVENTS_def str_of_def msg_if_def Let_def)
qed

lemma sample_loopback_ready: "validate_readiness ''E0-07'' sample_loopback = Inr []"
proof -
  have "dget sample_loopback ''event_aliases'' default_aliases = default_aliases" by (simp add: sample_loopback_def)
  moreover have "event_errors REQUIRED_AUDIO_EVENTS (dget sample_loopback ''events'' (PList [])) = []"
    by (simp add: sample_loopback_def event_errors_def event_labels_def REQUIRED_AUDIO_EVENTS_def str_of_def Let_def)
  ultimately have "loopback_report sample_loopback = Inr []"
    by (simp add: loopback_report_def default_labels)
       (simp add: sample_loopback_def got_def below_def number_of_def fint_def float_of_int_eval sample_instrument_filled sample_csv
         latency_errors_def msg_if_def say_def)
  then show ?thesis by (simp add: validate_readiness_def msg_if_def) (simp add: sample_loopback_def got_def)
qed

theorem ready_loopback_events_witness:
  "\<exists>events. event_labels (dget sample_loopback ''events'' (PList [])) = Some events \<and> distinct events"
  using ready_loopback_events[OF sample_loopback_ready] by blast


text \<open>A count that is not a number is below no bound.\<close>

lemma nan_count_ready: "below (PFloat NaN) n = Inr False"
  by (simp add: below_def number_of_def fint_def)

end
