(* ===== verification/Fixture_Run.thy ===== *)
theory Fixture_Run
  imports Fixture_Readiness Sha256
begin

text \<open>
  \<^verbatim>\<open>tools/run_prototype0_fixture_analysis.py\<close>: the run of a fixture's analyzer from its readiness metadata.
  The file system is a map from path texts to contents and modification times; running the analyzer is
  the parameter \<open>execute\<close>, which may change the files.  \<open>parse\<close> stands for \<^verbatim>\<open>json.loads\<close> of a file
  (\<open>None\<close> where it raises \<^verbatim>\<open>JSONDecodeError\<close>), \<open>csv\<close> for the header and the number of rows
  \<^verbatim>\<open>csv.DictReader\<close> finds, \<open>iso\<close> for the text of a time.
\<close>

definition DEFAULT_FG23_ROOT :: string where
  "DEFAULT_FG23_ROOT = ''firmware/prototype0/fg23''"

definition DISCOVERABLE_GATES :: "string list" where
  "DISCOVERABLE_GATES = [''E0-03'', ''E0-05'', ''E0-07'']"

definition DISCOVERY_SKIP_FRAGMENTS :: "string list" where
  "DISCOVERY_SKIP_FRAGMENTS = [''template'', ''example'', ''check'', ''run-report'']"

definition RUN_GPIO_TIME_COLUMNS :: "string list" where
  "RUN_GPIO_TIME_COLUMNS = [''time_s'', ''time'', ''timestamp_s'', ''timestamp'', ''Time [s]'', ''Time'']"

definition GPIO_CHANNEL_COLUMNS :: "string list" where
  "GPIO_CHANNEL_COLUMNS = [''channel'', ''Channel'', ''name'', ''Name'']"

definition AUDIO_TIME_COLUMNS :: "string list" where
  "AUDIO_TIME_COLUMNS = [''time_us'', ''timestamp_us'', ''local_time_us'', ''time'', ''Time [s]'', ''Time'']"

definition AUDIO_ID_COLUMNS :: "string list" where
  "AUDIO_ID_COLUMNS = [''frame_id'', ''impulse_id'', ''sequence'', ''id'']"

definition AUDIO_EVENT_COLUMNS :: "string list" where
  "AUDIO_EVENT_COLUMNS = [''event'', ''marker'', ''name'', ''Event'', ''Marker'']"

definition REPORT_SCHEMA :: string where
  "REPORT_SCHEMA = ''prototype0-fixture-run-report-v1''"

section \<open>The outside world\<close>

type_synonym files = "string \<Rightarrow> (byte list \<times> rat) option"

record tools =
  parse :: "byte list \<Rightarrow> pyval option"
  csv :: "byte list \<Rightarrow> string list \<times> nat"
  iso :: "rat \<Rightarrow> string"
  now_text :: string
  python :: string
  execute :: "string list \<Rightarrow> files \<Rightarrow> int \<times> string \<times> string \<times> files"
  text_of :: "pyval \<Rightarrow> string"

type_synonym run_report = "(string \<times> pyval) list"

definition report_base :: "tools \<Rightarrow> string \<Rightarrow> run_report" where
  "report_base t anchor = [(''schema'', PStr REPORT_SCHEMA), (''generated_at'', PStr (now_text t)), (''root'', PStr (path_text anchor))]"

section \<open>Rewriting the command\<close>

definition resolve_artifact_path :: "string \<Rightarrow> string \<Rightarrow> string" where
  "resolve_artifact_path anchor command_path =
     (let normalized = posix_string command_path; prefix = path_text DEFAULT_FG23_ROOT @ ''/''
      in if starts_with normalized prefix then path_div anchor (drop (length prefix) normalized)
         else if starts_with normalized ''results/'' then path_div anchor normalized
         else path_text command_path)"

text \<open>\<^verbatim>\<open>command.index(x)\<close> of an element that occurs.\<close>

fun index_of :: "string \<Rightarrow> string list \<Rightarrow> nat" where
  "index_of x [] = 0"
| "index_of x (y # ys) = (if y = x then 0 else Suc (index_of x ys))"

definition input_indexes :: "string list \<Rightarrow> nat list" where
  "input_indexes command =
     (let analyzer = path_name (command ! 1)
      in if length command < 3 then []
         else if analyzer \<in> {''analyze_scheduled_tx_gpio.py'', ''analyze_audio_loopback.py''} then [2]
         else if analyzer = ''analyze_attenuation_sweep.py''
         then map (\<lambda>i. i + 2) [0..<length (takeWhile (\<lambda>x. \<not> starts_with x ''--'') (drop 2 command))]
         else [])"

definition json_index :: "string list \<Rightarrow> nat option" where
  "json_index command =
     (if length command < 3 \<or> ''--json'' \<notin> set command then None
      else let i = index_of ''--json'' command in if i + 1 < length command then Some (i + 1) else None)"

definition rewrite_command_for_root :: "tools \<Rightarrow> string list \<Rightarrow> string \<Rightarrow> string list" where
  "rewrite_command_for_root t command anchor =
     (let c = (case command of x # xs \<Rightarrow> (if x = ''python'' then python t else x) # xs | [] \<Rightarrow> []);
          resolve = (\<lambda>i c. c[i := resolve_artifact_path anchor (c ! i)]);
          c' = fold resolve (input_indexes c) c
      in case json_index c of None \<Rightarrow> c' | Some i \<Rightarrow> resolve i c')"

section \<open>Artifacts\<close>

definition file_artifact :: "tools \<Rightarrow> files \<Rightarrow> string \<Rightarrow> pyval" where
  "file_artifact t fs path =
     PDict (case fs path of
        None \<Rightarrow> [(''path'', PStr path), (''exists'', PBool False), (''bytes'', PNone), (''sha256'', PNone), (''mtime_utc'', PNone)]
      | Some (raw, mtime) \<Rightarrow>
          [(''path'', PStr path), (''exists'', PBool True), (''bytes'', PInt (int (length raw))),
           (''sha256'', PStr (hex_of_bytes (sha256 raw))), (''mtime_utc'', PStr (iso t mtime))])"

definition input_paths :: "string list \<Rightarrow> string list" where
  "input_paths command = map (\<lambda>i. path_text (command ! i)) (input_indexes command)"

definition json_output_path :: "string list \<Rightarrow> string option" where
  "json_output_path command = map_option (\<lambda>i. path_text (command ! i)) (json_index command)"

definition summary_passes :: "pyval \<Rightarrow> bool" where
  "summary_passes summary =
     (case summary of
        PDict d \<Rightarrow> (case map_of d ''pass'' of
            Some v \<Rightarrow> v = PBool True
          | None \<Rightarrow> (case map_of d ''passed'' of Some v \<Rightarrow> v = PBool True | None \<Rightarrow> False))
      | _ \<Rightarrow> False)"

text \<open>Reading a file that is absent raises; \<^verbatim>\<open>FileNotFoundError\<close> is the \<open>KeyError\<close> of its path.\<close>

definition read_file :: "files \<Rightarrow> string \<Rightarrow> byte list result" where
  "read_file fs path = of_option (KeyError path) (map_option fst (fs path))"

section \<open>What the analyzer's inputs must hold\<close>

definition gpio_contract :: "(pyval \<Rightarrow> string) \<Rightarrow> pyval \<Rightarrow> string \<Rightarrow> string list \<times> nat \<Rightarrow> report" where
  "gpio_contract show metadata path = (\<lambda>(fields, row_count).
     let channels = dget metadata ''channels'' (PDict []);
         queue = dget channels ''queue'' (PStr ''PB3''); start = dget channels ''start'' (PStr ''PB2'')
     in bind (and_res (in_strings queue fields) (in_strings start fields)) (\<lambda>sampled.
        Inr (msg_if (row_count = 0) (path @ '': CSV has no data rows'') @
             msg_if (set fields \<inter> set RUN_GPIO_TIME_COLUMNS = {}) (path @ '': CSV missing recognizable time column'') @
             msg_if (set fields \<inter> set GPIO_CHANNEL_COLUMNS = {} \<and> \<not> sampled)
               (path @ '': CSV must be edge-list with a channel column or sampled columns '' @ str_of show queue @ ''/'' @
                str_of show start))))"

definition audio_contract :: "string \<Rightarrow> string list \<times> nat \<Rightarrow> string list" where
  "audio_contract path = (\<lambda>(fields, row_count).
     msg_if (row_count = 0) (path @ '': CSV has no data rows'') @
     msg_if (set fields \<inter> set AUDIO_TIME_COLUMNS = {}) (path @ '': CSV missing recognizable time column'') @
     msg_if (set fields \<inter> set AUDIO_ID_COLUMNS = {}) (path @ '': CSV missing recognizable frame/id column'') @
     msg_if (set fields \<inter> set AUDIO_EVENT_COLUMNS = {}) (path @ '': CSV missing recognizable event column''))"

definition absent :: "pyval \<Rightarrow> bool" where
  "absent v \<longleftrightarrow> v = PNone \<or> v = PStr []"

text \<open>\<^verbatim>\<open>int(v)\<close> with \<^verbatim>\<open>TypeError\<close> and \<^verbatim>\<open>ValueError\<close> caught.\<close>

definition try_int :: "pyval \<Rightarrow> int option result" where
  "try_int v =
     (case py_int v of
        Inr n \<Rightarrow> Inr (Some n) | Inl TypeError \<Rightarrow> Inr None | Inl (ValueError _) \<Rightarrow> Inr None | Inl e \<Rightarrow> Inl e)"

definition count_contract :: "string \<Rightarrow> int \<Rightarrow> pyval \<Rightarrow> string \<Rightarrow> report" where
  "count_contract label minimum entry key =
     (let v = dget entry key PNone
      in if absent v then Inr []
         else bind (try_int v) (\<lambda>n. Inr (case n of
             None \<Rightarrow> [label @ '': '' @ key @ '' must be an integer'']
           | Some k \<Rightarrow> msg_if (minimum \<noteq> 0 \<and> k < minimum)
               (label @ '': '' @ key @ '' '' @ show_int k @ '' below required '' @ show_int minimum))))"

definition summary_contract :: "string \<Rightarrow> int \<Rightarrow> pyval \<Rightarrow> report" where
  "summary_contract label minimum entry = all_of
     [Inr (msg_if (absent (dget entry ''transmitted_packets'' PNone)) (label @ '': transmitted_packets is required'')),
      Inr (msg_if (absent (dget entry ''rx_count'' PNone)) (label @ '': rx_count is required'')),
      count_contract label minimum entry ''requested_packets'',
      count_contract label minimum entry ''transmitted_packets'']"

definition attenuation_contract :: "tools \<Rightarrow> int \<Rightarrow> files \<Rightarrow> string \<Rightarrow> report" where
  "attenuation_contract t minimum fs path =
     bind (read_file fs path) (\<lambda>raw. case parse t raw of
         None \<Rightarrow> Inr [path @ '': packet summary JSON is invalid'']
       | Some data \<Rightarrow>
           let summaries = (case data of PList xs \<Rightarrow> xs | _ \<Rightarrow> [data])
           in if summaries = [] \<or> \<not> list_all is_dict summaries
              then Inr [path @ '': packet summary must be an object or list of objects'']
              else all_of (map (\<lambda>(i, x). summary_contract (path @ ''['' @ show_int (int i) @ '']'') minimum x)
                     (enumerate 0 summaries)))"

definition fixture_input_contract_failures :: "tools \<Rightarrow> string \<Rightarrow> pyval \<Rightarrow> string list \<Rightarrow> files \<Rightarrow> report" where
  "fixture_input_contract_failures t gate metadata command fs =
     (if gate = ''E0-05''
      then bind (try_int (dget metadata ''packet_count_per_step'' PNone)) (\<lambda>n.
        all_of (map (attenuation_contract t (case n of Some k \<Rightarrow> k | None \<Rightarrow> 0) fs) (input_paths command)))
      else case input_paths command of
          [] \<Rightarrow> Inr []
        | path # _ \<Rightarrow>
            if gate = ''E0-03'' then bind (read_file fs path) (\<lambda>raw. gpio_contract (text_of t) metadata path (csv t raw))
            else if gate = ''E0-07'' then bind (read_file fs path) (\<lambda>raw. Inr (audio_contract path (csv t raw)))
            else Inr [])"


section \<open>Discovery\<close>

text \<open>\<^verbatim>\<open>glob("*-<token>-readiness*.json")\<close> on the names of a directory.\<close>

definition readiness_name :: "string \<Rightarrow> string \<Rightarrow> bool" where
  "readiness_name token name \<longleftrightarrow>
     (let mid = CHR ''-'' # token @ ''-readiness''
      in list_ex (\<lambda>i. starts_with (drop i name) mid \<and> ends_with (drop (i + length mid) name) ''.json'') [0..<Suc (length name)])"

definition real_readiness :: "string \<Rightarrow> string \<times> rat \<Rightarrow> bool" where
  "real_readiness gate entry \<longleftrightarrow> readiness_name (lower gate) (fst entry) \<and>
     \<not> list_ex (\<lambda>f. has_sub f (lower (fst entry))) DISCOVERY_SKIP_FRAGMENTS"

text \<open>\<^verbatim>\<open>max\<close> by modification time, then name.\<close>

definition older :: "string \<times> rat \<Rightarrow> string \<times> rat \<Rightarrow> bool" where
  "older a b \<longleftrightarrow> snd a < snd b \<or> snd a = snd b \<and> fst a < fst b"

fun newest :: "string \<times> rat \<Rightarrow> (string \<times> rat) list \<Rightarrow> string \<times> rat" where
  "newest b [] = b"
| "newest b (e # es) = newest (if older b e then e else b) es"

text \<open>The entries of \<^verbatim>\<open>root/results\<close>, names with modification times, in the order \<^verbatim>\<open>glob\<close> yields them.\<close>

definition discover_readiness :: "string \<Rightarrow> (string \<times> rat) list \<Rightarrow> string \<Rightarrow> string option result" where
  "discover_readiness anchor entries gate =
     (if gate \<notin> set DISCOVERABLE_GATES then Inl (ValueError (''unsupported gate for discovery: '' @ gate))
      else Inr (case filter (real_readiness gate) entries of
          [] \<Rightarrow> None
        | e # es \<Rightarrow> Some (path_div anchor (''results/'' @ fst (newest e es)))))"

section \<open>A run\<close>



definition set_all :: "(string \<times> pyval) list \<Rightarrow> run_report \<Rightarrow> run_report" where
  "set_all kvs report = fold (\<lambda>(k, v). dict_set k v) kvs report"

text \<open>What is read back once the analyzer has ended: entries of the report, and failures.\<close>

definition read_summary :: "tools \<Rightarrow> files \<Rightarrow> string option \<Rightarrow> run_report \<times> pyval option \<times> string list" where
  "read_summary t fs output =
     (case output of
        None \<Rightarrow> ([], None, [])
      | Some path \<Rightarrow> (case fs path of
            None \<Rightarrow> ([], None, [''summary JSON missing: '' @ path])
          | Some (raw, _) \<Rightarrow> (case parse t raw of
                Some summary \<Rightarrow> ([(''summary'', summary), (''summary_artifact'', file_artifact t fs path)], Some summary, [])
              | None \<Rightarrow> ([(''summary_artifact'', file_artifact t fs path), (''summary_error'', PStr ''summary JSON is invalid'')], None,
                  [''summary JSON is invalid'']))))"

text \<open>A summary whose JSON is \<^verbatim>\<open>null\<close> is Python's \<^verbatim>\<open>None\<close>, which the code does not tell from an absent one.\<close>

definition run_failures :: "pyval option \<Rightarrow> string list \<Rightarrow> int \<Rightarrow> string list" where
  "run_failures summary failures returncode =
     failures @
     msg_if (case summary of None \<Rightarrow> False | Some s \<Rightarrow> s \<noteq> PNone \<and> \<not> summary_passes s) ''summary JSON did not report pass:true'' @
     msg_if (returncode \<noteq> 0) (''analyzer exited '' @ show_int returncode)"

definition finish_run :: "tools \<Rightarrow> string list \<Rightarrow> string option \<Rightarrow> run_report \<Rightarrow> files \<Rightarrow> run_report \<times> files" where
  "finish_run t command output report fs =
     (let (returncode, out, err, fs') = execute t command fs;
          (entries, summary, problems) = read_summary t fs' output;
          failures = run_failures summary problems returncode
      in (set_all ([(''returncode'', PInt returncode), (''stdout'', PStr out), (''stderr'', PStr err)] @ entries @
            [(''failures'', PList (map PStr failures)), (''pass'', PBool (failures = [])),
             (''status'', PStr (if failures = [] then ''passed'' else ''failed''))]) report, fs'))"

definition pending_report :: "tools \<Rightarrow> string \<Rightarrow> bool \<Rightarrow> string \<Rightarrow> string \<Rightarrow> string list \<Rightarrow> files \<Rightarrow> run_report" where
  "pending_report t anchor dry_run gate readiness command fs =
     report_base t anchor @
     [(''pass'', PBool False), (''status'', PStr (if dry_run then ''dry-run'' else ''pending'')), (''gate'', PStr gate),
      (''readiness'', PStr readiness), (''readiness_artifact'', file_artifact t fs readiness),
      (''analysis_command'', PList (map PStr command)), (''analysis_command_text'', PStr (command_text command)),
      (''inputs'', PList (map (file_artifact t fs) (input_paths command))),
      (''summary_json'', case json_output_path command of Some p \<Rightarrow> PStr p | None \<Rightarrow> PNone),
      (''summary_artifact'', case json_output_path command of Some p \<Rightarrow> file_artifact t fs p | None \<Rightarrow> PNone)]"

text \<open>From a validated fixture on; \<open>command\<close> is already rewritten.\<close>

definition run_command :: "tools \<Rightarrow> string \<Rightarrow> bool \<Rightarrow> string \<Rightarrow> string \<Rightarrow> pyval \<Rightarrow> string list \<Rightarrow> files \<Rightarrow> (run_report \<times> files) result" where
  "run_command t anchor dry_run gate readiness metadata command fs =
     (let report = pending_report t anchor dry_run gate readiness command fs;
          missing = filter (\<lambda>p. fs p = None) (input_paths command)
      in if dry_run then Inr (report, fs)
         else if missing \<noteq> []
         then Inr (set_all [(''status'', PStr ''missing-inputs''),
                            (''failures'', PList (map (\<lambda>p. PStr (''missing input: '' @ p)) missing))] report, fs)
         else bind (fixture_input_contract_failures t gate metadata command fs) (\<lambda>problems.
           if problems \<noteq> []
           then Inr (set_all [(''status'', PStr ''invalid-inputs''), (''failures'', PList (map PStr problems))] report, fs)
           else Inr (finish_run t command (json_output_path command) report fs)))"

definition run_fixture :: "tools \<Rightarrow> string \<Rightarrow> bool \<Rightarrow> string \<Rightarrow> files \<Rightarrow> (run_report \<times> files) result" where
  "run_fixture t anchor dry_run readiness fs =
     bind (read_file fs readiness) (\<lambda>raw.
     case parse t raw of
       None \<Rightarrow> Inl (ValueError ''invalid JSON'')
     | Some metadata \<Rightarrow>
         if \<not> is_dict metadata
         then Inr (report_base t anchor @
           [(''pass'', PBool False), (''status'', PStr ''invalid-readiness''), (''readiness'', PStr readiness),
            (''readiness_artifact'', file_artifact t fs readiness),
            (''failures'', PList [PStr ''readiness metadata is not a JSON object''])], fs)
         else let gate = str_of (text_of t) (dget metadata ''gate'' (PStr []))
           in bind (validate_readiness gate metadata) (\<lambda>failures.
             if failures \<noteq> []
             then Inr (report_base t anchor @
               [(''pass'', PBool False), (''status'', PStr ''not-ready''), (''gate'', PStr gate), (''readiness'', PStr readiness),
                (''readiness_artifact'', file_artifact t fs readiness), (''failures'', PList (map PStr failures))], fs)
             else bind (analysis_command (text_of t) gate metadata) (\<lambda>command.
               bind (map_res string_of (case command of Some c \<Rightarrow> c | None \<Rightarrow> [])) (\<lambda>items.
                 run_command t anchor dry_run gate readiness metadata (rewrite_command_for_root t items anchor) fs))))"


section \<open>Facts\<close>

lemma map_of_set_all: "map_of (set_all kvs r) = map_of r ++ map_of (rev kvs)"
proof (induction kvs arbitrary: r)
  case (Cons kv kvs)
  obtain k v where kv: "kv = (k, v)" by fastforce
  have "map_of (set_all (kv # kvs) r) = map_of (dict_set k v r) ++ map_of (rev kvs)"
    using Cons.IH[of "dict_set k v r"] by (simp only: set_all_def kv fold_simps comp_apply prod.case)
  then show ?case by (auto simp: kv map_add_def fun_eq_iff split: option.splits)
qed (simp add: set_all_def)

text \<open>The verdict and the status of a run that was executed.\<close>

lemma finish_run_facts:
  assumes "finish_run t command output report fs = (r, fs')"
  shows "\<exists>rc out err entries summary problems. execute t command fs = (rc, out, err, fs') \<and>
    read_summary t fs' output = (entries, summary, problems) \<and>
    map_of r ''pass'' = Some (PBool (run_failures summary problems rc = [])) \<and>
    map_of r ''status'' = Some (PStr (if run_failures summary problems rc = [] then ''passed'' else ''failed''))"
proof -
  obtain rc out err fs1 where e: "execute t command fs = (rc, out, err, fs1)" by (metis prod_cases4)
  obtain entries summary problems where s: "read_summary t fs1 output = (entries, summary, problems)" by (metis prod_cases3)
  have "fs' = fs1" and r: "r = set_all ([(''returncode'', PInt rc), (''stdout'', PStr out), (''stderr'', PStr err)] @ entries @
      [(''failures'', PList (map PStr (run_failures summary problems rc))), (''pass'', PBool (run_failures summary problems rc = [])),
       (''status'', PStr (if run_failures summary problems rc = [] then ''passed'' else ''failed''))]) report"
    using assms by (simp_all add: finish_run_def e s Let_def)
  moreover have "map_of r ''pass'' = Some (PBool (run_failures summary problems rc = []))"
    "map_of r ''status'' = Some (PStr (if run_failures summary problems rc = [] then ''passed'' else ''failed''))"
    unfolding r map_of_set_all by (simp_all add: map_add_def)
  ultimately show ?thesis using e s by blast
qed

lemma read_summary_clean:
  assumes "read_summary t fs output = (entries, summary, problems)" "run_failures summary problems rc = []"
  shows "rc = 0 \<and> (\<forall>p. output = Some p \<longrightarrow>
    (\<exists>raw m s. fs p = Some (raw, m) \<and> parse t raw = Some s \<and> (s = PNone \<or> summary_passes s)))"
  using assms by (auto simp: read_summary_def run_failures_def split: option.splits prod.splits)

lemma pending_pass: "map_of (pending_report t anchor d gate readiness command fs) ''pass'' = Some (PBool False)"
  "map_of (pending_report t anchor d gate readiness command fs) ''status'' = Some (PStr (if d then ''dry-run'' else ''pending''))"
  by (simp_all add: pending_report_def report_base_def)

definition passing :: "run_report \<Rightarrow> bool" where
  "passing r \<longleftrightarrow> map_of r ''pass'' = Some (PBool True)"

definition executed :: "run_report \<Rightarrow> bool" where
  "executed r \<longleftrightarrow> map_of r ''status'' \<in> {Some (PStr ''passed''), Some (PStr ''failed'')}"

lemma run_command_cases:
  assumes "run_command t anchor d gate readiness metadata command fs = Inr (r, fs')"
  shows "\<not> passing r \<and> \<not> executed r \<and> fs' = fs \<or>
    \<not> d \<and> (\<forall>p \<in> set (input_paths command). fs p \<noteq> None) \<and>
    fixture_input_contract_failures t gate metadata command fs = Inr [] \<and>
    finish_run t command (json_output_path command) (pending_report t anchor d gate readiness command fs) fs = (r, fs')"
  using assms
  by (auto simp: run_command_def Let_def bind_eq_Inr passing_def executed_def map_of_set_all pending_pass filter_empty_conv
      split: if_splits)

lemma strings_of_all: "list_all is_str xs \<Longrightarrow> \<exists>ss. xs = map PStr ss \<and> map_res string_of xs = Inr ss"
proof (induction xs)
  case (Cons x xs)
  then obtain s ss where "x = PStr s" "xs = map PStr ss" "map_res string_of xs = Inr ss" by (cases x) auto
  then show ?case by (intro exI[of _ "s # ss"]) simp
qed simp

lemma run_fixture_cases:
  assumes "run_fixture t anchor d readiness fs = Inr (r, fs')"
  shows "\<not> passing r \<and> \<not> executed r \<and> fs' = fs \<or>
    (\<exists>raw metadata gate items. read_file fs readiness = Inr raw \<and> parse t raw = Some metadata \<and>
       gate = str_of (text_of t) (dget metadata ''gate'' (PStr [])) \<and> validate_readiness gate metadata = Inr [] \<and>
       analysis_command (text_of t) gate metadata = Inr (Some (map PStr items)) \<and>
       run_command t anchor d gate readiness metadata (rewrite_command_for_root t items anchor) fs = Inr (r, fs'))"
proof -
  obtain raw where raw: "read_file fs readiness = Inr raw" using assms by (auto simp: run_fixture_def bind_eq_Inr)
  obtain metadata where m: "parse t raw = Some metadata"
    using assms by (auto simp: run_fixture_def raw split: option.splits)
  define gate where "gate = str_of (text_of t) (dget metadata ''gate'' (PStr []))"
  show ?thesis
  proof (cases "is_dict metadata \<and> validate_readiness gate metadata = Inr []")
    case True
    then obtain cmd where cmd: "analysis_command (text_of t) gate metadata = Inr (Some cmd)" "list_all is_str cmd"
      using ready_has_command by blast
    from cmd(2) obtain items where items: "cmd = map PStr items" "map_res string_of cmd = Inr items"
      using strings_of_all by blast
    have "run_command t anchor d gate readiness metadata (rewrite_command_for_root t items anchor) fs = Inr (r, fs')"
      using assms True by (simp add: run_fixture_def raw m gate_def[symmetric] cmd(1) items(2))
    then show ?thesis using raw m cmd True items by (intro disjI2 exI) (auto simp: gate_def)
  next
    case False
    then show ?thesis using assms
      by (auto simp: run_fixture_def raw m gate_def[symmetric] bind_eq_Inr passing_def executed_def report_base_def split: if_splits)
  qed
qed


section \<open>Properties\<close>


text \<open>C34 (invariant). Files change only by the analyzer: a run that was not executed (a dry run, metadata that
  is not ready, missing or invalid inputs) leaves every file as it was, is not reported as passed, and a dry
  run is never executed.\<close>

theorem unexecuted_run_harmless:
  "case run_fixture t anchor d readiness fs of
     Inl _ \<Rightarrow> True
   | Inr (r, fs') \<Rightarrow> (if executed r then \<not> d else fs' = fs \<and> \<not> passing r)"
proof (cases "run_fixture t anchor d readiness fs")
  case (Inr x)
  obtain r fs' where x: "x = (r, fs')" by fastforce
  have "executed r \<and> \<not> d \<or> \<not> executed r \<and> fs' = fs \<and> \<not> passing r"
    using run_fixture_cases[OF Inr[unfolded x]]
  proof
    assume "\<exists>raw metadata gate items. read_file fs readiness = Inr raw \<and> parse t raw = Some metadata \<and>
       gate = str_of (text_of t) (dget metadata ''gate'' (PStr [])) \<and> validate_readiness gate metadata = Inr [] \<and>
       analysis_command (text_of t) gate metadata = Inr (Some (map PStr items)) \<and>
       run_command t anchor d gate readiness metadata (rewrite_command_for_root t items anchor) fs = Inr (r, fs')"
    then obtain metadata gate items where
      c: "run_command t anchor d gate readiness metadata (rewrite_command_for_root t items anchor) fs = Inr (r, fs')" by blast
    from run_command_cases[OF c] show ?thesis
    proof
      assume "\<not> passing r \<and> \<not> executed r \<and> fs' = fs"
      then show ?thesis by blast
    next
      let ?command = "rewrite_command_for_root t items anchor"
      assume "\<not> d \<and> (\<forall>p \<in> set (input_paths ?command). fs p \<noteq> None) \<and>
        fixture_input_contract_failures t gate metadata ?command fs = Inr [] \<and>
        finish_run t ?command (json_output_path ?command) (pending_report t anchor d gate readiness ?command fs) fs = (r, fs')"
      then have d: "\<not> d" and f: "finish_run t ?command (json_output_path ?command)
        (pending_report t anchor d gate readiness ?command fs) fs = (r, fs')" by blast+
      have "executed r" using finish_run_facts[OF f] by (fastforce simp: executed_def split: if_splits)
      then show ?thesis using d by blast
    qed
  qed blast
  then show ?thesis by (auto simp: Inr x)
qed simp

lemma newest_in: "newest b es \<in> set (b # es)"
proof (induction es arbitrary: b)
  case (Cons e es)
  have "newest b es \<in> set (b # es)" "newest e es \<in> set (e # es)" by (rule Cons.IH)+
  then show ?case by (simp only: newest.simps set_simps split: if_split) blast
qed simp

lemma older_less: "\<not> older n m \<Longrightarrow> older n e \<Longrightarrow> older m e"
  by (auto simp: older_def)

lemma newest_max: "e \<in> set (b # es) \<Longrightarrow> \<not> older (newest b es) e"
proof (induction es arbitrary: b e)
  case (Cons x es)
  define m where "m = (if older b x then x else b)"
  have n: "newest b (x # es) = newest m es" by (simp add: m_def)
  have "\<not> older m b" "\<not> older m x" by (auto simp: m_def older_def)
  moreover have "\<not> older (newest m es) m" using Cons.IH[of m m] by simp
  ultimately have "\<not> older (newest m es) b" "\<not> older (newest m es) x" using older_less by blast+
  then show ?case unfolding n using Cons.prems Cons.IH[of e m] by auto
qed (simp add: older_def)

text \<open>Discovery picks the newest live readiness file of the gate: the chosen name matches the
  gate's pattern, contains none of the fragments of templates, examples and reports, and no other such file is
  later; nothing is chosen only where no such file exists.\<close>

theorem discovery_newest:
  "case discover_readiness anchor entries gate of
     Inl _ \<Rightarrow> gate \<notin> set DISCOVERABLE_GATES
   | Inr None \<Rightarrow> filter (real_readiness gate) entries = []
   | Inr (Some path) \<Rightarrow> \<exists>e \<in> set (filter (real_readiness gate) entries). path = path_div anchor (''results/'' @ fst e) \<and>
       \<not> list_ex (older e) (filter (real_readiness gate) entries)"
proof (cases "filter (real_readiness gate) entries")
  case (Cons e es)
  have "newest e es \<in> set (filter (real_readiness gate) entries)" unfolding Cons by (rule newest_in)
  moreover have "\<not> list_ex (older (newest e es)) (filter (real_readiness gate) entries)"
    using newest_max[of _ e es] by (auto simp: Cons list_ex_iff)
  ultimately show ?thesis by (auto simp: discover_readiness_def Cons simp del: set_filter)
qed (simp add: discover_readiness_def)


definition sample_tools :: tools where
  "sample_tools = \<lparr>parse = (\<lambda>raw. Some (if raw = [1] then sample_scheduled else PDict [(''pass'', PBool True)])),
     csv = (\<lambda>_. ([''time'', ''channel''], 1)), iso = (\<lambda>_. []), now_text = ''now'', python = ''py'',
     execute = (\<lambda>_ fs. (0, [], [], fs(''a.summary.json'' \<mapsto> ([3], 0)))), text_of = no_show\<rparr>"

definition sample_files :: files where
  "sample_files = [''r.json'' \<mapsto> ([1], 0), ''a.csv'' \<mapsto> ([2], 0)]"

definition sample_items :: "string list" where
  "sample_items = [''python'', ''tools/analyze_scheduled_tx_gpio.py'', ''a.csv'', ''--queue-channel'', ''PB3'',
     ''--start-channel'', ''PB2'', ''--expected-samples'', ''100'', ''--fail-on-unpaired-edges'', ''--json'', ''a.summary.json'']"

lemmas path_eval = path_text_def path_div_def path_join_def path_root_def path_parts_def path_name_def name_suffix_def name_stem_def
  path_suffix_def path_with_suffix_def path_with_name_def starts_with_def ends_with_def posix_string_def

lemma sample_paths:
  "summary_json_for_csv (PStr ''a.csv'') = Inr ''a.summary.json''" "posix_string ''a.csv'' = ''a.csv''"
  "path_text ''a.csv'' = ''a.csv''" "path_text ''a.summary.json'' = ''a.summary.json''"
  "resolve_artifact_path ''x'' ''a.csv'' = ''a.csv''" "resolve_artifact_path ''x'' ''a.summary.json'' = ''a.summary.json''"
  "path_name ''tools/analyze_scheduled_tx_gpio.py'' = ''analyze_scheduled_tx_gpio.py''"
  by (simp_all add: summary_json_for_csv_def resolve_artifact_path_def DEFAULT_FG23_ROOT_def path_eval)

lemma sample_count: "show_int 100 = ''100''"
  by code_simp

lemma sample_command: "analysis_command no_show ''E0-03'' sample_scheduled = Inr (Some (map PStr sample_items))"
  by (simp add: analysis_command_def scheduled_command_def sample_scheduled_def path_item_def item_def as_posix_path_def str_of_def
    sample_paths sample_items_def sample_count)

definition sample_rewritten :: "string list" where
  "sample_rewritten = ''py'' # tl sample_items"

lemma sample_indexes:
  "input_indexes sample_rewritten = [2]" "json_index sample_rewritten = Some 11"
  by (simp_all add: input_indexes_def json_index_def sample_rewritten_def sample_items_def sample_paths)

lemma sample_rewrite: "rewrite_command_for_root sample_tools sample_items ''x'' = sample_rewritten"
proof -
  have "(case sample_items of x # xs \<Rightarrow> (if x = ''python'' then python sample_tools else x) # xs | [] \<Rightarrow> []) = sample_rewritten"
    by (simp add: sample_items_def sample_rewritten_def sample_tools_def)
  then show ?thesis unfolding rewrite_command_for_root_def Let_def
    by (simp add: sample_indexes) (simp add: sample_rewritten_def sample_items_def sample_paths)
qed

lemma sample_contract: "fixture_input_contract_failures sample_tools ''E0-03'' sample_scheduled sample_rewritten sample_files = Inr []"
proof -
  have "input_paths sample_rewritten = [''a.csv'']"
    by (simp add: input_paths_def sample_indexes) (simp add: sample_rewritten_def sample_items_def sample_paths)
  moreover have "gpio_contract no_show sample_scheduled ''a.csv'' ([''time'', ''channel''], 1) = Inr []"
    by (simp add: gpio_contract_def sample_scheduled_def in_strings_def and_res_def RUN_GPIO_TIME_COLUMNS_def
      GPIO_CHANNEL_COLUMNS_def msg_if_def)
  ultimately show ?thesis
    by (simp add: fixture_input_contract_failures_def read_file_def sample_files_def sample_tools_def)
qed

lemma sample_run: "\<exists>r fs'. run_fixture sample_tools ''x'' False ''r.json'' sample_files = Inr (r, fs') \<and> passing r \<and>
  fs' = sample_files(''a.summary.json'' \<mapsto> ([3], 0))"
proof -
  have g: "str_of no_show (dget sample_scheduled ''gate'' (PStr [])) = ''E0-03''" and d: "is_dict sample_scheduled"
    by (simp_all add: sample_scheduled_def str_of_def)
  have f: "read_file sample_files ''r.json'' = Inr [1]" "parse sample_tools [1] = Some sample_scheduled"
    "text_of sample_tools = no_show" by (simp_all add: read_file_def sample_files_def sample_tools_def)
  have inputs: "filter (\<lambda>p. sample_files p = None) (input_paths sample_rewritten) = []"
    by (simp add: input_paths_def sample_indexes) (simp add: sample_rewritten_def sample_items_def sample_paths sample_files_def)
  have out: "json_output_path sample_rewritten = Some ''a.summary.json''"
    by (simp add: json_output_path_def sample_indexes) (simp add: sample_rewritten_def sample_items_def sample_paths)
  obtain r fs' where r: "finish_run sample_tools sample_rewritten (Some ''a.summary.json'')
      (pending_report sample_tools ''x'' False ''E0-03'' ''r.json'' sample_rewritten sample_files) sample_files = (r, fs')"
    by fastforce
  have "map_res string_of (map PStr sample_items) = Inr sample_items" by (simp add: sample_items_def)
  then have run: "run_fixture sample_tools ''x'' False ''r.json'' sample_files = Inr (r, fs')"
    using r by (simp add: run_fixture_def f d g sample_scheduled_ready sample_command sample_rewrite run_command_def inputs out
      sample_contract Let_def)
  obtain rc out err entries summary problems where e: "execute sample_tools sample_rewritten sample_files = (rc, out, err, fs')"
    "read_summary sample_tools fs' (Some ''a.summary.json'') = (entries, summary, problems)"
    "map_of r ''pass'' = Some (PBool (run_failures summary problems rc = []))"
    using finish_run_facts[OF r] by blast
  have "rc = 0" "fs' = sample_files(''a.summary.json'' \<mapsto> ([3], 0))" using e(1) by (simp_all add: sample_tools_def)
  moreover have "summary = Some (PDict [(''pass'', PBool True)])" "problems = []"
    using e(2) \<open>fs' = _\<close> by (simp_all add: read_summary_def sample_tools_def)
  ultimately have "passing r" using e(3) by (simp add: passing_def run_failures_def summary_passes_def msg_if_def)
  then show ?thesis using run \<open>fs' = _\<close> by blast
qed


end
