(* ===== verification/Gate_Evidence.thy ===== *)
theory Gate_Evidence
  imports Fixture_Run
begin

text \<open>
  \<^verbatim>\<open>tools/audit_prototype0_gates.py\<close>, the judgement of one gate's evidence: its summaries, the terms of its
  blockers, the newest readiness metadata and run report, and whether a run report proves that the gate's
  fixture was measured (\<open>fixture_promotion_failures\<close>).  The file tree is the map \<open>tree\<close> from path texts to
  what is there; \<open>json_of\<close> stands for decoding and \<^verbatim>\<open>json.loads\<close>, \<open>Inr None\<close> where it raises
  \<^verbatim>\<open>JSONDecodeError\<close>.
\<close>

section \<open>The outside world\<close>

datatype entry =
    Holds "byte list"
  | Unreadable string

record audit_env =
  tree :: "string \<Rightarrow> entry option"
  results :: "(string \<times> rat) list"
  json_of :: "byte list \<Rightarrow> pyval option result"
  decoded :: "byte list \<Rightarrow> string"
  resolved :: "string \<Rightarrow> string"
  str_text :: "pyval \<Rightarrow> string"
  repr_text :: "pyval \<Rightarrow> string"

text \<open>\<^verbatim>\<open>_load_json\<close>: a file that cannot be read or parsed is \<^verbatim>\<open>None\<close>, as is the JSON value \<^verbatim>\<open>null\<close>.\<close>

definition load_json :: "audit_env \<Rightarrow> string \<Rightarrow> pyval result" where
  "load_json env path =
     (case tree env path of
        Some (Holds raw) \<Rightarrow> bind (json_of env raw) (\<lambda>v. Inr (case v of Some x \<Rightarrow> x | None \<Rightarrow> PNone))
      | _ \<Rightarrow> Inr PNone)"

section \<open>Summaries\<close>

fun json_passes :: "pyval \<Rightarrow> bool" where
  "json_passes (PDict d) =
     (case map_of d ''pass'' of
        Some v \<Rightarrow> v = PBool True
      | None \<Rightarrow> (case map_of d ''passed'' of Some v \<Rightarrow> v = PBool True | None \<Rightarrow> False))"
| "json_passes (PList xs) = (xs \<noteq> [] \<and> list_all json_passes xs)"
| "json_passes _ = False"

fun as_int :: "pyval \<Rightarrow> int option" where
  "as_int (PInt n) = Some n"
| "as_int (PStr s) = (case parse_int s of Inr n \<Rightarrow> Some n | Inl _ \<Rightarrow> None)"
| "as_int _ = None"

text \<open>\<^verbatim>\<open>a or b\<close>, of values and of optional integers.\<close>

definition py_or :: "pyval \<Rightarrow> pyval \<Rightarrow> pyval" where
  "py_or a b = (if py_truth a then a else b)"

definition int_or :: "int option \<Rightarrow> int option \<Rightarrow> int option" where
  "int_or a b = (case a of None \<Rightarrow> b | Some n \<Rightarrow> if n = 0 then b else a)"

definition count_failure :: "audit_env \<Rightarrow> string \<Rightarrow> pyval \<Rightarrow> int \<Rightarrow> string \<Rightarrow> string list" where
  "count_failure env prefix summary expected key =
     msg_if (as_int (got summary key) \<noteq> Some expected)
       (prefix @ ''.summary.'' @ key @ '' expected '' @ show_int expected @ '', got '' @ repr_text env (got summary key))"

definition ratio_failure :: "audit_env \<Rightarrow> string \<Rightarrow> pyval \<Rightarrow> report" where
  "ratio_failure env prefix ratio =
     say (case ratio of
            PInt _ \<Rightarrow> bind (py_float ratio) (\<lambda>x. Inr (x \<noteq> Fin 1))
          | PBool _ \<Rightarrow> bind (py_float ratio) (\<lambda>x. Inr (x \<noteq> Fin 1))
          | PFloat x \<Rightarrow> Inr (x \<noteq> Fin 1)
          | _ \<Rightarrow> Inr True)
       (prefix @ ''.summary.delivery_ratio expected 1.0, got '' @ repr_text env ratio)"

text \<open>The counts of one direction, once the requested number of packets is known.\<close>

definition direction_counts :: "audit_env \<Rightarrow> string \<Rightarrow> pyval \<Rightarrow> int \<Rightarrow> report" where
  "direction_counts env prefix summary expected = all_of
     [Inr (concat (map (count_failure env prefix summary expected)
        [''requested_packets'', ''transmitted_packets'', ''rx_count'', ''sync_detect''])),
      Inr (concat (map (count_failure env prefix summary 0) [''rx_crc_drop'', ''tx_failed_packets''])),
      ratio_failure env prefix (got summary ''delivery_ratio'')]"

text \<open>One direction: its messages, and the pairs of ports seen so far.\<close>

definition judge_direction :: "audit_env \<Rightarrow> int option \<Rightarrow> nat \<times> pyval \<Rightarrow> (string \<times> string) list \<Rightarrow>
    (string list \<times> (string \<times> string) list) result" where
  "judge_direction env packets = (\<lambda>(index, direction) seen.
     let prefix = ''directions['' @ show_int (int index) @ '']''
     in if \<not> is_dict direction then Inr ([prefix @ '' must be a JSON object''], seen)
        else let failing = msg_if (got direction ''pass'' \<noteq> PBool True) (prefix @ ''.pass must be true'');
                 summary = got direction ''summary''
          in if \<not> is_dict summary then Inr (failing @ [prefix @ ''.summary must be a JSON object''], seen)
             else let tx = py_or (got direction ''tx_port'') (got summary ''tx_port'');
                      rx = py_or (got direction ''rx_port'') (got summary ''rx_port'');
                      (ports, seen') = (case (tx, rx) of
                         (PStr a, PStr b) \<Rightarrow> ([], List.insert (a, b) seen)
                       | _ \<Rightarrow> ([prefix @ '' must include tx_port and rx_port''], seen))
               in case int_or packets (as_int (got summary ''requested_packets'')) of
                    None \<Rightarrow> Inr (failing @ ports @ [prefix @ ''.summary requested packet count is missing''], seen')
                  | Some expected \<Rightarrow> bind (direction_counts env prefix summary expected) (\<lambda>counts.
                      Inr (failing @ ports @ counts, seen')))"

definition pair_failures :: "(string \<times> string) list \<Rightarrow> string list" where
  "pair_failures seen =
     msg_if (length seen \<noteq> 2) ''retention summary must cover two distinct TX/RX directions'' @
     msg_if (length (remdups (map fst seen)) < 2 \<or> length (remdups (map snd seen)) < 2)
       ''retention summary must exercise both boards as TX and RX''"

definition validate_retention :: "audit_env \<Rightarrow> pyval \<Rightarrow> report" where
  "validate_retention env data =
     (if \<not> is_dict data then Inr [''retention summary must be a JSON object'']
      else let failing = msg_if (got data ''pass'' \<noteq> PBool True) ''retention summary pass must be true''
        in case got data ''directions'' of
             PList [a, b] \<Rightarrow>
               bind (fold_report (judge_direction env (as_int (got data ''packets''))) [(0, a), (1, b)] []) (\<lambda>(es, seen).
                 Inr (failing @ es @ pair_failures seen))
           | _ \<Rightarrow> Inr (failing @ [''retention summary must contain exactly two directions'']))"

definition validation_failures :: "audit_env \<Rightarrow> pyval \<Rightarrow> string option \<Rightarrow> report" where
  "validation_failures env data validator =
     (case validator of
        None \<Rightarrow> Inr (msg_if (\<not> json_passes data) ''pass field not true'')
      | Some v \<Rightarrow>
          if v = ''railtest_bidirectional_retention'' then validate_retention env data
          else Inr [''unknown JSON evidence validator '' @ repr_text env (PStr v)])"

section \<open>Blockers named in the rollup document\<close>

definition STOP_TERMS :: "string list" where
  "STOP_TERMS = [''and'', ''are'', ''before'', ''box'', ''can'', ''external'', ''for'', ''is'', ''or'', ''required'',
     ''requires'', ''setup'', ''still'', ''the'']"

text \<open>\<^verbatim>\<open>re.sub(r"`[^`]+`", " ", text)\<close>: a nonempty run between two backticks becomes a space.\<close>

function blank_code :: "string \<Rightarrow> string" where
  "blank_code [] = []"
| "blank_code (c # s) =
     (let run = takeWhile (\<lambda>x. x \<noteq> CHR 0x60) s; rest = dropWhile (\<lambda>x. x \<noteq> CHR 0x60) s
      in if c = CHR 0x60 \<and> run \<noteq> [] \<and> rest \<noteq> [] then CHR '' '' # blank_code (tl rest) else c # blank_code s)"
  by pat_completeness auto
termination
proof (relation "measure length")
  fix c :: char and s rest :: string
  assume "rest = dropWhile (\<lambda>x. x \<noteq> CHR 0x60) s"
  then have "length (tl rest) \<le> length s" using length_dropWhile_le[of "\<lambda>x. x \<noteq> CHR 0x60" s] by simp
  then show "(tl rest, c # s) \<in> measure length" by simp
qed simp_all

text \<open>\<^verbatim>\<open>re.findall(r"[a-z0-9]+", text)\<close>.\<close>

definition term_char :: "char \<Rightarrow> bool" where
  "term_char c = (let n = (of_char c :: nat) in 97 \<le> n \<and> n \<le> 122 \<or> 48 \<le> n \<and> n \<le> 57)"

fun runs_acc :: "(char \<Rightarrow> bool) \<Rightarrow> string \<Rightarrow> string \<Rightarrow> string list" where
  "runs_acc P acc [] = (if acc = [] then [] else [rev acc])"
| "runs_acc P acc (c # s) =
     (if P c then runs_acc P (c # acc) s else if acc = [] then runs_acc P [] s else rev acc # runs_acc P [] s)"

definition stem_term :: "string \<Rightarrow> string" where
  "stem_term t = (if starts_with t ''attenuat'' then ''attenuat'' else if starts_with t ''shield'' then ''shield'' else t)"

definition kept_term :: "string \<Rightarrow> bool" where
  "kept_term t \<longleftrightarrow> \<not> (length t < 4 \<or> t \<in> set STOP_TERMS)"

definition significant_terms :: "string \<Rightarrow> string list" where
  "significant_terms text =
     remdups (filter kept_term (map stem_term (filter kept_term (runs_acc term_char [] (blank_code (lower text))))))"

definition blocker_represented :: "string \<Rightarrow> string option \<Rightarrow> bool" where
  "blocker_represented blocker rollup_text =
     (case rollup_text of
        None \<Rightarrow> False
      | Some t \<Rightarrow>
          let wanted = significant_terms blocker; present = significant_terms t
          in wanted = [] \<or> min 2 (length wanted) \<le> length (filter (\<lambda>w. w \<in> set present) wanted))"

section \<open>The analyzer's files\<close>

text \<open>\<^verbatim>\<open>path.relative_to(root).as_posix()\<close>, and the path itself where it is not below the root.\<close>

definition relative_to_root :: "string \<Rightarrow> string \<Rightarrow> string" where
  "relative_to_root anchor path =
     (let ps = path_parts path; rs = path_parts anchor
      in if path_root path = path_root anchor \<and> take (length rs) ps = rs
         then path_join [] (drop (length rs) ps) else path_text path)"

text \<open>\<^verbatim>\<open>item.startswith\<close> and \<^verbatim>\<open>item.replace\<close> of an item that is not a string raise.\<close>

fun text_item :: "pyval \<Rightarrow> string result" where
  "text_item (PStr s) = Inr s"
| "text_item _ = Inl AttributeError"

fun until_flag :: "pyval list \<Rightarrow> string list result" where
  "until_flag [] = Inr []"
| "until_flag (x # xs) = bind (text_item x) (\<lambda>s.
     if starts_with s ''--'' then Inr [] else bind (until_flag xs) (\<lambda>ss. Inr (s # ss)))"

definition analysis_inputs :: "pyval list \<Rightarrow> string list result" where
  "analysis_inputs command =
     (if length command < 3 then Inr []
      else bind (string_of (command ! 1)) (\<lambda>tool.
        if path_name tool \<in> {''analyze_scheduled_tx_gpio.py'', ''analyze_audio_loopback.py''}
        then bind (text_item (command ! 2)) (\<lambda>s. Inr [s])
        else if path_name tool = ''analyze_attenuation_sweep.py'' then until_flag (drop 2 command)
        else Inr []))"

definition json_argument :: "pyval list \<Rightarrow> pyval" where
  "json_argument command =
     (let i = length (takeWhile (\<lambda>x. x \<noteq> PStr ''--json'') command)
      in if i + 1 < length command then command ! (i + 1) else PNone)"

definition input_state :: "audit_env \<Rightarrow> string \<Rightarrow> string \<Rightarrow> pyval" where
  "input_state env anchor given =
     (let path = resolve_artifact_path anchor given
      in PDict [(''path'', PStr (relative_to_root anchor path)), (''exists'', PBool (tree env path \<noteq> None))])"

definition summary_state :: "audit_env \<Rightarrow> string \<Rightarrow> string \<Rightarrow> pyval result" where
  "summary_state env anchor given =
     (let path = resolve_artifact_path anchor given; here = tree env path \<noteq> None
      in bind (if here then load_json env path else Inr PNone) (\<lambda>data.
         Inr (PDict [(''path'', PStr (relative_to_root anchor path)), (''exists'', PBool here),
                     (''json_valid'', if here then PBool (data \<noteq> PNone) else PNone),
                     (''pass'', if data \<noteq> PNone then PBool (json_passes data) else PNone)])))"

definition analysis_artifacts :: "audit_env \<Rightarrow> string \<Rightarrow> pyval list \<Rightarrow> pyval result" where
  "analysis_artifacts env anchor command =
     bind (analysis_inputs command) (\<lambda>given.
     bind (case json_argument command of
             PNone \<Rightarrow> Inr PNone
           | out \<Rightarrow> bind (text_item out) (summary_state env anchor)) (\<lambda>summary.
       let inputs = map (input_state env anchor) given
       in Inr (PDict [(''inputs'', PList inputs),
            (''inputs_present'', PInt (int (length (filter (\<lambda>i. got i ''exists'' = PBool True) inputs)))),
            (''inputs_total'', PInt (int (length inputs))), (''summary'', summary)])))"

section \<open>The newest metadata and run report of a gate\<close>

text \<open>\<^verbatim>\<open>glob("*-<gate>-run-report*.json")\<close>.\<close>

definition run_report_name :: "string \<Rightarrow> string \<Rightarrow> bool" where
  "run_report_name token name \<longleftrightarrow>
     (let mid = CHR ''-'' # token @ ''-run-report''
      in list_ex (\<lambda>i. starts_with (drop i name) mid \<and> ends_with (drop (i + length mid) name) ''.json'') [0..<Suc (length name)])"

definition newest_named :: "(string \<Rightarrow> bool) \<Rightarrow> (string \<times> rat) list \<Rightarrow> string option" where
  "newest_named P entries =
     (case filter (\<lambda>e. P (fst e)) entries of [] \<Rightarrow> None | e # es \<Rightarrow> Some (''results/'' @ fst (newest e es)))"

definition plain_status :: "string \<Rightarrow> pyval \<Rightarrow> string list \<Rightarrow> pyval" where
  "plain_status status path failures =
     PDict [(''status'', PStr status), (''path'', path), (''failures'', PList (map PStr failures))]"

definition latest_readiness :: "audit_env \<Rightarrow> string \<Rightarrow> string \<Rightarrow> pyval result" where
  "latest_readiness env anchor gate =
     (case newest_named (readiness_name (lower gate)) (results env) of
        None \<Rightarrow> Inr (plain_status ''missing'' PNone [''no readiness metadata found''])
      | Some rel \<Rightarrow> bind (load_json env (path_div anchor rel)) (\<lambda>data.
          if \<not> is_dict data then Inr (plain_status ''invalid'' (PStr rel) [''readiness metadata is not a JSON object''])
          else bind (validate_readiness gate data) (\<lambda>failures.
            if failures \<noteq> [] then Inr (plain_status ''not-ready'' (PStr rel) failures)
            else bind (analysis_command (str_text env) gate data) (\<lambda>command.
              let items = (case command of Some c \<Rightarrow> c | None \<Rightarrow> [])
              in bind (map_res string_of items) (\<lambda>texts.
                 bind (analysis_artifacts env anchor items) (\<lambda>artifacts.
                 Inr (PDict [(''status'', PStr ''ready''), (''path'', PStr rel), (''failures'', PList []),
                   (''analysis_command'', case command of Some c \<Rightarrow> PList c | None \<Rightarrow> PNone),
                   (''analysis_command_text'', PStr (command_text texts)),
                   (''analysis_artifacts'', artifacts)])))))))"

definition REPORTED_FIELDS :: "string list" where
  "REPORTED_FIELDS = [''schema'', ''generated_at'', ''root'']"

text \<open>What the audit keeps of a run report found at \<open>rel\<close>.\<close>

definition report_view :: "audit_env \<Rightarrow> string \<Rightarrow> pyval \<Rightarrow> pyval" where
  "report_view env rel data =
     (let ok = got data ''pass'' = PBool True;
          status = str_of (str_text env) (dget data ''status'' (PStr ''unknown''));
          failures = (case dget data ''failures'' (PList []) of
            PList fs \<Rightarrow> PList fs | _ \<Rightarrow> PList [PStr ''fixture runner failures field is not a list''])
      in PDict ([(''status'', PStr (if ok then ''passed'' else status)), (''path'', PStr rel)] @
           map (\<lambda>f. (f, got data f)) REPORTED_FIELDS @ [(''pass'', PBool ok)] @
           map (\<lambda>f. (f, got data f)) [''gate'', ''readiness'', ''readiness_artifact'', ''inputs'', ''summary_json'',
             ''summary_artifact''] @ [(''failures'', failures)]))"

definition latest_run_report :: "audit_env \<Rightarrow> string \<Rightarrow> string \<Rightarrow> pyval result" where
  "latest_run_report env anchor gate =
     (case newest_named (run_report_name (lower gate)) (results env) of
        None \<Rightarrow> Inr (plain_status ''missing'' PNone [''no fixture runner report found''])
      | Some rel \<Rightarrow> bind (load_json env (path_div anchor rel)) (\<lambda>data.
          if \<not> is_dict data then Inr (plain_status ''invalid'' (PStr rel) [''fixture runner report is not a JSON object''])
          else Inr (report_view env rel data)))"

section \<open>Binding a run report to the files it names\<close>

fun text_of_length :: "nat \<Rightarrow> pyval \<Rightarrow> bool" where
  "text_of_length n (PStr s) = (length s = n)"
| "text_of_length n _ = False"

definition integrity_failures :: "audit_env \<Rightarrow> string \<Rightarrow> string \<Rightarrow> pyval \<Rightarrow> string list" where
  "integrity_failures env anchor prefix artifact =
     (case got artifact ''path'' of
        PStr (c # cs) \<Rightarrow>
          (case tree env (resolve_artifact_path anchor (c # cs)) of
             None \<Rightarrow> []
           | Some (Unreadable e) \<Rightarrow> [prefix @ '' cannot be read: '' @ e]
           | Some (Holds raw) \<Rightarrow>
               let size = got artifact ''bytes''; digest = got artifact ''sha256''
               in msg_if (is_integer size \<and> \<not> py_eq size (PInt (int (length raw))))
                    (prefix @ ''.bytes does not match current file: '' @ str_of (str_text env) size @ '' != '' @
                     show_int (int (length raw))) @
                  msg_if (text_of_length 64 digest \<and> digest \<noteq> PStr (hex_of_bytes (sha256 raw)))
                    (prefix @ ''.sha256 does not match current file''))
      | _ \<Rightarrow> [])"

text \<open>What every recorded artifact must claim; \<open>path_msgs\<close> are the messages about its path.\<close>

definition artifact_claims :: "audit_env \<Rightarrow> string \<Rightarrow> string \<Rightarrow> string list \<Rightarrow> pyval \<Rightarrow> string list" where
  "artifact_claims env anchor prefix path_msgs artifact =
     msg_if (got artifact ''exists'' \<noteq> PBool True) (prefix @ '' does not exist'') @
     path_msgs @
     msg_if (not_positive (got artifact ''bytes'')) (prefix @ ''.bytes is missing'') @
     msg_if (\<not> text_of_length 64 (got artifact ''sha256'')) (prefix @ ''.sha256 is missing'') @
     integrity_failures env anchor prefix artifact"

definition identity :: "audit_env \<Rightarrow> string \<Rightarrow> string \<Rightarrow> string" where
  "identity env anchor path = resolved env (resolve_artifact_path anchor path)"

text \<open>The identities of the inputs a report lists, as far as they are artifacts with a path.\<close>

definition listed_inputs :: "audit_env \<Rightarrow> string \<Rightarrow> pyval \<Rightarrow> string list result" where
  "listed_inputs env anchor inputs =
     bind (py_iter (if py_truth inputs then inputs else PList [])) (\<lambda>xs.
       Inr (concat (map (\<lambda>a. case got a ''path'' of PStr p \<Rightarrow> [identity env anchor p] | _ \<Rightarrow> []) xs)))"

text \<open>The comparison of a report with the command its readiness metadata stands for.\<close>

definition command_failures :: "audit_env \<Rightarrow> string \<Rightarrow> pyval \<Rightarrow> pyval list \<Rightarrow> report" where
  "command_failures env anchor run_report command =
     bind (analysis_inputs command) (\<lambda>given.
     bind (listed_inputs env anchor (got run_report ''inputs'')) (\<lambda>listed.
       let expected = json_argument command; summary = got run_report ''summary_json'';
           differs = (case (expected, summary) of
             (PStr e, PStr s) \<Rightarrow> identity env anchor s \<noteq> identity env anchor e
           | _ \<Rightarrow> py_truth (py_or expected summary))
       in Inr (msg_if (listed \<noteq> map (identity env anchor) given) ''run report inputs do not match readiness analysis inputs'' @
               msg_if differs ''run report summary_json does not match readiness analyzer output'')))"

definition readiness_promotion_failures :: "audit_env \<Rightarrow> string \<Rightarrow> string \<Rightarrow> pyval \<Rightarrow> report" where
  "readiness_promotion_failures env anchor gate run_report =
     (case got run_report ''readiness'' of
        PStr (c # cs) \<Rightarrow>
          let readiness = c # cs; artifact = got run_report ''readiness_artifact''; label = ''run report readiness_artifact'';
              failures = (if \<not> is_dict artifact then [''run report readiness_artifact is missing'']
                else artifact_claims env anchor label
                  (msg_if (got artifact ''path'' \<noteq> PStr readiness) (label @ '' path does not match readiness'')) artifact);
              path = resolve_artifact_path anchor readiness
          in if tree env path = None then Inr (failures @ [''run report readiness missing: '' @ readiness])
             else bind (load_json env path) (\<lambda>metadata.
               if \<not> is_dict metadata then Inr (failures @ [''run report readiness invalid JSON object: '' @ readiness])
               else bind (validate_readiness gate metadata) (\<lambda>invalid.
                 let told = failures @ map (\<lambda>f. ''run report readiness invalid: '' @ f) invalid
                 in bind (analysis_command (str_text env) gate metadata) (\<lambda>command.
                   case command of
                     Some (x # xs) \<Rightarrow> bind (command_failures env anchor run_report (x # xs)) (\<lambda>cs. Inr (told @ cs))
                   | _ \<Rightarrow> Inr (told @ [''run report readiness does not produce an analyzer command'']))))
      | _ \<Rightarrow> Inr [''run report readiness is missing''])"

section \<open>Promotion\<close>

definition header_failures :: "audit_env \<Rightarrow> string \<Rightarrow> pyval \<Rightarrow> string list" where
  "header_failures env gate r =
     (let failures = py_or (got r ''failures'') (PList []);
          text = (\<lambda>k. case got r k of PStr (c # cs) \<Rightarrow> True | _ \<Rightarrow> False)
      in msg_if (got r ''schema'' \<noteq> PStr REPORT_SCHEMA) (''run report schema is '' @ repr_text env (got r ''schema'')) @
         msg_if (\<not> text ''generated_at'') ''run report generated_at is missing'' @
         msg_if (\<not> text ''root'') ''run report root is missing'' @
         msg_if (got r ''status'' \<noteq> PStr ''passed'') (''run report status is '' @ repr_text env (got r ''status'')) @
         msg_if (got r ''pass'' \<noteq> PBool True) ''run report pass is not true'' @
         msg_if (got r ''gate'' \<noteq> PStr gate) (''run report gate is '' @ repr_text env (got r ''gate'')) @
         msg_if (\<not> py_eq failures (PList [])) ''run report failures are not empty'')"

definition input_failures :: "audit_env \<Rightarrow> string \<Rightarrow> nat \<times> pyval \<Rightarrow> string list" where
  "input_failures env anchor = (\<lambda>(index, artifact).
     let prefix = ''run report inputs['' @ show_int (int index) @ '']''
     in if \<not> is_dict artifact then [prefix @ '' is not an artifact object'']
        else artifact_claims env anchor prefix
          (msg_if (case got artifact ''path'' of PStr (c # cs) \<Rightarrow> False | _ \<Rightarrow> True) (prefix @ ''.path is missing'')) artifact)"

definition inputs_failures :: "audit_env \<Rightarrow> string \<Rightarrow> pyval \<Rightarrow> string list" where
  "inputs_failures env anchor inputs =
     (case inputs of
        PList (x # xs) \<Rightarrow> concat (map (input_failures env anchor) (enumerate 0 (x # xs)))
      | _ \<Rightarrow> [''run report inputs are missing''])"

definition summary_failures :: "audit_env \<Rightarrow> string \<Rightarrow> pyval \<Rightarrow> report" where
  "summary_failures env anchor r =
     (case got r ''summary_json'' of
        PStr (c # cs) \<Rightarrow>
          let out = c # cs; artifact = got r ''summary_artifact''; label = ''run report summary_artifact'';
              claims = (if \<not> is_dict artifact then [''run report summary_artifact is missing'']
                else artifact_claims env anchor label
                  (msg_if (got artifact ''path'' \<noteq> PStr out) (label @ '' path does not match summary_json'')) artifact);
              path = resolve_artifact_path anchor out
          in if tree env path = None then Inr (claims @ [''summary JSON missing: '' @ out])
             else bind (load_json env path) (\<lambda>summary.
               Inr (claims @
                 (if summary = PNone then [''summary JSON invalid: '' @ out]
                  else msg_if (\<not> json_passes summary) (''summary JSON did not report pass:true: '' @ out))))
      | _ \<Rightarrow> Inr [''run report summary_json is missing''])"

definition fixture_promotion_failures :: "audit_env \<Rightarrow> string \<Rightarrow> string \<Rightarrow> pyval \<Rightarrow> report" where
  "fixture_promotion_failures env anchor gate r =
     (if \<not> py_truth r \<or> got r ''status'' = PStr ''missing'' \<and> got r ''path'' = PNone
      then Inr [''fixture runner report is missing'']
      else all_of [Inr (header_failures env gate r), readiness_promotion_failures env anchor gate r,
             Inr (inputs_failures env anchor (got r ''inputs'')), summary_failures env anchor r])"

section \<open>What a promotion rests on\<close>

text \<open>An artifact whose claims raise no message: what it records is well formed, and agrees with the file
  it names, where there is one.\<close>

definition bound_to_file :: "audit_env \<Rightarrow> string \<Rightarrow> pyval \<Rightarrow> bool" where
  "bound_to_file env anchor artifact \<longleftrightarrow>
     got artifact ''exists'' = PBool True \<and>
     (\<exists>p digest. got artifact ''path'' = PStr p \<and> p \<noteq> [] \<and> got artifact ''sha256'' = PStr digest \<and> length digest = 64 \<and>
        (case tree env (resolve_artifact_path anchor p) of
           None \<Rightarrow> True
         | Some (Unreadable _) \<Rightarrow> False
         | Some (Holds raw) \<Rightarrow> digest = hex_of_bytes (sha256 raw) \<and> py_eq (got artifact ''bytes'') (PInt (int (length raw)))))"

lemma text_of_length_iff: "text_of_length n v \<longleftrightarrow> (\<exists>s. v = PStr s \<and> length s = n)"
  by (cases v) auto

lemma not_positive_integer: "\<not> not_positive v \<Longrightarrow> is_integer v"
  by (cases v) auto

lemma artifact_claims_silent:
  assumes "artifact_claims env anchor prefix msgs artifact = []" "got artifact ''path'' = PStr p" "p \<noteq> []"
  shows "bound_to_file env anchor artifact"
proof -
  have c: "got artifact ''exists'' = PBool True" "\<not> not_positive (got artifact ''bytes'')"
    "text_of_length 64 (got artifact ''sha256'')" "integrity_failures env anchor prefix artifact = []"
    using assms(1) unfolding artifact_claims_def append_is_Nil_conv msg_if_silent by blast+
  obtain digest where d: "got artifact ''sha256'' = PStr digest" "length digest = 64"
    using c(3) by (auto simp: text_of_length_iff)
  obtain x xs where p: "p = x # xs" using assms(3) by (cases p) auto
  have "case tree env (resolve_artifact_path anchor p) of
      None \<Rightarrow> True
    | Some (Unreadable _) \<Rightarrow> False
    | Some (Holds raw) \<Rightarrow> digest = hex_of_bytes (sha256 raw) \<and> py_eq (got artifact ''bytes'') (PInt (int (length raw)))"
    using c(4) not_positive_integer[OF c(2)] assms(2) d
    by (cases "tree env (resolve_artifact_path anchor p)")
       (simp_all add: integrity_failures_def p Let_def split: entry.splits)
  then show ?thesis using c(1) assms(2,3) d by (auto simp: bound_to_file_def)
qed

text \<open>A report that leaves no objection.\<close>

lemma promotion_silent:
  assumes "fixture_promotion_failures env anchor gate r = Inr []"
  shows "header_failures env gate r = [] \<and> readiness_promotion_failures env anchor gate r = Inr [] \<and>
    inputs_failures env anchor (got r ''inputs'') = [] \<and> summary_failures env anchor r = Inr []"
  using assms by (auto simp: fixture_promotion_failures_def simp del: all_of.simps split: if_splits)

lemma header_silent:
  assumes "header_failures env gate r = []"
  shows "got r ''schema'' = PStr REPORT_SCHEMA" "got r ''status'' = PStr ''passed''" "got r ''pass'' = PBool True"
    "got r ''gate'' = PStr gate"
  using assms by (auto simp: header_failures_def Let_def)

lemma inputs_silent:
  assumes "inputs_failures env anchor inputs = []"
  shows "\<exists>xs. inputs = PList xs \<and> xs \<noteq> [] \<and> (\<forall>a \<in> set xs. bound_to_file env anchor a)"
proof -
  obtain x xs where i: "inputs = PList (x # xs)" using assms by (auto simp: inputs_failures_def split: pyval.splits list.splits)
  have "bound_to_file env anchor a" if "a \<in> set (x # xs)" for a
  proof -
    obtain k where "k < length (x # xs)" "(x # xs) ! k = a" using \<open>a \<in> set (x # xs)\<close> by (meson in_set_conv_nth)
    then have "(k, a) \<in> set (enumerate 0 (x # xs))" by (simp add: in_set_enumerate_eq del: enumerate_simps)
    then have f: "input_failures env anchor (k, a) = []"
      using assms by (auto simp: inputs_failures_def i simp del: enumerate_simps)
    then obtain p where "got a ''path'' = PStr p" "p \<noteq> []"
      by (auto simp: input_failures_def Let_def artifact_claims_def split: if_splits pyval.splits list.splits)
    then show ?thesis using f artifact_claims_silent by (auto simp: input_failures_def Let_def split: if_splits)
  qed
  then show ?thesis using i by blast
qed

lemma summary_silent:
  assumes "summary_failures env anchor r = Inr []"
  shows "\<exists>out raw v. got r ''summary_json'' = PStr out \<and> tree env (resolve_artifact_path anchor out) = Some (Holds raw) \<and>
    json_of env raw = Inr (Some v) \<and> json_passes v \<and> bound_to_file env anchor (got r ''summary_artifact'')"
proof -
  obtain c cs where o: "got r ''summary_json'' = PStr (c # cs)"
    using assms by (auto simp: summary_failures_def split: pyval.splits list.splits)
  let ?a = "got r ''summary_artifact''" and ?path = "resolve_artifact_path anchor (c # cs)"
  have t: "tree env ?path \<noteq> None" and a: "artifact_claims env anchor ''run report summary_artifact''
      (msg_if (got ?a ''path'' \<noteq> PStr (c # cs)) (''run report summary_artifact'' @ '' path does not match summary_json'')) ?a = []"
    using assms by (auto simp: summary_failures_def o Let_def bind_eq_Inr split: if_splits)
  obtain v where v: "load_json env ?path = Inr v" "v \<noteq> PNone" "json_passes v"
    using assms t by (auto simp: summary_failures_def o Let_def bind_eq_Inr split: if_splits)
  then obtain raw where "tree env ?path = Some (Holds raw)" "json_of env raw = Inr (Some v)"
    by (auto simp: load_json_def bind_eq_Inr split: option.splits entry.splits)
  moreover have "bound_to_file env anchor ?a"
    by (rule artifact_claims_silent[OF a, of "c # cs"]) (use a in \<open>simp_all add: artifact_claims_def\<close>)
  ultimately show ?thesis using o v(3) by blast
qed

lemma analysis_command_some:
  "analysis_command show gate data = Inr (Some command) \<Longrightarrow> gate \<in> {''E0-03'', ''E0-05'', ''E0-07''}"
  by (auto simp: analysis_command_def split: if_splits)

lemma readiness_silent:
  assumes "readiness_promotion_failures env anchor gate r = Inr []"
  shows "\<exists>p raw metadata command given. got r ''readiness'' = PStr p \<and>
    tree env (resolve_artifact_path anchor p) = Some (Holds raw) \<and> json_of env raw = Inr (Some metadata) \<and>
    validate_readiness gate metadata = Inr [] \<and> analysis_command (str_text env) gate metadata = Inr (Some command) \<and>
    analysis_inputs command = Inr given \<and>
    listed_inputs env anchor (got r ''inputs'') = Inr (map (identity env anchor) given) \<and>
    bound_to_file env anchor (got r ''readiness_artifact'')"
proof -
  obtain c cs where p: "got r ''readiness'' = PStr (c # cs)"
    using assms by (auto simp: readiness_promotion_failures_def split: pyval.splits list.splits)
  let ?a = "got r ''readiness_artifact''" and ?path = "resolve_artifact_path anchor (c # cs)"
  let ?claims = "artifact_claims env anchor ''run report readiness_artifact''
    (msg_if (got ?a ''path'' \<noteq> PStr (c # cs)) (''run report readiness_artifact'' @ '' path does not match readiness'')) ?a"
  note unfold = assms[unfolded readiness_promotion_failures_def p pyval.case list.case Let_def]
  have t: "tree env ?path \<noteq> None" using unfold by (auto split: if_splits)
  obtain metadata where m: "load_json env ?path = Inr metadata" "is_dict metadata"
    using unfold t by (auto simp: bind_eq_Inr split: if_splits)
  obtain invalid where v: "validate_readiness gate metadata = Inr invalid"
    using unfold t m by (auto simp: bind_eq_Inr split: if_splits)
  obtain command where cmd: "analysis_command (str_text env) gate metadata = Inr command"
    using unfold t m v by (auto simp: bind_eq_Inr split: if_splits)
  obtain x xs where xs: "command = Some (x # xs)"
    using unfold t m v cmd by (auto split: option.splits list.splits if_splits)
  have rest: "invalid = []" "command_failures env anchor r (x # xs) = Inr []" "is_dict ?a" "?claims = []"
    using unfold t m v cmd xs by (auto simp: bind_eq_Inr split: if_splits)
  obtain raw where raw: "tree env ?path = Some (Holds raw)" "json_of env raw = Inr (Some metadata)"
    using m by (auto simp: load_json_def bind_eq_Inr split: option.splits entry.splits)
  obtain given listed where g: "analysis_inputs (x # xs) = Inr given" "listed_inputs env anchor (got r ''inputs'') = Inr listed"
    "listed = map (identity env anchor) given"
    using rest(2) by (auto simp: command_failures_def bind_eq_Inr Let_def)
  have "bound_to_file env anchor ?a"
    by (rule artifact_claims_silent[OF rest(4), of "c # cs"]) (use rest(4) in \<open>simp_all add: artifact_claims_def\<close>)
  then show ?thesis using p raw v rest(1) cmd xs g by blast
qed

section \<open>A proved gate\<close>

text \<open>The newest run report of the gate says that it passed, and everything it rests on is there: metadata
  that validates, the inputs and the summary that metadata stands for, and digests that agree with the
  files.\<close>

definition fixture_proved :: "audit_env \<Rightarrow> string \<Rightarrow> string \<Rightarrow> bool" where
  "fixture_proved env anchor gate \<longleftrightarrow>
     (\<exists>rel raw doc p praw metadata command given inputs out oraw summary.
        newest_named (run_report_name (lower gate)) (results env) = Some rel \<and>
        tree env (path_div anchor rel) = Some (Holds raw) \<and> json_of env raw = Inr (Some doc) \<and>
        got doc ''schema'' = PStr REPORT_SCHEMA \<and> got doc ''pass'' = PBool True \<and> got doc ''gate'' = PStr gate \<and>
        got doc ''readiness'' = PStr p \<and> tree env (resolve_artifact_path anchor p) = Some (Holds praw) \<and>
        json_of env praw = Inr (Some metadata) \<and> validate_readiness gate metadata = Inr [] \<and>
        analysis_command (str_text env) gate metadata = Inr (Some command) \<and> analysis_inputs command = Inr given \<and>
        got doc ''inputs'' = PList inputs \<and> inputs \<noteq> [] \<and>
        listed_inputs env anchor (PList inputs) = Inr (map (identity env anchor) given) \<and>
        got doc ''summary_json'' = PStr out \<and> tree env (resolve_artifact_path anchor out) = Some (Holds oraw) \<and>
        json_of env oraw = Inr (Some summary) \<and> json_passes summary \<and>
        (\<forall>a \<in> set (got doc ''readiness_artifact'' # got doc ''summary_artifact'' # inputs). bound_to_file env anchor a))"

lemma report_view_got:
  "k \<in> set (''gate'' # ''readiness'' # ''readiness_artifact'' # ''inputs'' # ''summary_json'' # ''summary_artifact'' # REPORTED_FIELDS)
   \<Longrightarrow> got (report_view env rel data) k = got data k"
  by (auto simp: report_view_def got_def REPORTED_FIELDS_def Let_def)

lemma report_view_status:
  "got (report_view env rel data) ''pass'' = PBool (got data ''pass'' = PBool True)"
  "got (report_view env rel data) ''path'' = PStr rel"
  "got (report_view env rel data) ''status'' =
     PStr (if got data ''pass'' = PBool True then ''passed'' else str_of (str_text env) (dget data ''status'' (PStr ''unknown'')))"
  "py_truth (report_view env rel data)"
  by (simp_all add: report_view_def got_def REPORTED_FIELDS_def Let_def)

lemma plain_status_got [simp]:
  "got (plain_status s p fs) ''status'' = PStr s" "got (plain_status s p fs) ''path'' = p"
  "got (plain_status s p fs) ''schema'' = PNone" "py_truth (plain_status s p fs)"
  by (simp_all add: plain_status_def got_def)

lemma promotion_proved:
  assumes "latest_run_report env anchor gate = Inr r" "fixture_promotion_failures env anchor gate r = Inr []"
  shows "fixture_proved env anchor gate"
proof -
  note S = promotion_silent[OF assms(2)]
  note H = header_silent[OF conjunct1[OF S]]
  obtain rel where rel: "newest_named (run_report_name (lower gate)) (results env) = Some rel"
    using assms(1) H(1) by (auto simp: latest_run_report_def REPORT_SCHEMA_def split: option.splits)
  obtain doc where d: "load_json env (path_div anchor rel) = Inr doc" "is_dict doc" "r = report_view env rel doc"
    using assms(1) H(1) by (auto simp: latest_run_report_def rel REPORT_SCHEMA_def bind_eq_Inr split: if_splits)
  obtain raw where raw: "tree env (path_div anchor rel) = Some (Holds raw)" "json_of env raw = Inr (Some doc)"
    using d(1,2) by (auto simp: load_json_def bind_eq_Inr split: option.splits entry.splits)
  have g: "got r k = got doc k" if "k \<in> set (''gate'' # ''readiness'' # ''readiness_artifact'' # ''inputs'' #
      ''summary_json'' # ''summary_artifact'' # REPORTED_FIELDS)" for k
    using report_view_got[OF that] d(3) by simp
  have pass: "got doc ''pass'' = PBool True" using H(3) d(3) by (simp add: report_view_status)
  obtain p praw metadata command given where R: "got doc ''readiness'' = PStr p"
    "tree env (resolve_artifact_path anchor p) = Some (Holds praw)" "json_of env praw = Inr (Some metadata)"
    "validate_readiness gate metadata = Inr []" "analysis_command (str_text env) gate metadata = Inr (Some command)"
    "analysis_inputs command = Inr given" "listed_inputs env anchor (got doc ''inputs'') = Inr (map (identity env anchor) given)"
    "bound_to_file env anchor (got doc ''readiness_artifact'')"
    using readiness_silent[OF conjunct1[OF conjunct2[OF S]]] g by auto
  obtain inputs where I: "got doc ''inputs'' = PList inputs" "inputs \<noteq> []" "\<forall>a \<in> set inputs. bound_to_file env anchor a"
    using inputs_silent[of env anchor "got r ''inputs''"] S g by auto
  obtain out oraw summary where O: "got doc ''summary_json'' = PStr out"
    "tree env (resolve_artifact_path anchor out) = Some (Holds oraw)" "json_of env oraw = Inr (Some summary)"
    "json_passes summary" "bound_to_file env anchor (got doc ''summary_artifact'')"
    using summary_silent[of env anchor r] S g by auto
  have doc: "got doc ''schema'' = PStr REPORT_SCHEMA" "got doc ''gate'' = PStr gate"
    using H(1,4) g by (simp_all add: REPORTED_FIELDS_def)
  have listed: "listed_inputs env anchor (PList inputs) = Inr (map (identity env anchor) given)" using R(7) I(1) by simp
  have bound: "\<forall>a \<in> set (got doc ''readiness_artifact'' # got doc ''summary_artifact'' # inputs). bound_to_file env anchor a"
    using R(8) O(5) I(3) by simp
  show ?thesis unfolding fixture_proved_def
    by ((rule exI conjI rel raw(1) raw(2) doc(1) pass doc(2) R(1) R(2) R(3) R(4) R(5) R(6) I(1) I(2) listed O(1) O(2) O(3) O(4) bound)+)
qed

end
