(* ===== verification/Gate_Audit.thy ===== *)
theory Gate_Audit
  imports Gate_Evidence
begin

text \<open>
  \<^verbatim>\<open>tools/audit_prototype0_gates.py\<close>, the gates of Prototype 0 and the audit of all of them, with the
  Markdown and Mermaid reports; and the next actions of \<^verbatim>\<open>tools/prototype0_fixture_actions.py\<close>.
\<close>

section \<open>The next actions of a fixture\<close>

record action_details =
  template_path :: string
  filled_readiness :: string
  filled_run_report :: string
  fill_command :: string

definition actions_e003 :: action_details where
  \<open>actions_e003 = \<lparr>template_path = ''firmware/prototype0/fg23/results/20260808-e0-03-readiness-template.json'',
     filled_readiness = ''firmware/prototype0/fg23/results/20260808-e0-03-readiness.json'',
     filled_run_report = ''firmware/prototype0/fg23/results/20260808-e0-03-run-report.json'',
     fill_command = ''python tools/prototype0_fixture_readiness.py --gate E0-03 --fill --set "instrument=Saleae Logic Pro 8" --set ground_connected=true --set output_csv=firmware/prototype0/fg23/results/20260808-e0-03-scheduled-tx-gpio.csv --json firmware/prototype0/fg23/results/20260808-e0-03-readiness.json''\<rparr>\<close>

definition actions_e005 :: action_details where
  \<open>actions_e005 = \<lparr>template_path = ''firmware/prototype0/fg23/results/20260808-e0-05-readiness-template.json'',
     filled_readiness = ''firmware/prototype0/fg23/results/20260808-e0-05-readiness.json'',
     filled_run_report = ''firmware/prototype0/fg23/results/20260808-e0-05-run-report.json'',
     fill_command = ''python tools/prototype0_fixture_readiness.py --gate E0-05 --fill --set "method=Mini-Circuits 30 dB inline attenuator or shield box" --set baseline_summary_json=firmware/prototype0/fg23/results/20260808-e0-05-step-00-baseline.json --set "physical_setup_note=RF path 0, COM10-to-COM8 direction, same antenna geometry for baseline and attenuated steps." --attenuated-step "label=30dB,physical_setting=30 dB inline attenuator,summary_json=firmware/prototype0/fg23/results/20260808-e0-05-step-01-30db.json" --json firmware/prototype0/fg23/results/20260808-e0-05-readiness.json''\<rparr>\<close>

definition actions_e007 :: action_details where
  \<open>actions_e007 = \<lparr>template_path = ''firmware/prototype0/fg23/results/20260808-e0-07-readiness-template.json'',
     filled_readiness = ''firmware/prototype0/fg23/results/20260808-e0-07-readiness.json'',
     filled_run_report = ''firmware/prototype0/fg23/results/20260808-e0-07-run-report.json'',
     fill_command = ''python tools/prototype0_fixture_readiness.py --gate E0-07 --fill --set "fixture_method=wired DAC output to ADC capture input loopback" --set firmware_timing_markers=true --set output_csv=firmware/prototype0/fg23/results/20260808-e0-07-audio-loopback.csv --json firmware/prototype0/fg23/results/20260808-e0-07-readiness.json''\<rparr>\<close>

definition action_details_of :: "string \<Rightarrow> action_details option" where
  "action_details_of gate = map_of [(''E0-03'', actions_e003), (''E0-05'', actions_e005), (''E0-07'', actions_e007)] gate"

text \<open>A command built from a path of the details, absent where there are none or the path is empty.\<close>

definition with_path :: "string \<Rightarrow> (action_details \<Rightarrow> string) \<Rightarrow> (string \<Rightarrow> string) \<Rightarrow> string option" where
  "with_path gate field command =
     (case action_details_of gate of
        None \<Rightarrow> None | Some d \<Rightarrow> if field d = [] then None else Some (command (field d)))"

definition template_command :: "string \<Rightarrow> string option" where
  "template_command gate = with_path gate template_path (\<lambda>p.
     ''python tools/prototype0_fixture_readiness.py --gate '' @ gate @ '' --template --json '' @ p)"

definition check_command :: "string \<Rightarrow> string option" where
  "check_command gate = with_path gate filled_readiness (\<lambda>p.
     ''python tools/prototype0_fixture_readiness.py --gate '' @ gate @ '' --check '' @ p)"

definition dry_run_command :: "string \<Rightarrow> string option" where
  "dry_run_command gate = with_path gate filled_readiness (\<lambda>p.
     ''python tools/run_prototype0_fixture_analysis.py --readiness '' @ p @ '' --dry-run'')"

definition full_run_command :: "string \<Rightarrow> string option" where
  "full_run_command gate =
     (case action_details_of gate of
        None \<Rightarrow> None
      | Some d \<Rightarrow> if filled_readiness d = [] \<or> filled_run_report d = [] then None
          else Some (''python tools/run_prototype0_fixture_analysis.py --readiness '' @ filled_readiness d @ '' --json '' @
                     filled_run_report d))"

definition discover_dry_run_command :: "string \<Rightarrow> string option" where
  "discover_dry_run_command gate = map_option (\<lambda>_.
     ''python tools/run_prototype0_fixture_analysis.py --gate '' @ gate @ '' --dry-run'') (action_details_of gate)"

definition discover_run_command :: "string \<Rightarrow> string option" where
  "discover_run_command gate = with_path gate filled_run_report (\<lambda>p.
     ''python tools/run_prototype0_fixture_analysis.py --gate '' @ gate @ '' --json '' @ p)"

definition concrete_next_actions :: "string \<Rightarrow> string list option" where
  "concrete_next_actions gate =
     (case action_details_of gate of
        None \<Rightarrow> None
      | Some d \<Rightarrow>
          let commands = [template_command gate, check_command gate, Some (fill_command d), dry_run_command gate,
                full_run_command gate, discover_dry_run_command gate, discover_run_command gate]
          in if list_all (\<lambda>c. c = None) commands then None
             else Some (concat (map (\<lambda>c. case c of None \<Rightarrow> [] | Some t \<Rightarrow> if t = [] then [] else [t]) commands)))"

section \<open>The gates\<close>

definition DEFAULT_ROLLUP_DOC :: string where
  "DEFAULT_ROLLUP_DOC = ''20260807-prototype0-gate-status.md''"

record evidence_spec =
  es_path :: string
  es_kind :: string
  es_expect_pass :: bool
  es_validator :: "string option"

record gate =
  gt_id :: string
  gt_name :: string
  gt_target :: string
  gt_evidence :: "evidence_spec list"
  gt_blockers :: "string list"
  gt_actions :: "string list"

definition doc_at :: "string \<Rightarrow> evidence_spec" where
  "doc_at path = \<lparr>es_path = path, es_kind = ''doc'', es_expect_pass = False, es_validator = None\<rparr>"

definition json_at :: "string \<Rightarrow> evidence_spec" where
  "json_at path = \<lparr>es_path = path, es_kind = ''json'', es_expect_pass = True, es_validator = None\<rparr>"

definition retention_at :: "string \<Rightarrow> evidence_spec" where
  "retention_at path = \<lparr>es_path = path, es_kind = ''json'', es_expect_pass = True,
     es_validator = Some ''railtest_bidirectional_retention''\<rparr>"

definition gate_e001 :: gate where
  "gate_e001 = \<lparr>gt_id = ''E0-01'', gt_name = ''Toolchain reproduction'', gt_target = ''passed'',
     gt_evidence = [doc_at ''20260807-e0-01-link-smoke-result.md'',
       doc_at ''20260808-railtest-bidirectional-retention-result.md'',
       doc_at ''results/20260807-node-1-e0-01.log'',
       doc_at ''results/20260807-node-2-e0-01.log'',
       retention_at ''results/20260808-railtest-bidirectional-retention-summary.json'',
       retention_at ''results/20260808-railtest-bidirectional-retention-1000-summary.json''],
     gt_blockers = [],
     gt_actions = []\<rparr>"

definition gate_e002 :: gate where
  "gate_e002 = \<lparr>gt_id = ''E0-02'', gt_name = ''Continuous packet pair'', gt_target = ''passed'',
     gt_evidence = [doc_at ''20260807-railtest-packet-precheck-result.md'',
       doc_at ''20260807-railtest-1500pkt-20ms-result.md'',
       doc_at ''20260807-openref-railtest-wire-format-result.md'',
       doc_at ''20260807-openref-app-hook-result.md'',
       doc_at ''20260807-openref-autotx-result.md'',
       doc_at ''20260807-openref-autorx-result.md'',
       doc_at ''20260807-openref-autorole-result.md'',
       json_at ''results/20260807-openref-autorole-1hour-com8-rx-summary.json''],
     gt_blockers = [],
     gt_actions = []\<rparr>"

definition gate_e003 :: gate where
  "gate_e003 = \<lparr>gt_id = ''E0-03'', gt_name = ''Scheduled transmission'', gt_target = ''partial'',
     gt_evidence = [doc_at ''20260807-railtest-scheduled-tx-precheck-result.md'',
       doc_at ''20260807-openref-scheduled-tx-sdk-result.md'',
       doc_at ''20260807-openref-scheduled-tx-gpio-marker-plan.md'',
       json_at ''results/20260807-openref-scheduled-tx-com8-summary.json''],
     gt_blockers = [''External GPIO/logic-analyzer or oscilloscope capture is still required.''],
     gt_actions = [''python tools/prototype0_fixture_readiness.py --gate E0-03 --template --json firmware/prototype0/fg23/results/YYYYMMDD-e0-03-readiness.json'',
       ''python tools/prototype0_fixture_readiness.py --gate E0-03 --check firmware/prototype0/fg23/results/YYYYMMDD-e0-03-readiness.json'',
       ''python tools/run_prototype0_fixture_analysis.py --readiness firmware/prototype0/fg23/results/YYYYMMDD-e0-03-readiness.json --dry-run'',
       ''python tools/run_prototype0_fixture_analysis.py --readiness firmware/prototype0/fg23/results/YYYYMMDD-e0-03-readiness.json --json firmware/prototype0/fg23/results/YYYYMMDD-e0-03-run-report.json'',
       ''python tools/run_prototype0_fixture_analysis.py --gate E0-03 --dry-run'',
       ''python tools/run_prototype0_fixture_analysis.py --gate E0-03 --json firmware/prototype0/fg23/results/YYYYMMDD-e0-03-run-report.json'']\<rparr>"

definition gate_e004 :: gate where
  "gate_e004 = \<lparr>gt_id = ''E0-04'', gt_name = ''Payload capacity sweep'', gt_target = ''passed'',
     gt_evidence = [doc_at ''20260807-railtest-capacity-precheck-result.md'',
       doc_at ''20260807-openref-runtime-capacity-result.md'',
       json_at ''results/20260807-openref-autorole-capacity-sweep-summary.json''],
     gt_blockers = [],
     gt_actions = []\<rparr>"

definition gate_e005 :: gate where
  "gate_e005 = \<lparr>gt_id = ''E0-05'', gt_name = ''Controlled attenuation'', gt_target = ''blocked'',
     gt_evidence = [doc_at ''20260807-openref-attenuation-analysis-plan.md'',
       doc_at ''20260808-railtest-tx-power-sweep-precheck-result.md'',
       json_at ''results/20260808-railtest-tx-power-sweep-com8-rx-analysis.json'',
       json_at ''results/20260808-railtest-tx-power-sweep-com10-rx-analysis.json'',
       doc_at ''20260808-railtest-rssi-path0-precheck-result.md'',
       json_at ''results/20260808-railtest-rssi-com8-rx-com10-tx-rf0-summary.json'',
       json_at ''results/20260808-railtest-rssi-com10-rx-com8-tx-rf0-summary.json'',
       doc_at ''20260808-railtest-rssi-path1-negative-precheck-result.md'',
       json_at ''results/20260808-railtest-rssi-com8-rx-com10-tx-rf1-summary.json'',
       json_at ''results/20260808-railtest-rssi-com10-rx-com8-tx-rf1-summary.json''],
     gt_blockers = [''Controlled RF attenuation, shield box, or repeatable shielding setup is still required.''],
     gt_actions = [''python tools/prototype0_fixture_readiness.py --gate E0-05 --template --json firmware/prototype0/fg23/results/YYYYMMDD-e0-05-readiness.json'',
       ''python tools/prototype0_fixture_readiness.py --gate E0-05 --check firmware/prototype0/fg23/results/YYYYMMDD-e0-05-readiness.json'',
       ''python tools/run_prototype0_fixture_analysis.py --readiness firmware/prototype0/fg23/results/YYYYMMDD-e0-05-readiness.json --dry-run'',
       ''python tools/run_prototype0_fixture_analysis.py --readiness firmware/prototype0/fg23/results/YYYYMMDD-e0-05-readiness.json --json firmware/prototype0/fg23/results/YYYYMMDD-e0-05-run-report.json'',
       ''python tools/run_prototype0_fixture_analysis.py --gate E0-05 --dry-run'',
       ''python tools/run_prototype0_fixture_analysis.py --gate E0-05 --json firmware/prototype0/fg23/results/YYYYMMDD-e0-05-run-report.json'']\<rparr>"

definition gate_e006 :: gate where
  "gate_e006 = \<lparr>gt_id = ''E0-06'', gt_name = ''Radio fault recovery'', gt_target = ''passed'',
     gt_evidence = [doc_at ''20260807-railtest-fault-precheck-result.md'',
       doc_at ''20260807-openref-recovery-precheck-result.md'',
       doc_at ''20260807-openref-malformed-rx-result.md'',
       doc_at ''20260807-openref-queue-pressure-result.md'',
       doc_at ''20260807-openref-forced-reset-result.md'',
       doc_at ''20260808-railtest-rx-overflow-reset-recovery-result.md'',
       doc_at ''20260807-openref-memory-watermark-result.md'',
       json_at ''results/20260808-railtest-rx-overflow-reset-recovery-com8-summary.json'',
       json_at ''results/20260808-railtest-rx-overflow-reset-recovery-com10-summary.json''],
     gt_blockers = [],
     gt_actions = []\<rparr>"

definition gate_e007 :: gate where
  "gate_e007 = \<lparr>gt_id = ''E0-07'', gt_name = ''Audio loopback timing'', gt_target = ''blocked'',
     gt_evidence = [doc_at ''20260807-openref-audio-loopback-analysis-plan.md''],
     gt_blockers = [''Audio capture/playback fixture and firmware timing markers are still required.''],
     gt_actions = [''python tools/prototype0_fixture_readiness.py --gate E0-07 --template --json firmware/prototype0/fg23/results/YYYYMMDD-e0-07-readiness.json'',
       ''python tools/prototype0_fixture_readiness.py --gate E0-07 --check firmware/prototype0/fg23/results/YYYYMMDD-e0-07-readiness.json'',
       ''python tools/run_prototype0_fixture_analysis.py --readiness firmware/prototype0/fg23/results/YYYYMMDD-e0-07-readiness.json --dry-run'',
       ''python tools/run_prototype0_fixture_analysis.py --readiness firmware/prototype0/fg23/results/YYYYMMDD-e0-07-readiness.json --json firmware/prototype0/fg23/results/YYYYMMDD-e0-07-run-report.json'',
       ''python tools/run_prototype0_fixture_analysis.py --gate E0-07 --dry-run'',
       ''python tools/run_prototype0_fixture_analysis.py --gate E0-07 --json firmware/prototype0/fg23/results/YYYYMMDD-e0-07-run-report.json'']\<rparr>"

definition GATES :: "gate list" where
  "GATES = [gate_e001, gate_e002, gate_e003, gate_e004, gate_e005, gate_e006, gate_e007]"

section \<open>The audit of a gate\<close>

record evidence_result =
  er_path :: string
  er_kind :: string
  er_exists :: bool
  er_validator :: "string option"
  er_json_valid :: "bool option"
  er_pass :: "bool option"
  er_referenced :: "bool option"

definition read_text :: "audit_env \<Rightarrow> string \<Rightarrow> string option" where
  "read_text env path = (case tree env path of Some (Holds raw) \<Rightarrow> Some (decoded env raw) | _ \<Rightarrow> None)"

text \<open>One item of evidence: its result, and what it adds to the missing files, to the weak evidence and to
  the references missing from the rollup document.\<close>

definition judge_evidence :: "audit_env \<Rightarrow> string \<Rightarrow> string option \<Rightarrow> evidence_spec \<Rightarrow>
    (evidence_result \<times> string list \<times> string list \<times> string list) result" where
  "judge_evidence env anchor rollup spec =
     (let given = es_path spec; path = path_div anchor given; here = tree env path \<noteq> None;
          json = (here \<and> es_kind spec = ''json''); name = path_name given;
          document = (here \<and> es_kind spec = ''doc'' \<and> ends_with given ''.md'');
          referenced = (case rollup of None \<Rightarrow> False | Some t \<Rightarrow> has_sub name t)
      in bind (if json then load_json env path else Inr PNone) (\<lambda>data.
         bind (if json \<and> data \<noteq> PNone \<and> es_expect_pass spec
               then bind (validation_failures env data (es_validator spec)) (Inr \<circ> Some) else Inr None) (\<lambda>verdict.
         Inr (\<lparr>er_path = given, er_kind = es_kind spec, er_exists = here, er_validator = es_validator spec,
                er_json_valid = (if json then Some (data \<noteq> PNone) else None), er_pass = map_option (\<lambda>fs. fs = []) verdict,
                er_referenced = (if document then Some referenced else None)\<rparr>,
              msg_if (\<not> here) given,
              msg_if (json \<and> data = PNone) (given @ '': invalid JSON'') @
                (case verdict of None \<Rightarrow> [] | Some fs \<Rightarrow> map (\<lambda>f. given @ '': '' @ f) fs),
              msg_if (document \<and> \<not> referenced) name))))"

definition open_target :: "string \<Rightarrow> bool" where
  "open_target target \<longleftrightarrow> target \<in> {''partial'', ''blocked''}"

text \<open>The status of a gate, and the weak evidence it is reported with.\<close>

definition gate_status :: "string \<Rightarrow> string option \<Rightarrow> string \<Rightarrow> string list \<Rightarrow> string list \<Rightarrow> string list \<Rightarrow> string list \<Rightarrow>
    string list \<Rightarrow> string \<times> string list" where
  "gate_status rollup_doc rollup target missing weak refs uncovered promotion =
     (if missing \<noteq> [] then (''missing-evidence'', weak)
      else if rollup = None then (''weak-evidence'', weak @ [rollup_doc @ '': missing rollup document''])
      else if weak \<noteq> [] then (''weak-evidence'', weak)
      else if refs \<noteq> [] then (''weak-evidence'', weak @ map (\<lambda>n. rollup_doc @ '': missing reference to '' @ n) refs)
      else if open_target target \<and> promotion = [] then (''passed'', weak)
      else if uncovered \<noteq> []
      then (''weak-evidence'', weak @ map (\<lambda>b. rollup_doc @ '': missing blocker coverage for '' @ b) uncovered)
      else (target, weak))"

record gate_result =
  gr_gate :: string
  gr_name :: string
  gr_target :: string
  gr_status :: string
  gr_evidence :: "evidence_result list"
  gr_missing :: "string list"
  gr_weak :: "string list"
  gr_missing_refs :: "string list"
  gr_missing_blockers :: "string list"
  gr_promotion_failures :: "string list"
  gr_blockers :: "string list"
  gr_next_actions :: "string list"
  gr_promoted :: bool
  gr_readiness :: "pyval option"
  gr_run_report :: "pyval option"

definition next_actions :: "gate \<Rightarrow> string list" where
  "next_actions g = (case concrete_next_actions (gt_id g) of Some (a # as) \<Rightarrow> a # as | _ \<Rightarrow> gt_actions g)"

definition audit_gate :: "audit_env \<Rightarrow> string \<Rightarrow> string \<Rightarrow> string option \<Rightarrow> gate \<Rightarrow> gate_result result" where
  "audit_gate env anchor rollup_doc rollup g =
     (let is_open = open_target (gt_target g)
      in bind (if is_open then bind (latest_readiness env anchor (gt_id g)) (Inr \<circ> Some) else Inr None) (\<lambda>readiness.
         bind (if is_open then bind (latest_run_report env anchor (gt_id g)) (Inr \<circ> Some) else Inr None) (\<lambda>run_report.
         bind (map_res (judge_evidence env anchor rollup) (gt_evidence g)) (\<lambda>judged.
         bind (case run_report of None \<Rightarrow> Inr [] | Some r \<Rightarrow> fixture_promotion_failures env anchor (gt_id g) r) (\<lambda>promotion.
           let missing = concat (map (\<lambda>(_, m, _, _). m) judged); found_weak = concat (map (\<lambda>(_, _, w, _). w) judged);
               refs = concat (map (\<lambda>(_, _, _, r). r) judged);
               uncovered = filter (\<lambda>b. \<not> blocker_represented b rollup) (gt_blockers g);
               (status, weak) = gate_status rollup_doc rollup (gt_target g) missing found_weak refs uncovered promotion;
               promoted = (status = ''passed'' \<and> is_open)
           in Inr \<lparr>gr_gate = gt_id g, gr_name = gt_name g, gr_target = gt_target g, gr_status = status,
                gr_evidence = map fst judged, gr_missing = missing, gr_weak = weak, gr_missing_refs = refs,
                gr_missing_blockers = uncovered, gr_promotion_failures = promotion,
                gr_blockers = (if promoted then [] else gt_blockers g),
                gr_next_actions = (if promoted then [] else next_actions g), gr_promoted = promoted,
                gr_readiness = readiness, gr_run_report = run_report\<rparr>)))))"

record audit_report =
  ar_root :: string
  ar_rollup_doc :: string
  ar_passed :: nat
  ar_partial :: nat
  ar_blocked :: nat
  ar_problem :: nat
  ar_total :: nat
  ar_gates :: "gate_result list"

definition count_status :: "gate_result list \<Rightarrow> string list \<Rightarrow> nat" where
  "count_status gs statuses = length (filter (\<lambda>g. gr_status g \<in> set statuses) gs)"

definition audit :: "audit_env \<Rightarrow> string \<Rightarrow> string \<Rightarrow> audit_report result" where
  "audit env anchor rollup_doc =
     (let rollup = read_text env (path_div anchor rollup_doc)
      in bind (map_res (audit_gate env anchor rollup_doc rollup) GATES) (\<lambda>gs.
         Inr \<lparr>ar_root = path_text anchor, ar_rollup_doc = rollup_doc, ar_passed = count_status gs [''passed''],
              ar_partial = count_status gs [''partial''], ar_blocked = count_status gs [''blocked''],
              ar_problem = count_status gs [''missing-evidence'', ''weak-evidence''],
              ar_total = length gs, ar_gates = gs\<rparr>))"

section \<open>What the audit means\<close>

lemma gate_status_passed:
  assumes "gate_status doc rollup target missing weak refs uncovered promotion = (''passed'', w)" "open_target target"
  shows "missing = [] \<and> weak = [] \<and> refs = [] \<and> promotion = [] \<and> w = [] \<and> rollup \<noteq> None"
  using assms by (auto simp: gate_status_def open_target_def split: if_splits)

lemma audit_gate_open:
  assumes "audit_gate env anchor rollup_doc rollup g = Inr r" "open_target (gt_target g)"
  shows "\<exists>run_report judged promotion. latest_run_report env anchor (gt_id g) = Inr run_report \<and>
    map_res (judge_evidence env anchor rollup) (gt_evidence g) = Inr judged \<and>
    fixture_promotion_failures env anchor (gt_id g) run_report = Inr promotion \<and>
    (gr_status r, gr_weak r) = gate_status rollup_doc rollup (gt_target g) (concat (map (\<lambda>(_, m, _, _). m) judged))
      (concat (map (\<lambda>(_, _, w, _). w) judged)) (concat (map (\<lambda>(_, _, _, r). r) judged)) (gr_missing_blockers r) promotion"
proof -
  obtain readiness run_report judged where a: "latest_readiness env anchor (gt_id g) = Inr readiness"
    "latest_run_report env anchor (gt_id g) = Inr run_report"
    "map_res (judge_evidence env anchor rollup) (gt_evidence g) = Inr judged"
    using assms by (auto simp: audit_gate_def bind_eq_Inr Let_def)
  obtain promotion where p: "fixture_promotion_failures env anchor (gt_id g) run_report = Inr promotion"
    using assms by (auto simp: audit_gate_def bind_eq_Inr Let_def a)
  obtain status weak where s: "gate_status rollup_doc rollup (gt_target g) (concat (map (\<lambda>(_, m, _, _). m) judged))
      (concat (map (\<lambda>(_, _, w, _). w) judged)) (concat (map (\<lambda>(_, _, _, r). r) judged))
      (filter (\<lambda>b. \<not> blocker_represented b rollup) (gt_blockers g)) promotion = (status, weak)"
    by fastforce
  have "gr_status r = status \<and> gr_weak r = weak \<and>
      gr_missing_blockers r = filter (\<lambda>b. \<not> blocker_represented b rollup) (gt_blockers g)"
    using assms by (auto simp: audit_gate_def Let_def a p s)
  then show ?thesis using a p s by auto
qed

lemma judged_silent:
  assumes "map_res (judge_evidence env anchor rollup) specs = Inr judged"
    "concat (map (\<lambda>(_, m, _, _). m) judged) = []" "concat (map (\<lambda>(_, _, w, _). w) judged) = []"
    "spec \<in> set specs"
  shows "tree env (path_div anchor (es_path spec)) \<noteq> None \<and>
    (es_kind spec = ''json'' \<longrightarrow> (\<exists>raw v. tree env (path_div anchor (es_path spec)) = Some (Holds raw) \<and>
       json_of env raw = Inr (Some v) \<and> (es_expect_pass spec \<longrightarrow> validation_failures env v (es_validator spec) = Inr [])))"
  using assms
proof (induction specs arbitrary: judged)
  case (Cons x xs)
  then obtain er m w rf js where x: "judge_evidence env anchor rollup x = Inr (er, m, w, rf)"
    "map_res (judge_evidence env anchor rollup) xs = Inr js" "judged = (er, m, w, rf) # js"
    by (auto simp: bind_eq_Inr)
  then have "m = []" "w = []" using Cons.prems by simp_all
  show ?case
  proof (cases "spec = x")
    case False
    then show ?thesis using Cons.IH[OF x(2)] Cons.prems x(3) by simp
  next
    case True
    then show ?thesis using x(1) \<open>m = []\<close> \<open>w = []\<close>
      by (auto simp: judge_evidence_def Let_def bind_eq_Inr load_json_def msg_if_def split: if_splits option.splits entry.splits)
  qed
qed simp


definition sample_report :: pyval where
  "sample_report = PDict [(''schema'', PStr REPORT_SCHEMA), (''generated_at'', PStr ''now''), (''root'', PStr ''x''),
     (''pass'', PBool True), (''status'', PStr ''passed''), (''gate'', PStr ''E0-03''), (''readiness'', PStr ''r.json''),
     (''readiness_artifact'', PDict [(''path'', PStr ''r.json''), (''exists'', PBool True), (''bytes'', PInt 1),
        (''sha256'', PStr (hex_of_bytes (sha256 [2])))]),
     (''inputs'', PList [PDict [(''path'', PStr ''a.csv''), (''exists'', PBool True), (''bytes'', PInt 1),
        (''sha256'', PStr (hex_of_bytes (sha256 [3])))]]),
     (''summary_json'', PStr ''a.summary.json''),
     (''summary_artifact'', PDict [(''path'', PStr ''a.summary.json''), (''exists'', PBool True), (''bytes'', PInt 1),
        (''sha256'', PStr (hex_of_bytes (sha256 [4])))]),
     (''failures'', PList [])]"

definition sample_audit_env :: audit_env where
  "sample_audit_env = \<lparr>tree = [''x/results/1-e0-03-run-report.json'' \<mapsto> Holds [1], ''r.json'' \<mapsto> Holds [2],
       ''a.csv'' \<mapsto> Holds [3], ''a.summary.json'' \<mapsto> Holds [4]],
     results = [(''1-e0-03-run-report.json'', 0)],
     json_of = (\<lambda>raw. Inr (Some (if raw = [1] then sample_report else if raw = [2] then sample_scheduled
       else PDict [(''pass'', PBool True)]))),
     decoded = (\<lambda>_. []), resolved = (\<lambda>p. p), str_text = no_show, repr_text = no_show\<rparr>"

definition sample_gate :: gate where
  "sample_gate = \<lparr>gt_id = ''E0-03'', gt_name = [], gt_target = ''partial'', gt_evidence = [], gt_blockers = [], gt_actions = []\<rparr>"

lemma sample_names:
  "lower ''E0-03'' = ''e0-03''" "run_report_name ''e0-03'' ''1-e0-03-run-report.json''"
  "\<not> readiness_name ''e0-03'' ''1-e0-03-run-report.json''"
  "path_div ''x'' ''results/1-e0-03-run-report.json'' = ''x/results/1-e0-03-run-report.json''"
  "resolve_artifact_path ''x'' ''r.json'' = ''r.json''"
  by code_simp+

lemma sample_latest:
  "latest_run_report sample_audit_env ''x'' ''E0-03'' = Inr (report_view sample_audit_env ''results/1-e0-03-run-report.json'' sample_report)"
  "latest_readiness sample_audit_env ''x'' ''E0-03'' = Inr (plain_status ''missing'' PNone [''no readiness metadata found''])"
  by (simp_all add: latest_run_report_def latest_readiness_def newest_named_def sample_names)
     (simp add: sample_audit_env_def newest_named_def sample_names load_json_def sample_report_def)+

lemma sample_header:
  "header_failures sample_audit_env ''E0-03'' (report_view sample_audit_env rel sample_report) = []"
proof -
  have "got (report_view sample_audit_env rel sample_report) ''failures'' = PList []"
    by (simp add: report_view_def got_def REPORTED_FIELDS_def Let_def sample_report_def)
  then show ?thesis
    by (simp add: header_failures_def report_view_got report_view_status REPORTED_FIELDS_def Let_def py_or_def)
       (simp add: sample_report_def got_def py_eq_def msg_if_def)
qed

lemma sample_analysis:
  "analysis_command no_show ''E0-03'' sample_scheduled = Inr (Some (map PStr sample_items))"
  "analysis_inputs (map PStr sample_items) = Inr [''a.csv'']" "json_argument (map PStr sample_items) = PStr ''a.summary.json''"
  by (rule sample_command)
     (simp_all add: sample_items_def analysis_inputs_def sample_paths json_argument_def)

lemma sample_claims:
  assumes "resolve_artifact_path ''x'' p = p" "tree sample_audit_env p = Some (Holds raw)" "length raw = 1" "p \<noteq> []"
  shows "artifact_claims sample_audit_env ''x'' label [] (PDict [(''path'', PStr p), (''exists'', PBool True), (''bytes'', PInt 1),
        (''sha256'', PStr (hex_of_bytes (sha256 raw)))]) = []"
proof -
  have "p = hd p # tl p" using assms(4) by simp
  then show ?thesis
    using assms by (cases p) (simp_all add: artifact_claims_def integrity_failures_def got_def length_hex_of_bytes py_eq_def msg_if_def)
qed

lemma sample_promoted:
  "fixture_promotion_failures sample_audit_env ''x'' ''E0-03'' (report_view sample_audit_env rel sample_report) = Inr []"
proof -
  let ?r = "report_view sample_audit_env rel sample_report"
  have tree: "tree sample_audit_env ''r.json'' = Some (Holds [2])" "tree sample_audit_env ''a.csv'' = Some (Holds [3])"
    "tree sample_audit_env ''a.summary.json'' = Some (Holds [4])" by (simp_all add: sample_audit_env_def)
  have json: "load_json sample_audit_env ''r.json'' = Inr sample_scheduled"
    "load_json sample_audit_env ''a.summary.json'' = Inr (PDict [(''pass'', PBool True)])"
    by (simp_all add: load_json_def tree) (simp_all add: sample_audit_env_def)
  have got: "got ?r ''readiness'' = PStr ''r.json''" "got ?r ''summary_json'' = PStr ''a.summary.json''"
    "got ?r ''readiness_artifact'' = PDict [(''path'', PStr ''r.json''), (''exists'', PBool True), (''bytes'', PInt 1),
        (''sha256'', PStr (hex_of_bytes (sha256 [2])))]"
    "got ?r ''inputs'' = PList [PDict [(''path'', PStr ''a.csv''), (''exists'', PBool True), (''bytes'', PInt 1),
        (''sha256'', PStr (hex_of_bytes (sha256 [3])))]]"
    "got ?r ''summary_artifact'' = PDict [(''path'', PStr ''a.summary.json''), (''exists'', PBool True), (''bytes'', PInt 1),
        (''sha256'', PStr (hex_of_bytes (sha256 [4])))]"
    by (simp_all add: report_view_got) (simp_all add: sample_report_def got_def)
  note claims = sample_claims[OF sample_names(5) tree(1)] sample_claims[OF sample_paths(5) tree(2)]
    sample_claims[OF sample_paths(6) tree(3)]
  have id: "identity sample_audit_env ''x'' p = resolve_artifact_path ''x'' p" for p by (simp add: identity_def sample_audit_env_def)
  have nb: "str_text sample_audit_env = no_show" by (simp add: sample_audit_env_def)
  have "command_failures sample_audit_env ''x'' ?r (map PStr sample_items) = Inr []"
    by (simp add: command_failures_def sample_analysis got listed_inputs_def id msg_if_def) (simp add: got_def id)
  moreover obtain y ys where items: "map PStr sample_items = y # ys" by (simp add: sample_items_def)
  ultimately have "readiness_promotion_failures sample_audit_env ''x'' ''E0-03'' ?r = Inr []"
    using claims(1) by (simp add: readiness_promotion_failures_def got sample_names tree json sample_scheduled_ready nb
      sample_analysis(1) items msg_if_def got_def[of "PDict _"]) (simp add: sample_scheduled_def)
  moreover have "inputs_failures sample_audit_env ''x'' (got ?r ''inputs'') = []"
    unfolding got(4) inputs_failures_def using claims(2) by (simp add: input_failures_def msg_if_def got_def[of "PDict _"])
  moreover have "summary_failures sample_audit_env ''x'' ?r = Inr []"
    using claims(3) by (simp add: summary_failures_def got sample_paths tree json msg_if_def got_def[of "PDict _"])
  ultimately show ?thesis
    by (simp add: fixture_promotion_failures_def sample_header report_view_status del: all_of.simps)
qed


section \<open>Two gaps of the audit\<close>

text \<open>A capture that is no longer there raises no objection: the report's own word that it exists is
  believed, and the digest is compared only with a file that is there.\<close>

lemma absent_capture_accepted:
  assumes "tree env (resolve_artifact_path anchor p) = None" "p \<noteq> []" "length digest = 64" "0 < n"
  shows "input_failures env anchor (i, PDict [(''path'', PStr p), (''exists'', PBool True), (''bytes'', PInt n),
    (''sha256'', PStr digest)]) = []"
  using assms by (cases p) (simp_all add: input_failures_def artifact_claims_def integrity_failures_def got_def msg_if_def)

text \<open>Metadata that lost its fields ends the audit of all gates with \<^verbatim>\<open>KeyError\<close>: the analyzer command is
  built even when the metadata has failed its validation.\<close>

lemma incomplete_metadata_raises:
  assumes "got r ''readiness'' = PStr p" "p \<noteq> []" "tree env (resolve_artifact_path anchor p) = Some (Holds raw)"
    "json_of env raw = Inr (Some (PDict []))"
  shows "readiness_promotion_failures env anchor ''E0-03'' r = Inl (KeyError ''output_csv'')"
proof -
  have "is_dict (PDict [])" "analysis_command (str_text env) ''E0-03'' (PDict []) = Inl (KeyError ''output_csv'')"
    by (simp_all add: analysis_command_def scheduled_command_def path_item_def)
  moreover obtain invalid where "validate_readiness ''E0-03'' (PDict []) = Inr invalid"
    by (simp add: validate_readiness_def scheduled_report_def got_def below_def number_of_def say_def mem_eq_def)
  moreover have "load_json env (resolve_artifact_path anchor p) = Inr (PDict [])" using assms by (simp add: load_json_def)
  ultimately show ?thesis using assms(1,2,3) by (cases p) (simp_all add: readiness_promotion_failures_def)
qed

section \<open>The summary of an audit\<close>

lemma audit_gate_fields:
  assumes "audit_gate env anchor rollup_doc rollup g = Inr r"
  shows "gr_gate r = gt_id g \<and> gr_status r \<in> {''missing-evidence'', ''weak-evidence'', ''passed'', gt_target g} \<and>
    (gr_status r \<in> {''passed'', ''partial'', ''blocked''} \<longrightarrow> gr_missing r = [] \<and> gr_weak r = [])"
proof -
  obtain readiness run_report judged promotion where a:
    "(if open_target (gt_target g) then bind (latest_readiness env anchor (gt_id g)) (Inr \<circ> Some) else Inr None) = Inr readiness"
    "(if open_target (gt_target g) then bind (latest_run_report env anchor (gt_id g)) (Inr \<circ> Some) else Inr None) = Inr run_report"
    "map_res (judge_evidence env anchor rollup) (gt_evidence g) = Inr judged"
    "(case run_report of None \<Rightarrow> Inr [] | Some r \<Rightarrow> fixture_promotion_failures env anchor (gt_id g) r) = Inr promotion"
    using assms unfolding audit_gate_def Let_def bind_eq_Inr by blast
  let ?missing = "concat (map (\<lambda>(_, m, _, _). m) judged)"
  obtain status weak where s: "gate_status rollup_doc rollup (gt_target g) ?missing
      (concat (map (\<lambda>(_, _, w, _). w) judged)) (concat (map (\<lambda>(_, _, _, r). r) judged))
      (filter (\<lambda>b. \<not> blocker_represented b rollup) (gt_blockers g)) promotion = (status, weak)"
    by fastforce
  have "gr_gate r = gt_id g \<and> gr_status r = status \<and> gr_weak r = weak \<and> gr_missing r = ?missing"
    using assms by (auto simp: audit_gate_def Let_def a s)
  moreover have "status \<in> {''missing-evidence'', ''weak-evidence'', ''passed'', gt_target g} \<and>
      (status \<in> {''passed'', ''partial'', ''blocked''} \<longrightarrow> ?missing = [] \<and> weak = [])"
    using s unfolding gate_status_def by (auto split: if_splits)
  ultimately show ?thesis by simp
qed

lemma count_status_total:
  assumes "\<forall>g \<in> set gs. gr_status g \<in> {''missing-evidence'', ''weak-evidence'', ''passed'', ''partial'', ''blocked''}"
  shows "count_status gs [''passed''] + count_status gs [''partial''] + count_status gs [''blocked''] +
    count_status gs [''missing-evidence'', ''weak-evidence''] = length gs"
  using assms by (induction gs) (auto simp: count_status_def)

lemma GATES_fields:
  "map gt_id GATES = [''E0-01'', ''E0-02'', ''E0-03'', ''E0-04'', ''E0-05'', ''E0-06'', ''E0-07'']"
  "\<forall>g \<in> set GATES. gt_target g \<in> {''passed'', ''partial'', ''blocked''}"
  by (simp_all add: GATES_def gate_e001_def gate_e002_def gate_e003_def gate_e004_def gate_e005_def gate_e006_def gate_e007_def)

lemma map_res_audit:
  assumes "map_res (audit_gate env anchor rollup_doc rollup) gates = Inr gs"
    "\<forall>g \<in> set gates. gt_target g \<in> {''passed'', ''partial'', ''blocked''}"
  shows "map gr_gate gs = map gt_id gates \<and>
    (\<forall>g \<in> set gs. gr_status g \<in> {''missing-evidence'', ''weak-evidence'', ''passed'', ''partial'', ''blocked''} \<and>
      (gr_status g \<in> {''passed'', ''partial'', ''blocked''} \<longrightarrow> gr_missing g = [] \<and> gr_weak g = []))"
  using assms
proof (induction gates arbitrary: gs)
  case (Cons g gates)
  then obtain r rs where r: "audit_gate env anchor rollup_doc rollup g = Inr r"
    "map_res (audit_gate env anchor rollup_doc rollup) gates = Inr rs" "gs = r # rs"
    by (auto simp: bind_eq_Inr)
  then show ?case using Cons.IH[OF r(2)] Cons.prems(2) audit_gate_fields[OF r(1)] by auto
qed simp


end
