(* ===== verification/Evidence_Chain.thy ===== *)
theory Evidence_Chain
  imports Gate_Audit
begin

text \<open>
  How the two ends of the evidence chain fit: the report \<^verbatim>\<open>run_prototype0_fixture_analysis.py\<close> writes of a
  run that passed is one that \<^verbatim>\<open>audit_prototype0_gates.py\<close> promotes the gate on, as long as the files stay
  what they were.
\<close>

section \<open>The shape of an analyzer command\<close>

definition is_flag :: "string \<Rightarrow> bool" where
  "is_flag s \<longleftrightarrow> starts_with s ''--''"

lemma until_flag_texts: "until_flag (map PStr xs) = Inr (takeWhile (\<lambda>x. \<not> is_flag x) xs)"
  by (induction xs) (simp_all add: is_flag_def)

lemma json_flag: "is_flag ''--json''" "is_flag ''--labels''" "is_flag ''--queue-channel''" "is_flag ''--expected-samples''"
  by (simp_all add: is_flag_def starts_with_def)

text \<open>The name of the tool and how its inputs are found.\<close>

definition known_tool :: "string \<Rightarrow> string list \<Rightarrow> bool" where
  "known_tool tool given \<longleftrightarrow>
     path_name tool \<in> {''analyze_scheduled_tx_gpio.py'', ''analyze_audio_loopback.py''} \<and> length given = 1 \<or>
     path_name tool = ''analyze_attenuation_sweep.py'' \<and> list_all (\<lambda>x. \<not> is_flag x) given"

lemma tool_names:
  "path_name ''tools/analyze_scheduled_tx_gpio.py'' = ''analyze_scheduled_tx_gpio.py''"
  "path_name ''tools/analyze_audio_loopback.py'' = ''analyze_audio_loopback.py''"
  "path_name ''tools/analyze_attenuation_sweep.py'' = ''analyze_attenuation_sweep.py''"
  by code_simp+

lemma known_tool_plain: "known_tool tool given \<Longrightarrow> tool \<noteq> ''--json''"
proof -
  have "path_name ''--json'' = ''--json''" by code_simp
  then show "known_tool tool given \<Longrightarrow> tool \<noteq> ''--json''" by (auto simp: known_tool_def)
qed

lemma map_PStr_append:
  "map PStr items = xs @ ys \<Longrightarrow> \<exists>us vs. items = us @ vs \<and> xs = map PStr us \<and> ys = map PStr vs"
  by (metis map_eq_append_conv)

lemma command_shape:
  assumes "analysis_command show gate data = Inr (Some (map PStr items))" "analysis_inputs (map PStr items) = Inr given"
  shows "\<exists>tool flag rest. items = ''python'' # tool # given @ flag # rest \<and> is_flag flag \<and> known_tool tool given"
proof -
  consider (scheduled) csv q rest where "map PStr items = [PStr ''python'', PStr ''tools/analyze_scheduled_tx_gpio.py'', PStr csv,
      PStr ''--queue-channel''] @ q # rest"
    | (loopback) csv q rest where "map PStr items = [PStr ''python'', PStr ''tools/analyze_audio_loopback.py'', PStr csv,
      PStr ''--expected-samples''] @ q # rest"
    | (sweep) xs ys where "map PStr items = [PStr ''python'', PStr ''tools/analyze_attenuation_sweep.py''] @ xs @ [PStr ''--labels''] @ ys"
  proof -
    from analysis_command_some[OF assms(1)] consider "gate = ''E0-03''" | "gate = ''E0-05''" | "gate = ''E0-07''" by blast
    then show thesis
    proof cases
      case 1
      then obtain csv q j where "map PStr items = PStr ''python'' # PStr ''tools/analyze_scheduled_tx_gpio.py'' # PStr csv #
          PStr ''--queue-channel'' # q # j"
        using assms(1) unfolding analysis_command_def scheduled_command_def path_item_def bind_eq_Inr
        by (simp add: bind_eq_Inr) (metis append_Cons)
      then show thesis using scheduled by simp
    next
      case 2
      then obtain b ss ls j where "map PStr items = PStr ''python'' # PStr ''tools/analyze_attenuation_sweep.py'' # b # ss @
          PStr ''--labels'' # PStr ''baseline'' # ls @ j"
        using assms(1) unfolding analysis_command_def attenuation_command_def path_item_def bind_eq_Inr
        by (simp add: bind_eq_Inr) metis
      then have "map PStr items = [PStr ''python'', PStr ''tools/analyze_attenuation_sweep.py''] @ (b # ss) @ [PStr ''--labels''] @
          (PStr ''baseline'' # ls @ j)" by simp
      then show thesis by (rule sweep)
    next
      case 3
      then obtain csv q j where "map PStr items = PStr ''python'' # PStr ''tools/analyze_audio_loopback.py'' # PStr csv #
          PStr ''--expected-samples'' # q # j"
        using assms(1) unfolding analysis_command_def loopback_command_def path_item_def bind_eq_Inr
        by (simp add: bind_eq_Inr) (metis append_Cons)
      then show thesis using loopback by simp
    qed
  qed
  then show ?thesis
  proof cases
    case scheduled
    then obtain f rest' where i: "items = ''python'' # ''tools/analyze_scheduled_tx_gpio.py'' # csv # ''--queue-channel'' # rest'"
      by (auto simp: map_eq_Cons_conv)
    then have "given = [csv]" using assms(2) by (simp add: analysis_inputs_def tool_names)
    then show ?thesis using i json_flag by (auto simp: known_tool_def tool_names)
  next
    case loopback
    then obtain rest' where i: "items = ''python'' # ''tools/analyze_audio_loopback.py'' # csv # ''--expected-samples'' # rest'"
      by (auto simp: map_eq_Cons_conv)
    then have "given = [csv]" using assms(2) by (simp add: analysis_inputs_def tool_names)
    then show ?thesis using i json_flag by (auto simp: known_tool_def tool_names)
  next
    case sweep
    then obtain us vs where i: "items = ''python'' # ''tools/analyze_attenuation_sweep.py'' # us @ ''--labels'' # vs"
      by (auto simp: map_eq_Cons_conv map_eq_append_conv)
    let ?ws = "us @ ''--labels'' # vs" and ?P = "\<lambda>x. \<not> is_flag x"
    have g: "given = takeWhile ?P ?ws"
      using assms(2) until_flag_texts[of ?ws] by (simp add: i analysis_inputs_def tool_names)
    have "\<exists>x \<in> set ?ws. \<not> ?P x" using json_flag by auto
    then have "dropWhile ?P ?ws \<noteq> []" by (simp only: dropWhile_eq_Nil_conv) blast
    then obtain flag rest where d: "dropWhile ?P ?ws = flag # rest" by (cases "dropWhile ?P ?ws") blast+
    have flag: "is_flag flag" using hd_dropWhile[of ?P ?ws] by (simp only: d) simp
    have ws: "?ws = given @ flag # rest" using takeWhile_dropWhile_id[of ?P ?ws] by (simp only: d g)
    have "list_all ?P given" unfolding g by (auto simp: list_all_iff dest: set_takeWhileD)
    then have known: "known_tool ''tools/analyze_attenuation_sweep.py'' given" by (simp add: known_tool_def tool_names)
    show ?thesis using i[unfolded ws] flag known by blast
  qed
qed

section \<open>Rewriting keeps the command's files\<close>

lemma fold_update_block:
  "length pre = a \<Longrightarrow> fold (\<lambda>i c. c[i := f (c ! i)]) [a..<a + length g] (pre @ g @ post) = pre @ map f g @ post"
proof (induction g arbitrary: a pre)
  case (Cons x g)
  have "[a..<a + length (x # g)] = a # [Suc a..<Suc a + length g]"
    using upt_conv_Cons[of a "a + length (x # g)"] by (simp del: upt_Suc)
  moreover have "(pre @ (x # g) @ post)[a := f ((pre @ (x # g) @ post) ! a)] = (pre @ [f x]) @ g @ post"
    using Cons.prems by (simp add: nth_append list_update_append)
  ultimately show ?case using Cons.IH[of "pre @ [f x]" "Suc a"] Cons.prems by simp
qed simp

lemma index_of_append: "x \<notin> set xs \<Longrightarrow> index_of x (xs @ ys) = length xs + index_of x ys"
  by (induction xs) auto

lemma index_of_less: "x \<in> set ys \<Longrightarrow> index_of x ys < length ys \<and> ys ! index_of x ys = x"
  by (induction ys) auto

lemma index_of_update: "index_of x ys < j \<Longrightarrow> x \<in> set ys \<Longrightarrow> index_of x (ys[j := z]) = index_of x ys"
proof (induction ys arbitrary: j)
  case (Cons y ys)
  then show ?case by (cases j) (auto split: if_splits)
qed simp

lemma index_of_takeWhile: "length (takeWhile (\<lambda>x. x \<noteq> PStr a) (map PStr ss)) = index_of a ss"
  by (induction ss) auto

lemma known_tool_indexes:
  assumes "known_tool tool given" "is_flag flag"
  shows "input_indexes (x # tool # given @ flag # rest) = [2..<2 + length given]"
proof -
  have "map (\<lambda>i. i + 2) [0..<length given] = [2..<2 + length given]"
    by (simp only: map_add_upt add.commute[of 2 "length given"])
  moreover have "takeWhile (\<lambda>x. \<not> starts_with x ''--'') (given @ flag # rest) = given" if "list_all (\<lambda>x. \<not> is_flag x) given"
    using that assms(2) by (simp add: list_all_iff is_flag_def takeWhile_append2)
  moreover have "[2] = [2..<2 + length given]" if "length given = 1" using that by (simp add: upt_rec)
  ultimately show ?thesis using assms(1) by (auto simp: known_tool_def input_indexes_def Let_def)
qed

lemma known_tool_paths:
  assumes "known_tool tool given" "is_flag flag"
  shows "input_paths (x # tool # given @ flag # rest) = map path_text given"
proof -
  have "map (\<lambda>i. path_text ((x # tool # given @ flag # rest) ! i)) [2..<2 + length given] = map path_text given"
    by (rule nth_equalityI) (simp_all add: nth_append del: upt_Suc)
  then show ?thesis by (simp only: input_paths_def known_tool_indexes[OF assms])
qed

lemma json_index_shape:
  assumes "x \<noteq> ''--json''" "tool \<noteq> ''--json''" "''--json'' \<notin> set given" "''--json'' \<in> set tail"
    "index_of ''--json'' tail + 1 < length tail"
  shows "json_index (x # tool # given @ tail) = Some (2 + length given + (index_of ''--json'' tail + 1))"
proof -
  have "index_of ''--json'' ((x # tool # given) @ tail) = 2 + length given + index_of ''--json'' tail"
    by (subst index_of_append) (use assms in simp_all)
  moreover have "tail \<noteq> []" using assms(4) by auto
  ultimately show ?thesis using assms by (simp add: json_index_def Let_def)
qed

text \<open>A path that the runner's and the auditor's resolution both leave where it is.\<close>

definition steady :: "string \<Rightarrow> string \<Rightarrow> bool" where
  "steady anchor p \<longleftrightarrow> \<not> is_flag p \<and> (let q = resolve_artifact_path anchor p in
     q \<noteq> [] \<and> \<not> is_flag q \<and> path_text q = q \<and> resolve_artifact_path anchor q = q)"

lemma rewritten_command:
  assumes shape: "items = ''python'' # tool # given @ flag # rest" "is_flag flag" "known_tool tool given"
    and out: "json_argument (map PStr items) = PStr out" and py: "python t \<noteq> ''--json''"
    and steady: "\<forall>p \<in> set (out # given). steady anchor p"
  shows "input_paths (rewrite_command_for_root t items anchor) = map (resolve_artifact_path anchor) given \<and>
    json_output_path (rewrite_command_for_root t items anchor) = Some (resolve_artifact_path anchor out)"
proof -
  let ?f = "resolve_artifact_path anchor" and ?j = "''--json''" and ?tail = "flag # rest"
  let ?k = "index_of ?j ?tail" and ?head = "\<lambda>g. python t # tool # g"
  have plain: "?j \<notin> set given" "?j \<notin> set (map ?f given)" "tool \<noteq> ?j"
    using steady json_flag known_tool_plain[OF shape(3)] by (auto simp: steady_def Let_def)
  let ?pre = "''python'' # tool # given"
  have pre: "items = ?pre @ ?tail" by (simp add: shape(1))
  have i: "index_of ?j items = length ?pre + ?k"
    unfolding pre by (rule index_of_append) (use plain in simp)
  have "index_of ?j items + 1 < length items" and at: "items ! (index_of ?j items + 1) = out"
    using out index_of_takeWhile[of ?j items]
    by (auto simp: json_argument_def Let_def split: if_splits)
  then have "length ?pre + (?k + 1) < length items" "items ! (length ?pre + (?k + 1)) = out" by (simp_all only: i add.assoc)
  then have k: "?k + 1 < length ?tail" and o: "?tail ! (?k + 1) = out"
    unfolding pre nth_append_length_plus length_append by linarith+
  have mem: "?j \<in> set ?tail"
  proof (rule ccontr)
    assume "?j \<notin> set ?tail"
    then have "index_of ?j ?tail = length ?tail" using index_of_append[of ?j ?tail "[]"] by simp
    then show False using k by simp
  qed
  let ?tail' = "?tail[?k + 1 := ?f out]"
  have kt: "known_tool tool (map ?f given)" using shape(3) steady by (auto simp: known_tool_def list_all_iff steady_def Let_def)
  have c: "fold (\<lambda>i c. c[i := ?f (c ! i)]) (input_indexes (?head given @ ?tail)) (?head given @ ?tail) = ?head (map ?f given) @ ?tail"
    using fold_update_block[of "[python t, tool]" 2 ?f given ?tail] known_tool_indexes[OF shape(3,2), of "python t" rest] by simp
  have ji: "json_index (?head given @ ?tail) = Some (2 + length given + (?k + 1))"
    using json_index_shape[OF py plain(3) plain(1) mem k] by simp
  have upd: "(?head (map ?f given) @ ?tail)[2 + length given + (?k + 1) := ?f ((?head (map ?f given) @ ?tail) ! (2 + length given + (?k + 1)))]
      = ?head (map ?f given) @ ?tail'"
    using o by (simp add: list_update_append nth_append)
  have rw: "rewrite_command_for_root t items anchor = ?head (map ?f given) @ ?tail'"
  proof -
    have sub: "(case items of x # xs \<Rightarrow> (if x = ''python'' then python t else x) # xs | [] \<Rightarrow> []) = ?head given @ ?tail"
      by (simp add: shape(1))
    show ?thesis by (simp only: rewrite_command_for_root_def Let_def sub c ji option.case upd)
  qed
  have tail': "?tail' = flag # rest[?k := ?f out]" by simp
  have "input_paths (?head (map ?f given) @ ?tail') = map path_text (map ?f given)"
    using known_tool_paths[OF kt shape(2)] unfolding tail' by simp
  also have "... = map ?f given" using steady by (simp add: steady_def Let_def)
  finally have "input_paths (rewrite_command_for_root t items anchor) = map ?f given" by (simp only: rw)
  moreover have ji': "json_index (?head (map ?f given) @ ?tail') = Some (2 + length given + (?k + 1))"
  proof -
    have ix: "index_of ?j ?tail' = ?k" by (rule index_of_update) (use mem in simp_all)
    have "?j \<in> set ?tail'"
      using index_of_less[OF mem] k by (metis index_of_less ix length_list_update less_add_one nat_neq_iff nth_list_update_neq nth_mem)
    then show ?thesis using json_index_shape[OF py plain(3) plain(2), of ?tail'] ix k by simp
  qed
  moreover have "(?head (map ?f given) @ ?tail') ! (2 + length given + (?k + 1)) = ?f out"
    using k by (simp add: nth_append)
  ultimately show ?thesis using steady unfolding rw json_output_path_def by (simp add: steady_def Let_def)
qed

section \<open>The report of a run that passed\<close>

lemma finished_report:
  assumes fin: "finish_run t command (Some p) (pending_report t anchor False gate readiness command fs) fs = (r, fs')"
    and pass: "passing r"
  shows "map_of r ''failures'' = Some (PList []) \<and> map_of r ''status'' = Some (PStr ''passed'') \<and>
    map_of r ''summary_artifact'' = Some (file_artifact t fs' p) \<and>
    (\<forall>k \<in> {''schema'', ''generated_at'', ''root'', ''gate'', ''readiness'', ''readiness_artifact'', ''inputs'', ''summary_json''}.
       map_of r k = map_of (pending_report t anchor False gate readiness command fs) k) \<and>
    (\<exists>raw m s. fs' p = Some (raw, m) \<and> parse t raw = Some s \<and> (s = PNone \<or> summary_passes s))"
proof -
  obtain rc out err entries summary problems where e: "execute t command fs = (rc, out, err, fs')"
    "read_summary t fs' (Some p) = (entries, summary, problems)"
    "map_of r ''pass'' = Some (PBool (run_failures summary problems rc = []))"
    "map_of r ''status'' = Some (PStr (if run_failures summary problems rc = [] then ''passed'' else ''failed''))"
    using finish_run_facts[OF fin] by blast
  have clean: "run_failures summary problems rc = []" using e(3) pass by (simp add: passing_def)
  obtain raw m s where s: "fs' p = Some (raw, m)" "parse t raw = Some s" "s = PNone \<or> summary_passes s"
    using read_summary_clean[OF e(2) clean] by blast
  have entries: "entries = [(''summary'', s), (''summary_artifact'', file_artifact t fs' p)]"
    using e(2) s by (simp add: read_summary_def)
  have r: "r = set_all ([(''returncode'', PInt rc), (''stdout'', PStr out), (''stderr'', PStr err)] @ entries @
      [(''failures'', PList []), (''pass'', PBool True), (''status'', PStr ''passed'')])
      (pending_report t anchor False gate readiness command fs)"
    using fin e clean by (simp add: finish_run_def)
  have m: "map_of r = map_of (pending_report t anchor False gate readiness command fs) ++
      map_of (rev ([(''returncode'', PInt rc), (''stdout'', PStr out), (''stderr'', PStr err)] @ entries @
      [(''failures'', PList []), (''pass'', PBool True), (''status'', PStr ''passed'')]))"
    unfolding r by (rule map_of_set_all)
  show ?thesis unfolding m entries using s by (simp add: map_add_def)
qed

lemma file_artifact_claims:
  assumes "fs p = Some (raw, m)" "raw \<noteq> []" "p \<noteq> []" "resolve_artifact_path anchor p = p" "tree env p = Some (Holds raw)"
  shows "artifact_claims env anchor label [] (file_artifact t fs p) = []" "got (file_artifact t fs p) ''path'' = PStr p"
    "is_dict (file_artifact t fs p)"
  using assms
  by (cases p; simp add: artifact_claims_def integrity_failures_def file_artifact_def got_def length_hex_of_bytes py_eq_def msg_if_def)+

lemma pending_fields:
  "map_of (pending_report t anchor d gate readiness command fs) ''schema'' = Some (PStr REPORT_SCHEMA)"
  "map_of (pending_report t anchor d gate readiness command fs) ''generated_at'' = Some (PStr (now_text t))"
  "map_of (pending_report t anchor d gate readiness command fs) ''root'' = Some (PStr (path_text anchor))"
  "map_of (pending_report t anchor d gate readiness command fs) ''gate'' = Some (PStr gate)"
  "map_of (pending_report t anchor d gate readiness command fs) ''readiness'' = Some (PStr readiness)"
  "map_of (pending_report t anchor d gate readiness command fs) ''readiness_artifact'' = Some (file_artifact t fs readiness)"
  "map_of (pending_report t anchor d gate readiness command fs) ''inputs'' = Some (PList (map (file_artifact t fs) (input_paths command)))"
  "map_of (pending_report t anchor d gate readiness command fs) ''summary_json'' =
     Some (case json_output_path command of Some p \<Rightarrow> PStr p | None \<Rightarrow> PNone)"
  by (simp_all add: pending_report_def report_base_def)

lemma summary_passes_json: "summary_passes s \<Longrightarrow> json_passes s"
  by (cases s) (auto simp: summary_passes_def split: option.splits)

lemma join_with_nonempty: "ps \<noteq> [] \<Longrightarrow> [] \<notin> set ps \<Longrightarrow> join_with sep ps \<noteq> []"
  by (induction sep ps rule: join_with.induct) auto

lemma path_text_nonempty: "path_text s \<noteq> []"
  using join_with_nonempty[of "path_parts s"] by (auto simp: path_text_def path_join_def path_parts_def)

text \<open>C36 (refinement). The ends of the evidence chain fit: the report of a fixture run that passed leaves the audit
  nothing to object to.  This holds when the auditor sees the files the run left, reads them with the same
  parsers, the analyzer changed no file that was there before, no file is empty or holds the JSON value
  \<^verbatim>\<open>null\<close>, and the paths resolve to themselves once resolved.\<close>

theorem runner_report_promotes:
  assumes run: "run_fixture t anchor False readiness fs = Inr (r, fs')" "passing r"
    and metadata: "read_file fs readiness = Inr raw" "parse t raw = Some metadata"
      "gate = str_of (text_of t) (dget metadata ''gate'' (PStr []))" "analysis_command (text_of t) gate metadata = Inr (Some command)"
      "analysis_inputs command = Inr given" "json_argument command = PStr out"
    and paths: "given \<noteq> []" "\<forall>p \<in> set (out # given). steady anchor p" "resolve_artifact_path anchor readiness = readiness" "readiness \<noteq> []"
    and files: "fs \<subseteq>\<^sub>m fs'" "\<forall>p raw m. fs' p = Some (raw, m) \<longrightarrow> raw \<noteq> [] \<and> tree env p = Some (Holds raw) \<and> parse t raw \<noteq> Some PNone"
    and same: "json_of env = Inr \<circ> parse t" "str_text env = text_of t" "python t \<noteq> ''--json''" "now_text t \<noteq> []"
  shows "fixture_promotion_failures env anchor gate (report_view env rel (PDict r)) = Inr []"
proof -
  let ?f = "resolve_artifact_path anchor" and ?v = "report_view env rel (PDict r)"
  obtain items where items: "command = map PStr items" and valid: "validate_readiness gate metadata = Inr []"
    and rc: "run_command t anchor False gate readiness metadata (rewrite_command_for_root t items anchor) fs = Inr (r, fs')"
    using run_fixture_cases[OF run(1)] run(2) metadata(1-4) by auto
  let ?c = "rewrite_command_for_root t items anchor"
  obtain tool flag rest where shape: "items = ''python'' # tool # given @ flag # rest" "is_flag flag" "known_tool tool given"
    using command_shape[OF metadata(4)[unfolded items] metadata(5)[unfolded items]] by blast
  have c: "input_paths ?c = map ?f given" "json_output_path ?c = Some (?f out)"
    using rewritten_command[OF shape metadata(6)[unfolded items] same(3) paths(2)] by simp_all
  have fin: "finish_run t ?c (Some (?f out)) (pending_report t anchor False gate readiness ?c fs) fs = (r, fs')"
    and there: "\<forall>p \<in> set (map ?f given). fs p \<noteq> None"
    using run_command_cases[OF rc] run(2) by (auto simp: c)
  note R = finished_report[OF fin run(2)]
  note F = pending_fields[where command = ?c and t = t and anchor = anchor and d = False and gate = gate and readiness = readiness and fs = fs,
      unfolded c option.case]
  have g: "got (PDict r) k = x" if "map_of r k = Some x" for k x using that by (simp add: got_def)
  have fields: "got ?v ''schema'' = PStr REPORT_SCHEMA" "got ?v ''generated_at'' = PStr (now_text t)"
    "got ?v ''root'' = PStr (path_text anchor)" "got ?v ''gate'' = PStr gate" "got ?v ''readiness'' = PStr readiness"
    "got ?v ''readiness_artifact'' = file_artifact t fs readiness"
    "got ?v ''inputs'' = PList (map (file_artifact t fs) (map ?f given))" "got ?v ''summary_json'' = PStr (?f out)"
    "got ?v ''summary_artifact'' = file_artifact t fs' (?f out)"
    by (subst report_view_got; (simp add: REPORTED_FIELDS_def)?; (rule g)?; use R F in simp)+
  have pass: "got ?v ''pass'' = PBool True" "got ?v ''status'' = PStr ''passed''" "py_truth ?v"
    using run(2) by (simp_all add: report_view_status passing_def got_def[of "PDict r"])
  have failures: "got ?v ''failures'' = PList []"
    using R by (simp add: report_view_def got_def REPORTED_FIELDS_def Let_def)
  have header: "header_failures env gate ?v = []"
  proof -
    obtain a as b bs where "now_text t = a # as" "path_text anchor = b # bs"
      using same(4) path_text_nonempty[of anchor] by (meson neq_Nil_conv)
    then show ?thesis by (simp add: header_failures_def fields pass failures Let_def py_or_def py_eq_def msg_if_def)
  qed
  have claim: "artifact_claims env anchor label [] (file_artifact t h p) = []" "got (file_artifact t h p) ''path'' = PStr p"
      "is_dict (file_artifact t h p)"
    if "h = fs \<or> h = fs'" "h p = Some (x, m)" "p \<noteq> []" "?f p = p" for h p x m label
  proof -
    have "fs' p = Some (x, m)" using that files(1) by (auto simp: map_le_def dom_def)
    then have "x \<noteq> []" "tree env p = Some (Holds x)" using files(2) by blast+
    then show "artifact_claims env anchor label [] (file_artifact t h p) = []" "got (file_artifact t h p) ''path'' = PStr p"
      "is_dict (file_artifact t h p)" using file_artifact_claims[of h p x m anchor env] that(2-4) by blast+
  qed
  have at: "?f p \<noteq> []" "?f (?f p) = ?f p" "identity env anchor (?f p) = identity env anchor p" if "p \<in> set (out # given)" for p
    using paths(2) that by (auto simp: steady_def Let_def identity_def)
  obtain m where rd: "fs readiness = Some (raw, m)" using metadata(1) by (auto simp: read_file_def res_simps)
  have "fs' readiness = Some (raw, m)" using rd files(1) by (auto simp: map_le_def dom_def)
  then have rtree: "tree env readiness = Some (Holds raw)" using files(2) by blast
  then have rload: "load_json env readiness = Inr metadata" using metadata(2) by (simp add: load_json_def same(1))
  have dict: "is_dict metadata" using valid by (auto simp: validate_readiness_def split: if_splits)
  have listed: "listed_inputs env anchor (PList (map (file_artifact t fs) (map ?f given))) = Inr (map (identity env anchor) given)"
  proof -
    have "concat (map (\<lambda>a. case got a ''path'' of PStr p \<Rightarrow> [identity env anchor p] | _ \<Rightarrow> [])
        (map (file_artifact t fs) (map ?f gs))) = map (identity env anchor) gs" if "set gs \<subseteq> set given" for gs
      using that
    proof (induction gs)
      case (Cons p gs)
      then have "p \<in> set given" by simp
      then obtain x where "fs (?f p) = Some x" using there by auto
      moreover obtain raw m where "x = (raw, m)" by fastforce
      ultimately have "got (file_artifact t fs (?f p)) ''path'' = PStr (?f p)" using claim(2) at \<open>p \<in> set given\<close> by simp
      then show ?case using Cons at(3)[of p] \<open>p \<in> set given\<close> by simp
    qed simp
    then show ?thesis by (simp add: listed_inputs_def)
  qed
  have "command_failures env anchor ?v command = Inr []"
    using at(3)[of out] listed by (simp add: command_failures_def metadata(5,6) fields msg_if_def)
  moreover obtain a as where readiness: "readiness = a # as" using paths(4) by (cases readiness) auto
  moreover obtain x xs where "command = x # xs" using shape(1) items by simp
  moreover note claim[of fs readiness raw m]
  ultimately have "readiness_promotion_failures env anchor gate ?v = Inr []"
    using metadata(4) valid dict rtree rload paths(3,4) rd
    by (simp add: readiness_promotion_failures_def fields same(2) msg_if_def)
  moreover have "inputs_failures env anchor (got ?v ''inputs'') = []"
  proof -
    have inp: "input_failures env anchor (i, file_artifact t fs (?f p)) = []" if "p \<in> set given" for i p
    proof -
      have "fs (?f p) \<noteq> None" using there that by simp
      then obtain x m where x: "fs (?f p) = Some (x, m)" by fastforce
      obtain b bs where "?f p = b # bs" using at(1)[of p] \<open>p \<in> set given\<close> by (cases "?f p") auto
      then show ?thesis using claim[of fs "?f p" x m] x at[of p] that by (simp add: input_failures_def msg_if_def)
    qed
    obtain p ps where g: "given = p # ps" using paths(1) by (cases given) auto
    have "concat (map (input_failures env anchor) (enumerate n (map (file_artifact t fs) (map ?f gs)))) = []"
      if "set gs \<subseteq> set given" for n gs
      using that by (induction gs arbitrary: n) (simp_all add: inp)
    from this[of "p # ps" 0] show ?thesis unfolding fields(7) by (simp add: inputs_failures_def g)
  qed
  moreover have "summary_failures env anchor ?v = Inr []"
  proof -
    obtain oraw om s where o: "fs' (?f out) = Some (oraw, om)" "parse t oraw = Some s" "s = PNone \<or> summary_passes s"
      using R by blast
    have ot: "tree env (?f out) = Some (Holds oraw)" "s \<noteq> PNone" using files(2) o(1,2) by auto
    then have "load_json env (?f out) = Inr s" "json_passes s"
      using o summary_passes_json by (simp_all add: load_json_def same(1))
    moreover obtain b bs where "?f out = b # bs" using at(1)[of out] by (cases "?f out") auto
    ultimately show ?thesis using claim[of fs' "?f out" oraw om] o(1) at[of out] ot
      by (simp add: summary_failures_def fields msg_if_def)
  qed
  ultimately show ?thesis using pass header
    by (simp add: fixture_promotion_failures_def del: all_of.simps)
qed

definition chain_files :: files where
  "chain_files = sample_files(''a.summary.json'' \<mapsto> ([3], 0))"

definition chain_env :: audit_env where
  "chain_env = \<lparr>tree = (\<lambda>p. map_option (Holds \<circ> fst) (chain_files p)), results = [], json_of = Inr \<circ> parse sample_tools,
     decoded = (\<lambda>_. []), resolved = (\<lambda>p. p), str_text = no_show, repr_text = no_show\<rparr>"

theorem runner_report_promotes_witness:
  "\<exists>r. run_fixture sample_tools ''x'' False ''r.json'' sample_files = Inr (r, chain_files) \<and>
     fixture_promotion_failures chain_env ''x'' ''E0-03'' (report_view chain_env ''results/r'' (PDict r)) = Inr []"
proof -
  obtain r where r: "run_fixture sample_tools ''x'' False ''r.json'' sample_files = Inr (r, chain_files)" "passing r"
    using sample_run unfolding chain_files_def by blast
  have md: "read_file sample_files ''r.json'' = Inr [1]" "parse sample_tools [1] = Some sample_scheduled"
    "''E0-03'' = str_of (text_of sample_tools) (dget sample_scheduled ''gate'' (PStr []))"
    "analysis_command (text_of sample_tools) ''E0-03'' sample_scheduled = Inr (Some (map PStr sample_items))"
    using sample_analysis(1) by (simp_all add: read_file_def sample_files_def sample_tools_def sample_scheduled_def str_of_def)
  have steady: "\<forall>p \<in> set [''a.summary.json'', ''a.csv'']. steady ''x'' p"
    by (simp add: steady_def sample_paths is_flag_def starts_with_def)
  have files: "sample_files \<subseteq>\<^sub>m chain_files"
    "\<forall>p raw m. chain_files p = Some (raw, m) \<longrightarrow> raw \<noteq> [] \<and> tree chain_env p = Some (Holds raw) \<and> parse sample_tools raw \<noteq> Some PNone"
    by (auto simp: map_le_def chain_files_def sample_files_def chain_env_def sample_tools_def sample_scheduled_def split: if_splits)
  have "fixture_promotion_failures chain_env ''x'' ''E0-03'' (report_view chain_env ''results/r'' (PDict r)) = Inr []"
    by (rule runner_report_promotes[OF r md sample_analysis(2,3) _ steady sample_names(5) _ files])
       (simp_all add: chain_env_def sample_tools_def)
  then show ?thesis using r by blast
qed

end
