(* ===== verification/Gate_Report.thy ===== *)
theory Gate_Report
  imports Gate_Audit
begin

text \<open>
  The Markdown and Mermaid renderings of an audit, \<^verbatim>\<open>render_markdown\<close> and \<^verbatim>\<open>render_mermaid\<close> of
  \<^verbatim>\<open>tools/audit_prototype0_gates.py\<close>: one row, and one node, per gate.
\<close>

section \<open>Markdown\<close>

definition newline :: string where "newline = [CHR 0x0A]"
definition tick :: "string \<Rightarrow> string" where "tick s = [CHR 0x60] @ s @ [CHR 0x60]"

text \<open>\<^verbatim>\<open>"<br>".join(xs)\<close>, which raises on an element that is not a string.\<close>

definition join_breaks :: "pyval list \<Rightarrow> string result" where
  "join_breaks xs = bind (map_res string_of xs) (\<lambda>ss. Inr (join_with ''<br>'' ss))"

definition list_of :: "pyval \<Rightarrow> pyval list" where
  "list_of v = (case v of PList xs \<Rightarrow> xs | _ \<Rightarrow> [])"

text \<open>The status of metadata or of a run report, with its path and its first \<open>n\<close> failures.\<close>

definition status_cell :: "nat \<Rightarrow> pyval \<Rightarrow> string result" where
  "status_cell n v =
     bind (case list_of (got v ''failures'') of
             [] \<Rightarrow> Inr [] | fs \<Rightarrow> bind (join_breaks (take n fs)) (\<lambda>s. Inr (''<br>'' @ s))) (\<lambda>failures.
       Inr (str_of no_show (got v ''status'') @
         (case got v ''path'' of PStr p \<Rightarrow> if p = [] then [] else ''<br>'' @ tick p | _ \<Rightarrow> []) @ failures))"

definition artifacts_cell :: "pyval \<Rightarrow> string" where
  "artifacts_cell artifacts =
     (if \<not> py_truth artifacts then []
      else ''<br>analysis inputs: '' @ str_of no_show (got artifacts ''inputs_present'') @ ''/'' @
           str_of no_show (got artifacts ''inputs_total'') @
           (let summary = got artifacts ''summary''
            in if \<not> py_truth summary then []
               else ''<br>summary: '' @
                 (if py_truth (got summary ''exists'')
                  then (if py_truth (got summary ''pass'') then ''pass'' else ''not-pass'') else ''missing'')))"

definition count_existing :: "gate_result \<Rightarrow> nat" where
  "count_existing g = length (filter er_exists (gr_evidence g))"

definition evidence_count :: "gate_result \<Rightarrow> string" where
  "evidence_count g = show_int (int (count_existing g)) @ ''/'' @ show_int (int (length (gr_evidence g)))"

definition gate_row :: "gate_result \<Rightarrow> string result" where
  "gate_row g =
     bind (case gr_readiness g of
             None \<Rightarrow> Inr []
           | Some v \<Rightarrow> bind (status_cell 3 v) (\<lambda>s. Inr (s @ artifacts_cell (got v ''analysis_artifacts'')))) (\<lambda>readiness.
     bind (case gr_run_report g of None \<Rightarrow> Inr [] | Some v \<Rightarrow> status_cell 2 v) (\<lambda>run_report.
       Inr (''| '' @ gr_gate g @ '' '' @ gr_name g @ '' | '' @ gr_status g @ '' | '' @ evidence_count g @ '' | '' @ readiness @
            '' | '' @ run_report @ '' | '' @ join_with ''<br>'' (gr_blockers g) @ '' | '' @
            join_with ''<br>'' (map tick (gr_next_actions g)) @ '' |'')))"

definition totals :: "string \<Rightarrow> audit_report \<Rightarrow> string list" where
  "totals final rep =
     [show_int (int (ar_passed rep)) @ '' passed'', show_int (int (ar_partial rep)) @ '' partial'',
      show_int (int (ar_blocked rep)) @ '' blocked'', show_int (int (ar_problem rep)) @ '' '' @ final]"

definition markdown_lines :: "audit_report \<Rightarrow> string list result" where
  "markdown_lines rep =
     bind (map_res gate_row (ar_gates rep)) (\<lambda>rows.
       Inr ([''# Prototype 0 Gate Audit'', [], ''Root: '' @ tick (ar_root rep), [],
             ''| Gate | Status | Evidence | Readiness | Run Report | Blockers | Next Actions |'',
             ''|---|---|---:|---|---|---|---|''] @ rows @
            [[], ''Summary: '' @ join_with '', '' (totals ''evidence problems.'' rep)]))"

definition render_markdown :: "audit_report \<Rightarrow> string result" where
  "render_markdown rep = bind (markdown_lines rep) (\<lambda>ls. Inr (join_with newline ls @ newline))"

section \<open>Mermaid\<close>

definition quote :: "string \<Rightarrow> string" where "quote s = [CHR 0x22] @ s @ [CHR 0x22]"
definition soft_break :: string where "soft_break = [CHR 0x5C, CHR ''n'']"

definition status_class :: "string \<Rightarrow> string" where
  "status_class status = (if status \<in> {''passed'', ''partial'', ''blocked''} then status else ''problem'')"

definition node_name :: "gate_result \<Rightarrow> string" where
  "node_name g = filter (\<lambda>c. c \<noteq> CHR ''-'') (gr_gate g)"

definition node_label :: "gate_result \<Rightarrow> string" where
  "node_label g =
     gr_gate g @ soft_break @ gr_name g @ soft_break @ gr_status g @ soft_break @ evidence_count g @ '' evidence'' @
     (case gr_readiness g of None \<Rightarrow> [] | Some v \<Rightarrow> soft_break @ ''readiness: '' @ str_of no_show (got v ''status'')) @
     (case gr_run_report g of None \<Rightarrow> [] | Some v \<Rightarrow> soft_break @ ''run: '' @ str_of no_show (got v ''status''))"

fun node_lines :: "string option \<Rightarrow> gate_result list \<Rightarrow> string list" where
  "node_lines previous [] = []"
| "node_lines previous (g # gs) =
     [''  '' @ node_name g @ ''['' @ quote (node_label g) @ '']''] @
     (case previous of None \<Rightarrow> [] | Some p \<Rightarrow> [''  '' @ p @ '' --> '' @ node_name g]) @
     [''  class '' @ node_name g @ '' '' @ status_class (gr_status g)] @
     node_lines (Some (node_name g)) gs"

definition render_mermaid :: "audit_report \<Rightarrow> string" where
  "render_mermaid rep =
     join_with newline
       ([''flowchart LR'',
         ''  classDef passed fill:#d1fae5,stroke:#047857,color:#064e3b'',
         ''  classDef partial fill:#fef3c7,stroke:#b45309,color:#78350f'',
         ''  classDef blocked fill:#fee2e2,stroke:#b91c1c,color:#7f1d1d'',
         ''  classDef problem fill:#f3e8ff,stroke:#7e22ce,color:#581c87''] @
        node_lines None (ar_gates rep) @
        [''  Summary['' @ quote (join_with '' / '' (totals ''problems'' rep)) @ '']''] @
        (if ar_gates rep = [] then [] else [''  '' @ node_name (last (ar_gates rep)) @ '' --> Summary''])) @ newline"

section \<open>One row and one node per gate\<close>

lemma markdown_lines_count:
  "markdown_lines rep = Inr ls \<Longrightarrow> length ls = length (ar_gates rep) + 8"
  by (auto simp: markdown_lines_def bind_eq_Inr dest: map_res_length)

lemma node_lines_count: "length (node_lines previous gs) + (if previous = None \<and> gs \<noteq> [] then 1 else 0) = 3 * length gs"
  by (induction previous gs rule: node_lines.induct) (auto split: option.split)

end
