(* ===== verification/Spec2Isabelle.thy ===== *)
theory Spec2Isabelle
  imports Leader_Spec Sweep Security_Envelope Slot_Package Flash_Layout Audio_Loopback Gpio_Timing Packet_Pair
    Attenuation_Sweep Production_Record Product_Release Audio_Benchmark Power_Budget Evidence_Chain Gate_Report Release_Bundle
begin

text \<open>
  A verification development for the Python code of OpenRef: the deterministic simulator of its
  time-slotted voice network under \<^verbatim>\<open>simulator/src/openref_sim/\<close> and the release, evidence and
  measurement tools under \<^verbatim>\<open>tools/\<close>.

  \<^bold>\<open>The program.\<close>  The simulator assembles a world from a \<^verbatim>\<open>Scenario\<close>: voice nodes that queue a frame
  every frame interval and send one per slot, a coordinator that sends heartbeats and is replaced by
  an election when it falls silent, and one shared medium on which overlapping transmissions collide.
  A discrete-event engine runs their callbacks in order of time and insertion and keeps a trace, from
  which the summary of a run is computed.  The sweep runs many scenarios and ranks them.  The release
  tools make the signed slot packages of the audio processor's flash and validate flash layouts, trust
  anchors, release bundles, provenance and release manifests.  The evidence tools validate the
  metadata of a measurement fixture, run its analyzer, and audit whether the evidence of every gate is
  there and bound to the files it names; the analyzers turn captures into verdicts.

  \<^bold>\<open>Python in the model.\<close>  \<open>Prelude\<close>: exceptions are values (\<open>'a result\<close> with \<open>bind\<close>, loops are \<open>fold_res\<close>
  and \<open>map_res\<close>), bytes are 8-bit words, dictionaries are association lists in insertion order.
  \<open>Py_Float\<close>: binary64 over the rationals with round-half-even, infinities and NaN, without the sign of
  zero.  \<open>Py_Value\<close>, \<open>Py_Json\<close>: the values of a JSON document, equality and order as Python's, and reports
  (messages accumulated by checks that may raise).  \<open>Py_Text\<close>, \<open>Py_Format\<close>, \<open>Py_Path\<close>: integers in a base,
  hexadecimal and base64, float formats, POSIX paths.  \<open>Sha256\<close> is FIPS 180-4, executable.

  \<^bold>\<open>The simulator.\<close>  \<open>Wire_Packet\<close> (\<^verbatim>\<open>packet.py\<close>): the header codec and airtimes; round trip and rejection.
  \<open>Security_Envelope\<close> (\<^verbatim>\<open>security.py\<close>): nonce and envelope over an AEAD that is a parameter; round trip.
  \<open>Engine\<close> (\<^verbatim>\<open>engine.py\<close>, \<^verbatim>\<open>events.py\<close>): the queue behind the locale \<open>event_queue\<close>, the loop as
  \<open>partial_function (option)\<close> whose value \<open>None\<close> is not returning, and the locale \<open>engine_client\<close> for what a
  client's callbacks must preserve.  \<open>Medium\<close> (\<^verbatim>\<open>medium.py\<close>): transmissions as a store addressed by
  references, collisions, loss windows, outcomes, and \<open>med_inv\<close>, which says that the collision flags are
  exact.  \<open>Node\<close> (\<^verbatim>\<open>node.py\<close>): queues, slots and deadlines, and \<open>net_inv\<close>, which accounts for every frame.
  \<open>Protocol\<close> (\<^verbatim>\<open>protocol.py\<close>): heartbeats, timeouts, elections, and the invariant of the timers;
  \<open>Leader_Spec\<close> is the abstract protocol it refines.  \<open>Scenario\<close> (\<^verbatim>\<open>scenario.py\<close>, \<^verbatim>\<open>capacity.py\<close>), \<open>Metrics\<close>
  (\<^verbatim>\<open>metrics.py\<close>) and \<open>Run\<close> (\<^verbatim>\<open>run.py\<close>): assembly, a whole run and its summary.  \<open>Progress\<close>: a measure on
  the queue shows that the loop ends and the conditions under which it raises nothing.  \<open>Outcomes\<close>: the
  reachable states as an inductive predicate, their invariant by rule induction, and what the trace
  says of the medium.  \<open>Sample_Run\<close> evaluates one small run, the state the properties are instantiated
  at.  \<open>Sweep\<close> (\<^verbatim>\<open>sweep.py\<close>): cases, screening, ranking and both report formats.

  \<^bold>\<open>The release tools.\<close>  \<open>P256\<close>, \<open>Der\<close>, \<open>Trust_Anchor\<close>, \<open>Slot_Package\<close> (\<^verbatim>\<open>package_rt595_signed_slot.py\<close>,
  \<^verbatim>\<open>provision_rt595_trust_anchor.py\<close>): curve arithmetic, RFC 6979 nonces (a \<open>partial_function\<close>, since the
  loop has no bound), ECDSA, strict DER, PEM keys, packing and verification.  \<open>Flash_Layout\<close>
  (\<^verbatim>\<open>validate_rt595_flash_layout.py\<close>): an accepted table tiles the flash, an accepted map stays inside
  its partition.  \<open>Release_Bundle\<close>
  (\<^verbatim>\<open>assemble_rt595_release_bundle.py\<close>): what an accepted bundle holds, and that an assembled one verifies.  \<open>Product_Release\<close>, \<open>Production_Record\<close>, \<open>Audio_Benchmark\<close>, \<open>Power_Budget\<close>: the
  validators of the same names; their theorems say what an accepted document is known to hold.

  \<^bold>\<open>Measurement and evidence.\<close>  \<open>Capture_Csv\<close>, \<open>Audio_Loopback\<close>, \<open>Gpio_Timing\<close>, \<open>Packet_Pair\<close> and
  \<open>Attenuation_Sweep\<close>: the analyzers; their theorems account for every event of a capture and say what a
  passing verdict means.  \<open>Fixture_Readiness\<close> (\<^verbatim>\<open>prototype0_fixture_readiness.py\<close>) and \<open>Fixture_Run\<close>
  (\<^verbatim>\<open>run_prototype0_fixture_analysis.py\<close>): a fixture's metadata and the run of its analyzer.  \<open>Gate_Evidence\<close>,
  \<open>Gate_Audit\<close> and \<open>Gate_Report\<close> (\<^verbatim>\<open>audit_prototype0_gates.py\<close>, \<^verbatim>\<open>prototype0_fixture_actions.py\<close>): the audit of
  the gates over a workspace's files, what a promoted gate rests on, and the renderings.  \<open>Evidence_Chain\<close>
  joins the two: the report of a passing run is one the audit promotes.

  \<^bold>\<open>Parameters.\<close>  What is not the repository's code is an argument: the random draws, the AEAD, the
  parsers \<^verbatim>\<open>json.loads\<close> and \<^verbatim>\<open>csv.DictReader\<close>, Python's texts of floats and containers (\<open>show\<close>, \<open>repr\<close>),
  the clock, the contents and times of files, Git, and the analyzer process.  No theorem assumes
  more of them than its statement says.

  \<^bold>\<open>Bounds.\<close>  Integers are unbounded, as in Python, except where the code packs them (\<open>pack_uint\<close> raises when
  a value does not fit).  There is no fuel: the loops that may not end are \<open>partial_function\<close>s, and
  \<open>run_scenario_returns\<close> proves that the simulator's does.  Strings hold code points below 256.

  \<^bold>\<open>Not modelled.\<close>  Argument parsing, printing and the writing of report files (the \<^verbatim>\<open>main\<close> functions,
  \<^verbatim>\<open>cli.py\<close>, \<^verbatim>\<open>write_trace_csv\<close>); the MVP audit, status pages and release provenance, which collect the
  state of Git, tools and files; the field-by-field checks of KiCad and hardware contract documents; the
  regular-expression scans of logs and documents; the KiCad generators and the native test driver; and
  the serial probes and runners, which are timed dialogues with boards.
\<close>

section \<open>The simulator\<close>

text \<open>C1 (safety). In every state a scenario can reach, whatever the random draws, a transmission is
  marked as collided exactly when its air time overlaps that of another transmission: the flags the
  medium sets on both partners while it transmits are neither missed nor spurious.\<close>

theorem collision_flags_exact:
  assumes "reachable rnd sc s" "r < length (transmissions s)"
  shows "collided (transmissions s ! r) \<longleftrightarrow>
    (\<exists>r' < length (transmissions s). r' \<noteq> r \<and> tx_overlap (transmissions s) r r')"
  using reachable_inv[OF assms(1)] assms(2) by (auto simp: med_inv_def)

theorem collision_flags_exact_witness:
  "\<exists>s. reachable (\<lambda>_. Fin 0) tiny s \<and> length (transmissions s) = 2 \<and>
     (collided (transmissions s ! 0) \<longleftrightarrow> (\<exists>r' < length (transmissions s). r' \<noteq> 0 \<and> tx_overlap (transmissions s) 0 r'))"
  using tiny_reachable collision_flags_exact[of "\<lambda>_. Fin 0" tiny _ 0] by fastforce

text \<open>C2 (safety). Every outcome event of the trace tells the truth about the medium: it names a
  transmission that has left the air at the event's time, and that transmission collided exactly when
  the event is \<^verbatim>\<open>packet_collided\<close>.  So nothing that collided is ever reported as delivered or lost.\<close>

theorem outcome_events_truthful:
  assumes "reachable rnd sc s" "e \<in> set (trace s)"
    "te_event e \<in> {''packet_delivered'', ''packet_collided'', ''packet_lost''}"
  shows "\<exists>r < length (transmissions s). r \<notin> set (active s) \<and>
    te_packet_id e = Some (packet_id (tx_packet (transmissions s ! r))) \<and>
    te_time_us e = end_us (transmissions s ! r) \<and>
    (te_event e = ''packet_collided'' \<longleftrightarrow> collided (transmissions s ! r))"
  using reachable_inv[OF assms(1)] assms(2,3)
  by (fastforce simp: outcome_inv_def outcome_of_def outcome_names_def)

theorem outcome_events_truthful_witness:
  "\<exists>s e. reachable (\<lambda>_. Fin 0) tiny s \<and> e \<in> set (trace s) \<and> te_event e = ''packet_collided'' \<and>
     (\<exists>r < length (transmissions s). collided (transmissions s ! r) \<and>
        te_packet_id e = Some (packet_id (tx_packet (transmissions s ! r))))"
proof -
  obtain s where s: "reachable (\<lambda>_. Fin 0) tiny s" "length (trace s) = 7" "te_event (trace s ! 6) = ''packet_collided''"
    using tiny_reachable by blast
  then have e: "trace s ! 6 \<in> set (trace s)" by simp
  have "\<exists>r < length (transmissions s). collided (transmissions s ! r) \<and>
      te_packet_id (trace s ! 6) = Some (packet_id (tx_packet (transmissions s ! r)))"
    using outcome_events_truthful[OF s(1) e] s(3) by auto
  then show ?thesis using s e by blast
qed

text \<open>C3 (invariant). No voice frame is unaccounted for: in every reachable state the frames generated
  so far are exactly those dropped by a full queue, still queued, on the air, delivered, collided or
  lost.\<close>

theorem frames_accounted:
  assumes "reachable rnd sc s"
  shows "ev_count ''voice_frame_generated'' (trace s) =
    ev_count ''queue_overflow'' (trace s) + queued s + voice_in_flight s +
    voice_count ''packet_delivered'' (trace s) + voice_count ''packet_collided'' (trace s) +
    voice_count ''packet_lost'' (trace s)"
  using reachable_inv[OF assms] by (simp add: net_inv_def accounted_def)

theorem frames_accounted_witness:
  "\<exists>s. reachable (\<lambda>_. Fin 0) tiny s \<and> length (trace s) = 7 \<and>
     ev_count ''voice_frame_generated'' (trace s) =
     ev_count ''queue_overflow'' (trace s) + queued s + voice_in_flight s +
     voice_count ''packet_delivered'' (trace s) + voice_count ''packet_collided'' (trace s) +
     voice_count ''packet_lost'' (trace s)"
  using tiny_reachable frames_accounted by blast

text \<open>C4 (invariant). Packet identifiers are never shared: at most one packet in all queues and
  transmissions together, of every node and of the coordinator, has a given identifier, and the
  shared counter is past all of them.  The removal of a finished transmission by equality rests on
  it.\<close>

theorem packet_ids_unique:
  assumes "reachable rnd sc s"
  shows "count (live_ids s) k \<le> 1 \<and> (k \<in># live_ids s \<longrightarrow> k < next_packet_id s)"
  using reachable_inv[OF assms] by (simp add: net_inv_def)

theorem packet_ids_unique_witness:
  "\<exists>s. reachable (\<lambda>_. Fin 0) tiny s \<and> length (transmissions s) = 2 \<and>
     count (live_ids s) 1 \<le> 1 \<and> (1 \<in># live_ids s \<longrightarrow> 1 < next_packet_id s)"
  using tiny_reachable packet_ids_unique[of "\<lambda>_. Fin 0" tiny _ 1] by blast

text \<open>C5 (invariant). Every node's queue keeps its contract: it never exceeds the configured number of
  frames, holds this node's voice frames only, in the order they were created, with consecutive
  sequence numbers that end just before the next one to be given, and the recorded maximum depth
  bounds it.\<close>

theorem queue_contract:
  assumes "reachable rnd sc s" "i < length (vnodes s)"
  shows "let n = vnodes s ! i; q = vn_queue n in
    length q \<le> nat (max_queue_frames (vn_voice n)) \<and> int (length q) \<le> max_queue_depth n \<and>
    (\<forall>p \<in> set q. kind p = VOICE \<and> source_id p = nc_node_id (vn_config n) \<and> created_at_us p \<le> now_us s) \<and>
    sorted (map created_at_us q) \<and>
    map pk_sequence q = [vn_sequence n - int (length q)..vn_sequence n - 1]"
proof -
  have "node_ok (now_us s) (vnodes s ! i)" using reachable_inv[OF assms(1)] assms(2) by (simp add: net_inv_def)
  then show ?thesis by (auto simp: node_ok_def Let_def)
qed

theorem queue_contract_witness:
  "\<exists>s. reachable (\<lambda>_. Fin 0) tiny s \<and> 0 < length (vnodes s) \<and>
     int (length (vn_queue (vnodes s ! 0))) \<le> max_queue_depth (vnodes s ! 0)"
  using tiny_reachable queue_contract[of "\<lambda>_. Fin 0" tiny _ 0] by (fastforce simp: Let_def)

text \<open>C6 (invariant). The protocol machine never loses or doubles its timers: in every reachable state
  exactly one heartbeat and exactly one timeout check are pending, an election is pending exactly
  when the flag says so (and then exactly one), and the last heartbeat is not in the future.\<close>

theorem protocol_timers:
  assumes "reachable rnd sc s"
  shows "count (image_mset se_callback (mset (events s))) Heartbeat = 1 \<and>
    count (image_mset se_callback (mset (events s))) CheckTimeout = 1 \<and>
    count (image_mset se_callback (mset (events s))) Elect = (if election_pending s then 1 else 0) \<and>
    last_heartbeat_us s \<le> now_us s"
  using reachable_inv[OF assms] by (auto simp: proto_inv_def pending_def)

theorem protocol_timers_witness:
  "\<exists>s. reachable (\<lambda>_. Fin 0) tiny s \<and> length (trace s) = 7 \<and>
     count (image_mset se_callback (mset (events s))) Heartbeat = 1"
  using tiny_reachable protocol_timers by blast

text \<open>Time is monotone: in every reachable state the trace is in chronological order and
  not ahead of the clock, and nothing is scheduled in the past.\<close>

theorem time_monotone:
  assumes "reachable rnd sc s"
  shows "sorted (map te_time_us (trace s)) \<and> (\<forall>e \<in> set (trace s). te_time_us e \<le> now_us s) \<and>
    (\<forall>e \<in> set (events s). now_us s \<le> se_time_us e)"
  using reachable_inv[OF assms] by (simp add: sim_inv_def)

theorem time_monotone_witness:
  "\<exists>s. reachable (\<lambda>_. Fin 0) tiny s \<and> length (trace s) = 7 \<and> sorted (map te_time_us (trace s))"
  using tiny_reachable time_monotone by blast

text \<open>C7 (termination). \<^verbatim>\<open>run_scenario\<close> returns for every scenario and every sequence of random draws,
  with a result or with an exception: the event loop cannot run forever, because a scenario whose
  heartbeat interval is zero (the only way to schedule endlessly at one instant) is refused by the
  division in \<^verbatim>\<open>estimate_capacity\<close> before the loop starts.\<close>

theorem run_scenario_returns: "run_scenario random sc \<noteq> None"
  by (rule run_scenario_defined)


definition stuck :: scenario where
  "stuck = tiny\<lparr>heartbeat_interval_ms := Fin 0\<rparr>"


text \<open>C9 (error). Under the premises a sensible scenario meets (it assembles, airtimes and durations are
  not negative, queues hold at least one frame, the heartbeat interval and the election delay are not
  negative, the first coordinator is one of the nodes) the event loop raises nothing: the run
  reaches its end, and only the summary could still raise.\<close>

theorem run_scenario_raises_nothing:
  assumes "build_world sc = Inr s" "estimate_capacity sc = Inr ce" "duration_us sc = Inr d"
    and "0 \<le> ce_voice_airtime_us ce" "0 \<le> ce_heartbeat_airtime_us ce" "1 \<le> sc_max_queue_frames sc"
    and "sc_heartbeat_interval_us sc = Inr h" "0 \<le> h" "sc_election_delay_us sc = Inr el" "0 \<le> el"
    and "sc_initial_coordinator_id sc \<in> ns_node_id ` set (sc_nodes sc)" "0 \<le> d + ce_voice_airtime_us ce"
  shows "\<exists>t. run_scenario random sc = Some (bind (summarize (trace t)) (\<lambda>sm.
      Inr \<lparr>final_world = t, rr_summary = sm, rr_capacity = ce\<rparr>)) \<and> now_us t = d + ce_voice_airtime_us ce"
  by (rule run_scenario_runs[OF assms(1-3) build_world_workable[OF assms(1,2,4-11)] assms(12)])

theorem run_scenario_raises_nothing_witness:
  "\<exists>t ce. run_scenario (\<lambda>_ _. Fin 0) tiny = Some (bind (summarize (trace t)) (\<lambda>sm.
      Inr \<lparr>final_world = t, rr_summary = sm, rr_capacity = ce\<rparr>)) \<and> now_us t = 20000"
proof -
  obtain s where s: "build_world tiny = Inr s" using tiny_world by blast
  show ?thesis
    using run_scenario_raises_nothing[OF s tiny_capacity tiny_duration, where h = 20000 and el = 50000 and random = "\<lambda>_ _. Fin 0"]
    by (fastforce simp: tiny_def scenario_eval)
qed

text \<open>C10 (bounds). The summary of a completed run is consistent: what was dropped, delivered, collided and
  lost never exceeds what was generated, so the delivery ratio, when there is one, is a number
  between 0 and 1.\<close>

theorem delivery_ratio_unit:
  assumes "run_scenario random sc = Some (Inr r)"
  shows "let sm = rr_summary r in
    queue_overflows sm + delivered sm + sm_collided sm + randomly_lost sm \<le> generated sm \<and>
    (case delivery_ratio sm of None \<Rightarrow> generated sm = 0 | Some q \<Rightarrow> fle (Fin 0) q \<and> fle q (Fin 1))"
proof -
  obtain t where t: "reachable (random (random_seed sc)) sc t" "summarize (trace t) = Inr (rr_summary r)"
    using run_scenario_reachable[OF assms] by blast
  have "net_inv t" using reachable_inv[OF t(1)] by simp
  then show ?thesis using summarize_counts[OF t(2)] ratio_opt_unit
    by (simp add: net_inv_def accounted_def Let_def)
qed

theorem delivery_ratio_unit_witness:
  "\<exists>r. run_scenario (\<lambda>_ _. Fin 0) tiny = Some (Inr r) \<and>
     (case delivery_ratio (rr_summary r) of None \<Rightarrow> generated (rr_summary r) = 0 | Some q \<Rightarrow> fle (Fin 0) q \<and> fle q (Fin 1))"
proof -
  obtain r where "run_scenario (\<lambda>_ _. Fin 0) tiny = Some (Inr r)"
    using tiny_run by (auto split: option.splits sum.splits)
  then show ?thesis using delivery_ratio_unit[of "\<lambda>_ _. Fin 0" tiny r] by (auto simp: Let_def)
qed

text \<open>An election chooses the least identifier among the enabled nodes, whatever order
  the nodes were added in, and makes it coordinator with a fresh heartbeat time; with no node enabled
  it changes nothing.  Either way the election is over.\<close>

theorem elect_chooses_least:
  "\<not> election_pending (elect s) \<and>
   (if \<exists>(k, i) \<in> set (nodes s). vn_enabled (vnodes s ! i)
    then coordinator_id (elect s) = Min {k. \<exists>i. (k, i) \<in> set (nodes s) \<and> vn_enabled (vnodes s ! i)} \<and>
         last_heartbeat_us (elect s) = now_us s
    else coordinator_id (elect s) = coordinator_id s \<and> last_heartbeat_us (elect s) = last_heartbeat_us s)"
proof -
  have set: "set (enabled_ids s) = {k. \<exists>i. (k, i) \<in> set (nodes s) \<and> vn_enabled (vnodes s ! i)}"
    by (force simp: enabled_ids_def)
  show ?thesis
  proof (cases "enabled_ids s")
    case Nil
    then have "\<not> (\<exists>(k, i) \<in> set (nodes s). vn_enabled (vnodes s ! i))" using set by auto
    then show ?thesis using Nil by (simp add: elect_def Let_def)
  next
    case (Cons w ws)
    have "sorted (enabled_ids s)" by (simp add: enabled_ids_def)
    then have "Min (set (enabled_ids s)) = w" by (intro Min_eqI) (auto simp: Cons)
    moreover have "\<exists>(k, i) \<in> set (nodes s). vn_enabled (vnodes s ! i)" using set Cons by fastforce
    ultimately show ?thesis using set elect_cases[of s] Cons by (auto simp: elected_frame)
  qed
qed


definition one_on_air :: "unit medium_state_scheme" where
  "one_on_air = \<lparr>now_us = 5, events = [], next_order = 0, trace = [], propagation_delay_us = 2, base_loss = Fin 0,
     loss_windows = [], active = [0],
     transmissions = [\<lparr>tx_packet = \<lparr>packet_id = 1, source_id = 1, pk_sequence = 0, created_at_us = 0,
       payload_bytes = 8, kind = VOICE\<rparr>, start_us = 0, end_us = 5, collided = False\<rparr>], draws = 0\<rparr>"


text \<open>The engine refuses to go backwards: an event in the past or a negative delay is a
  \<^verbatim>\<open>ValueError\<close> and leaves no event behind, and every other event is queued with a fresh order number
  while the queue stays in order.\<close>

theorem schedule_contract:
  "(if time < now_us s
    then schedule_at time cb lab s = Inl (ValueError ''Cannot schedule an event in the past'')
    else \<exists>s'. schedule_at time cb lab s = Inr s' \<and> (heap_ok (events s) \<longrightarrow> heap_ok (events s')) \<and>
      next_order s' = next_order s + 1 \<and>
      mset (events s') = add_mset \<lparr>se_time_us = time, se_order = next_order s, se_callback = cb, se_description = lab\<rparr> (mset (events s))) \<and>
   (if delay < 0 then schedule delay cb lab s = Inl (ValueError ''delay_us must be nonnegative'')
    else schedule delay cb lab s = schedule_at (now_us s + delay) cb lab s)"
  by (simp add: schedule_at_def schedule_def hq.push_inv hq.push_contents)

text \<open>C12 (liveness). Every transmission is resolved: when \<^verbatim>\<open>run_scenario\<close> returns, each transmission
  whose air time was over by the end of the run has its outcome in the trace, stamped with the instant
  it left the air and naming its packet; none is left hanging by the event loop.\<close>

theorem transmissions_resolved:
  assumes "run_scenario random sc = Some (Inr r)" "tx < length (transmissions (final_world r))"
    "end_us (transmissions (final_world r) ! tx) \<le> now_us (final_world r)"
  shows "\<exists>e \<in> set (trace (final_world r)).
    te_event e \<in> {''packet_delivered'', ''packet_collided'', ''packet_lost''} \<and>
    te_packet_id e = Some (packet_id (tx_packet (transmissions (final_world r) ! tx))) \<and>
    te_time_us e = end_us (transmissions (final_world r) ! tx)"
proof -
  obtain t u where t: "reachable (random (random_seed sc)) sc t" "final_world r = t\<lparr>now_us := u\<rparr>"
    "\<forall>e \<in> set (events t). u < se_time_us e"
    using run_scenario_reachable[OF assms(1)] by blast
  have med: "med_inv {#} t" and out: "outcome_inv t" using reachable_inv[OF t(1)] by simp_all
  have tx: "tx < length (transmissions t)" "end_us (transmissions t ! tx) \<le> u" using assms(2,3) t(2) by simp_all
  have "tx \<notin> set (active t)" using active_finishes_later[OF med t(3)] tx(2) by fastforce
  then show ?thesis using out tx(1) t(2) by (fastforce simp: outcome_inv_def outcome_of_def outcome_names_def)
qed

theorem transmissions_resolved_witness:
  "\<exists>r. run_scenario (\<lambda>_ _. Fin 0) tiny = Some (Inr r) \<and> 0 < length (transmissions (final_world r)) \<and>
     (\<exists>e \<in> set (trace (final_world r)). te_event e \<in> {''packet_delivered'', ''packet_collided'', ''packet_lost''} \<and>
        te_time_us e = end_us (transmissions (final_world r) ! 0))"
proof -
  obtain r where r: "run_scenario (\<lambda>_ _. Fin 0) tiny = Some (Inr r)" "0 < length (transmissions (final_world r))"
    "end_us (transmissions (final_world r) ! 0) \<le> now_us (final_world r)"
    using tiny_final by blast
  then show ?thesis using transmissions_resolved[OF r] by blast
qed

end
